(* ===== verification/Prelude.thy ===== *)
theory Prelude
  imports Main "HOL-Library.AList" "HOL-Library.Monad_Syntax" "HOL-Library.Multiset" "HOL-Library.Sublist"
    "HOL-Library.Word"
begin

text \<open>
  The part of the library every component shares: hash tables as association lists with the
  laws of a hash map as a locale, ordered multisets as lists kept sorted by a key, a weakest
  precondition for computations that may have no defined result, and the casts between the
  machine integers of the source.
\<close>

section \<open>Collections of facts\<close>

named_theorems wp_rules \<open>what an operation guarantees, as a weakest precondition\<close>
named_theorems frame \<open>fields of the state an operation leaves alone\<close>
named_theorems flag_defs \<open>the numeric values of the flags\<close>

section \<open>Computations that may have no defined result\<close>

text \<open>
  An operation of the collector is a function on the state with a result of type
  \<open>('a \<times> 's) option\<close>. \<open>None\<close> stands for a run with no defined outcome: the C++ code dereferences
  a null or freed pointer, reads out of range, or its loop never ends. \<open>wp m Q\<close> says that the
  computation has an outcome and that the outcome satisfies \<open>Q\<close>.
\<close>

definition wp :: "('a \<times> 's) option \<Rightarrow> ('a \<Rightarrow> 's \<Rightarrow> bool) \<Rightarrow> bool" where
  "wp m Q = (case m of None \<Rightarrow> False | Some (r, s) \<Rightarrow> Q r s)"

lemma wp_None [simp]: "wp None Q = False"
  by (simp add: wp_def)

lemma wp_Some [simp]: "wp (Some (r, s)) Q = Q r s"
  by (simp add: wp_def)

lemma wp_bind [simp]: "wp (Option.bind m f) Q = wp m (\<lambda>r s. wp (f (r, s)) Q)"
  by (cases m) (auto simp: wp_def split: option.splits prod.splits)

lemma wp_conseq: "wp m P \<Longrightarrow> (\<And>r s. P r s \<Longrightarrow> Q r s) \<Longrightarrow> wp m Q"
  by (auto simp: wp_def split: option.splits)

lemma wp_conj: "wp m P \<Longrightarrow> wp m Q \<Longrightarrow> wp m (\<lambda>r s. P r s \<and> Q r s)"
  by (auto simp: wp_def split: option.splits)

lemma wpE:
  assumes "wp m Q"
  obtains r s where "m = Some (r, s)" and "Q r s"
  using assms by (auto simp: wp_def split: option.splits)

lemma wpI: "m = Some (r, s) \<Longrightarrow> Q r s \<Longrightarrow> wp m Q"
  by simp

lemma wp_if [simp]: "wp (if b then m else n) Q = (if b then wp m Q else wp n Q)"
  by simp

text \<open>
  The partial-correctness counterpart: whatever outcome there is satisfies \<open>Q\<close>. Frame facts
  are stated with it, since they hold of every run.
\<close>

definition wlp :: "('a \<times> 's) option \<Rightarrow> ('a \<Rightarrow> 's \<Rightarrow> bool) \<Rightarrow> bool" where
  "wlp m Q = (case m of None \<Rightarrow> True | Some (r, s) \<Rightarrow> Q r s)"

lemma wlp_None [simp]: "wlp None Q"
  by (simp add: wlp_def)

lemma wlp_Some [simp]: "wlp (Some (r, s)) Q = Q r s"
  by (simp add: wlp_def)

lemma wlp_bind [simp]: "wlp (Option.bind m f) Q = wlp m (\<lambda>r s. wlp (f (r, s)) Q)"
  by (cases m) (auto simp: wlp_def split: option.splits prod.splits)

lemma wlp_conseq: "wlp m P \<Longrightarrow> (\<And>r s. P r s \<Longrightarrow> Q r s) \<Longrightarrow> wlp m Q"
  by (auto simp: wlp_def split: option.splits)

lemma wlpI: "(\<And>r s. m = Some (r, s) \<Longrightarrow> Q r s) \<Longrightarrow> wlp m Q"
  by (auto simp: wlp_def split: option.splits)

lemma wlpD: "wlp m Q \<Longrightarrow> m = Some (r, s) \<Longrightarrow> Q r s"
  by simp

lemma wp_wlp: "wp m P \<Longrightarrow> wlp m Q \<Longrightarrow> wp m (\<lambda>r s. P r s \<and> Q r s)"
  by (auto simp: wp_def wlp_def split: option.splits)

section \<open>Hash tables\<close>

text \<open>
  \<open>google::dense_hash_map\<close> as an association list: at most one entry per key, and the order of
  the list is the order in which an iterator visits the entries. \<open>AList.update\<close> overwrites an
  entry in place or adds it, \<open>AList.delete\<close> is \<open>erase\<close>. An erase during an iteration leaves the
  other entries where they are, as the tombstones of the C++ table do.
\<close>

type_synonym ('k, 'v) table = "('k \<times> 'v) list"

definition tbl_ok :: "('k, 'v) table \<Rightarrow> bool" where
  "tbl_ok t = distinct (map fst t)"

definition tbl_keys :: "('k, 'v) table \<Rightarrow> 'k list" where
  "tbl_keys t = map fst t"

lemma tbl_ok_Nil [simp, intro]: "tbl_ok []"
  by (simp add: tbl_ok_def)

lemma tbl_ok_update [simp, intro]: "tbl_ok t \<Longrightarrow> tbl_ok (AList.update k v t)"
  by (simp add: tbl_ok_def distinct_update)

lemma tbl_ok_delete [simp, intro]: "tbl_ok t \<Longrightarrow> tbl_ok (AList.delete k t)"
  by (simp add: tbl_ok_def distinct_delete)

lemma set_tbl_keys [simp]: "set (tbl_keys t) = dom (map_of t)"
  by (simp add: tbl_keys_def dom_map_of_conv_image_fst)

lemma distinct_tbl_keys: "tbl_ok t \<Longrightarrow> distinct (tbl_keys t)"
  by (simp add: tbl_ok_def tbl_keys_def)

lemma map_of_update [simp]: "map_of (AList.update k v t) = (map_of t)(k \<mapsto> v)"
  by (simp add: update_conv')

lemma map_of_delete [simp]: "map_of (AList.delete k t) = (map_of t)(k := None)"
  by (simp add: delete_conv')

text \<open>
  The interface a client of a hash table relies on: what a lookup finds after a store or an
  erase, and that an iteration visits exactly the entries a lookup finds, each once.
\<close>

locale hash_map =
  fixes look :: "'t \<Rightarrow> 'k \<Rightarrow> 'v option"
    and store :: "'k \<Rightarrow> 'v \<Rightarrow> 't \<Rightarrow> 't"
    and erase :: "'k \<Rightarrow> 't \<Rightarrow> 't"
    and entries :: "'t \<Rightarrow> ('k \<times> 'v) list"
    and wf :: "'t \<Rightarrow> bool"
  assumes look_store: "look (store k v t) = (look t)(k \<mapsto> v)"
    and look_erase: "look (erase k t) = (look t)(k := None)"
    and wf_store: "wf t \<Longrightarrow> wf (store k v t)"
    and wf_erase: "wf t \<Longrightarrow> wf (erase k t)"
    and distinct_entries: "wf t \<Longrightarrow> distinct (map fst (entries t))"
    and look_entries: "look t = map_of (entries t)"
begin

lemma in_entries: "wf t \<Longrightarrow> (k, v) \<in> set (entries t) \<longleftrightarrow> look t k = Some v"
  using distinct_entries [of t] by (simp add: look_entries)

lemma mset_entries: "wf t \<Longrightarrow> mset (entries t) = mset_set (set (entries t))"
  using distinct_entries [of t] by (simp add: distinct_map mset_set_set)

lemma entries_store:
  assumes "wf t"
  shows "set (entries (store k v t)) =
    insert (k, v) (set (entries t) - {(k, w) | w. look t k = Some w})"
  using assms by (auto simp: in_entries wf_store look_store split: if_splits)

lemma entries_erase:
  assumes "wf t"
  shows "set (entries (erase k t)) = set (entries t) - {(k, w) | w. look t k = Some w}"
  using assms by (auto simp: in_entries wf_erase look_erase split: if_splits)

text \<open>How the bag of entries changes: the basis of every count over a table.\<close>

lemma mset_store_new:
  assumes "wf t" and "look t k = None"
  shows "mset (entries (store k v t)) = add_mset (k, v) (mset (entries t))"
proof -
  have "set (entries (store k v t)) = insert (k, v) (set (entries t))"
    using assms by (auto simp: entries_store)
  moreover have "(k, v) \<notin> set (entries t)"
    using assms by (simp add: in_entries)
  ultimately show ?thesis
    using assms by (simp add: mset_entries wf_store)
qed

lemma mset_erase:
  assumes "wf t" and "look t k = Some v"
  shows "mset (entries t) = add_mset (k, v) (mset (entries (erase k t)))"
proof -
  have "set (entries t) = insert (k, v) (set (entries (erase k t)))"
    using assms by (auto simp: entries_erase in_entries)
  moreover have "(k, v) \<notin> set (entries (erase k t))"
    using assms by (auto simp: entries_erase)
  ultimately show ?thesis
    using assms by (simp add: mset_entries wf_erase)
qed

lemma mset_store_old:
  assumes "wf t" and "look t k = Some w"
  shows "mset (entries (store k v t)) = add_mset (k, v) (mset (entries (erase k t)))"
proof -
  have "set (entries (store k v t)) = insert (k, v) (set (entries (erase k t)))"
    using assms by (auto simp: entries_erase entries_store)
  moreover have "(k, v) \<notin> set (entries (erase k t))"
    using assms by (auto simp: entries_erase in_entries)
  ultimately show ?thesis
    using assms by (simp add: mset_entries wf_store wf_erase)
qed

text \<open>Counting the entries whose value satisfies a predicate.\<close>

lemma count_store_new:
  assumes "wf t" and "look t k = None"
  shows "length (filter (\<lambda>e. P (snd e)) (entries (store k v t))) =
    length (filter (\<lambda>e. P (snd e)) (entries t)) + (if P v then 1 else 0)"
proof -
  have "size (filter_mset (\<lambda>e. P (snd e)) (mset (entries (store k v t)))) =
      size (filter_mset (\<lambda>e. P (snd e)) (mset (entries t))) + (if P v then 1 else 0)"
    by (simp add: mset_store_new [OF assms])
  then show ?thesis by (simp flip: mset_filter)
qed

lemma count_erase:
  assumes "wf t" and "look t k = Some v"
  shows "length (filter (\<lambda>e. P (snd e)) (entries t)) =
    length (filter (\<lambda>e. P (snd e)) (entries (erase k t))) + (if P v then 1 else 0)"
proof -
  have "size (filter_mset (\<lambda>e. P (snd e)) (mset (entries t))) =
      size (filter_mset (\<lambda>e. P (snd e)) (mset (entries (erase k t)))) + (if P v then 1 else 0)"
    by (simp add: mset_erase [OF assms])
  then show ?thesis by (simp flip: mset_filter)
qed

lemma count_store_old:
  assumes "wf t" and "look t k = Some w"
  shows "length (filter (\<lambda>e. P (snd e)) (entries (store k v t))) + (if P w then 1 else 0) =
    length (filter (\<lambda>e. P (snd e)) (entries t)) + (if P v then 1 else 0)"
proof -
  have "size (filter_mset (\<lambda>e. P (snd e)) (mset (entries (store k v t)))) =
      size (filter_mset (\<lambda>e. P (snd e)) (mset (entries (erase k t)))) + (if P v then 1 else 0)"
    by (simp add: mset_store_old [OF assms])
  then have "length (filter (\<lambda>e. P (snd e)) (entries (store k v t))) =
      length (filter (\<lambda>e. P (snd e)) (entries (erase k t))) + (if P v then 1 else 0)"
    by (simp flip: mset_filter)
  with count_erase [OF assms, of P] show ?thesis by simp
qed

end

interpretation dense: hash_map map_of AList.update AList.delete "\<lambda>t. t" tbl_ok
  by unfold_locales (auto simp: tbl_ok_def distinct_update distinct_delete)

section \<open>Ordered multisets\<close>

text \<open>
  \<open>std::multiset\<close> with a comparison on a key, as the list of its elements in iteration order.
  \<open>insert\<close> goes behind the elements with an equal key; \<open>find\<close> is the position of the first
  element with an equal key (what the tree of libstdc++ returns), here the rest of the list from
  that position, empty for \<open>end()\<close>.
\<close>

fun ms_insert :: "('a \<Rightarrow> int) \<Rightarrow> 'a \<Rightarrow> 'a list \<Rightarrow> 'a list" where
  "ms_insert key x [] = [x]"
| "ms_insert key x (y # ys) = (if key y \<le> key x then y # ms_insert key x ys else x # y # ys)"

fun ms_find :: "('a \<Rightarrow> int) \<Rightarrow> 'a \<Rightarrow> 'a list \<Rightarrow> 'a list" where
  "ms_find key x [] = []"
| "ms_find key x (y # ys) =
     (if key y < key x then ms_find key x ys else if key x < key y then [] else y # ys)"

text \<open>
  The search the processors make before an erase: from the position \<open>find\<close> returns up to
  \<open>end()\<close>, the first element that satisfies \<open>eq\<close> is taken out. The first component of the result
  says whether there was one.
\<close>

fun ms_scan :: "('a \<Rightarrow> bool) \<Rightarrow> 'a list \<Rightarrow> bool \<times> 'a list" where
  "ms_scan eq [] = (False, [])"
| "ms_scan eq (y # ys) =
     (if eq y then (True, ys) else case ms_scan eq ys of (b, zs) \<Rightarrow> (b, y # zs))"

fun ms_remove :: "('a \<Rightarrow> int) \<Rightarrow> ('a \<Rightarrow> bool) \<Rightarrow> 'a \<Rightarrow> 'a list \<Rightarrow> bool \<times> 'a list" where
  "ms_remove key eq x [] = (False, [])"
| "ms_remove key eq x (y # ys) =
     (if key y < key x then (case ms_remove key eq x ys of (b, zs) \<Rightarrow> (b, y # zs))
      else if key x < key y then (False, y # ys)
      else ms_scan eq (y # ys))"

lemma set_ms_insert [simp]: "set (ms_insert key x xs) = insert x (set xs)"
  by (induction xs) auto

lemma mset_ms_insert [simp]: "mset (ms_insert key x xs) = add_mset x (mset xs)"
  by (induction xs) auto

lemma distinct_ms_insert [simp]: "distinct (ms_insert key x xs) \<longleftrightarrow> x \<notin> set xs \<and> distinct xs"
  by (induction xs) auto

lemma length_ms_insert [simp]: "length (ms_insert key x xs) = Suc (length xs)"
  by (induction xs) auto

lemma sorted_ms_insert: "sorted (map key xs) \<Longrightarrow> sorted (map key (ms_insert key x xs))"
  by (induction xs) force+

lemma ms_insert_cong: "(\<And>y. y \<in> insert x (set xs) \<Longrightarrow> f y = g y) \<Longrightarrow> ms_insert f x xs = ms_insert g x xs"
  by (induction xs) auto

lemma ms_insert_last: "\<forall>y \<in> set xs. key y \<le> key x \<Longrightarrow> ms_insert key x xs = xs @ [x]"
  by (induction xs) auto

lemma set_ms_find: "set (ms_find key x xs) \<subseteq> set xs"
  by (induction xs) auto

lemma ms_find_complete:
  assumes "sorted (map key xs)" and "y \<in> set xs" and "key y = key x"
  shows "y \<in> set (ms_find key x xs)"
  using assms by (induction xs) force+

lemma ms_scan_unique:
  assumes "\<And>y. y \<in> set xs \<Longrightarrow> eq y \<longleftrightarrow> y = x"
  shows "ms_scan eq xs = (x \<in> set xs, remove1 x xs)"
  using assms by (induction xs) auto

lemma ms_remove_unique:
  assumes "sorted (map key xs)" and "\<And>y. y \<in> set xs \<Longrightarrow> eq y \<longleftrightarrow> y = x"
  shows "ms_remove key eq x xs = (x \<in> set xs, remove1 x xs)"
  using assms
proof (induction xs)
  case (Cons y ys)
  have tail: "ms_scan eq (y # ys) = (x \<in> set (y # ys), remove1 x (y # ys))"
    by (rule ms_scan_unique) (use Cons.prems in auto)
  show ?case
  proof (cases "key y < key x")
    case True
    with Cons show ?thesis by auto
  next
    case False
    moreover have "x \<notin> set (y # ys)" if "key x < key y"
      using that Cons.prems(1) by auto
    ultimately show ?thesis using tail by (auto simp: remove1_idem)
  qed
qed simp

lemma sorted_remove1_map: "sorted (map key xs) \<Longrightarrow> sorted (map key (remove1 x xs))"
  by (induction xs) (auto dest: subsetD [OF set_remove1_subset])

section \<open>Machine integers\<close>

text \<open>Conversions between the fixed-width integers of the source, on mathematical integers.\<close>

definition int32 :: "int \<Rightarrow> int" where
  "int32 x = sint (word_of_int x :: 32 word)"

lemma int32_id: "- (2 ^ 31) \<le> x \<Longrightarrow> x < 2 ^ 31 \<Longrightarrow> int32 x = x"
  by (simp add: int32_def sint_sbintrunc' signed_take_bit_int_eq_self)

lemma int32_range: "- (2 ^ 31) \<le> int32 x" "int32 x < 2 ^ 31"
  using sint_range_size [of "word_of_int x :: 32 word"] by (simp_all add: int32_def word_size)

end
