(* ===== verification/Types.thy ===== *)
theory Types
  imports Prelude
begin

unbundle bit_operations_syntax

text \<open>
  The data of the collector: the flags and enumerations, the entities and records of the SysFlow
  format, the objects the caches hold (\<open>datatypes.h\<close>), the configuration, the view of the system
  that the inspection library gives, and the state of a running collector.
\<close>

section \<open>Flags and enumerations\<close>

datatype OpFlags =
    OP_CLONE | OP_EXEC | OP_EXIT | OP_SETUID | OP_SETNS | OP_ACCEPT | OP_CONNECT | OP_OPEN
  | OP_READ_RECV | OP_WRITE_SEND | OP_CLOSE | OP_TRUNCATE | OP_SHUTDOWN | OP_MMAP | OP_DIGEST
  | OP_MKDIR | OP_RMDIR | OP_LINK | OP_UNLINK | OP_SYMLINK | OP_RENAME

type_synonym flags = "32 word"

text \<open>The numeric value of an operation flag, one bit each.\<close>

fun op_val :: "OpFlags \<Rightarrow> flags" where
  "op_val OP_CLONE = push_bit 0 1"
| "op_val OP_EXEC = push_bit 1 1"
| "op_val OP_EXIT = push_bit 2 1"
| "op_val OP_SETUID = push_bit 3 1"
| "op_val OP_SETNS = push_bit 4 1"
| "op_val OP_ACCEPT = push_bit 5 1"
| "op_val OP_CONNECT = push_bit 6 1"
| "op_val OP_OPEN = push_bit 7 1"
| "op_val OP_READ_RECV = push_bit 8 1"
| "op_val OP_WRITE_SEND = push_bit 9 1"
| "op_val OP_CLOSE = push_bit 10 1"
| "op_val OP_TRUNCATE = push_bit 11 1"
| "op_val OP_SHUTDOWN = push_bit 12 1"
| "op_val OP_MMAP = push_bit 13 1"
| "op_val OP_DIGEST = push_bit 14 1"
| "op_val OP_MKDIR = push_bit 15 1"
| "op_val OP_RMDIR = push_bit 16 1"
| "op_val OP_LINK = push_bit 17 1"
| "op_val OP_UNLINK = push_bit 18 1"
| "op_val OP_SYMLINK = push_bit 19 1"
| "op_val OP_RENAME = push_bit 20 1"

definition IS_FILE_EVT :: "OpFlags \<Rightarrow> bool" where
  "IS_FILE_EVT f = (f = OP_MKDIR \<or> f = OP_RMDIR \<or> f = OP_LINK \<or>
     f = OP_UNLINK \<or> f = OP_SYMLINK \<or> f = OP_RENAME)"

datatype FileType = SF_FILE | SF_DIR | SF_IPv4 | SF_IPv6 | SF_UNIX | SF_PIPE | SF_UNK

fun file_type_char :: "FileType \<Rightarrow> char" where
  "file_type_char SF_FILE = CHR ''f''"
| "file_type_char SF_DIR = CHR ''d''"
| "file_type_char SF_IPv4 = CHR ''4''"
| "file_type_char SF_IPv6 = CHR ''6''"
| "file_type_char SF_UNIX = CHR ''u''"
| "file_type_char SF_PIPE = CHR ''p''"
| "file_type_char SF_UNK = CHR ''?''"

datatype SFObjectState = CREATED | MODIFIED | REUP

datatype SFSysCallMode = SFFlowMode | SFConsumerMode | SFNoFilesMode

datatype DriverType = EBPF | CORE_EBPF | KMOD | NO_DRIVER

section \<open>Entities and records of the SysFlow format\<close>

record OID =
  hpid :: int
  createTS :: int

type_synonym FOID = string

record SFHeader =
  h_version :: int
  h_exporter :: string
  h_ip :: string
  h_filename :: string

record Container =
  cont_id :: string
  cont_name :: string
  cont_image :: string
  cont_imageid :: string
  cont_type :: int
  cont_privileged :: bool
  cont_podId :: "string option"

record Pod =
  pod_id :: string
  pod_name :: string
  pod_nodeName :: string
  pod_hostIP :: "int list"
  pod_internalIP :: "int list"
  pod_namespace :: string
  pod_restartCount :: int

record Process =
  proc_state :: SFObjectState
  proc_oid :: OID
  proc_poid :: "OID option"
  proc_ts :: int
  proc_exe :: string
  proc_exeArgs :: string
  proc_uid :: int
  proc_userName :: string
  proc_gid :: int
  proc_groupName :: string
  proc_tty :: int
  proc_containerId :: "string option"
  proc_entry :: bool
  proc_cwd :: string
  proc_env :: "string list"

record SFFile =
  file_state :: SFObjectState
  file_oid :: FOID
  file_ts :: int
  file_restype :: char
  file_path :: string
  file_containerId :: "string option"

record ProcessEvent =
  pe_procOID :: OID
  pe_ts :: int
  pe_tid :: int
  pe_opFlags :: flags
  pe_args :: "string list"
  pe_ret :: int

record FileEvent =
  fe_procOID :: OID
  fe_ts :: int
  fe_tid :: int
  fe_opFlags :: flags
  fe_ret :: int
  fe_fileOID :: FOID
  fe_newFileOID :: "FOID option"

record NetworkFlow =
  nf_procOID :: OID
  nf_ts :: int
  nf_tid :: int
  nf_opFlags :: flags
  nf_endTs :: int
  nf_sip :: "32 word"
  nf_sport :: "32 word"
  nf_dip :: "32 word"
  nf_dport :: "32 word"
  nf_proto :: int
  nf_fd :: "32 word"
  nf_numRRecvOps :: int
  nf_numWSendOps :: int
  nf_numRRecvBytes :: int
  nf_numWSendBytes :: int

record FileFlow =
  ff_procOID :: OID
  ff_ts :: int
  ff_tid :: int
  ff_opFlags :: flags
  ff_openFlags :: flags
  ff_endTs :: int
  ff_fileOID :: FOID
  ff_fd :: "32 word"
  ff_numRRecvOps :: int
  ff_numWSendOps :: int
  ff_numRRecvBytes :: int
  ff_numWSendBytes :: int

record ProcessFlow =
  pf_procOID :: OID
  pf_ts :: int
  pf_opFlags :: flags
  pf_endTs :: int
  pf_numThreadsCloned :: int
  pf_numThreadsExited :: int
  pf_numCloneErrors :: int

datatype K8sAction =
    K8S_COMPONENT_ADDED | K8S_COMPONENT_MODIFIED | K8S_COMPONENT_DELETED
  | K8S_COMPONENT_ERROR | K8S_COMPONENT_NONEXISTENT | K8S_COMPONENT_UNKNOWN

datatype K8sComponent =
    K8S_NODES | K8S_NAMESPACES | K8S_PODS | K8S_REPLICATIONCONTROLLERS | K8S_SERVICES
  | K8S_EVENTS | K8S_REPLICASETS | K8S_DAEMONSETS | K8S_DEPLOYMENTS | K8S_UNKNOWN

record K8sEvent =
  ke_kind :: K8sComponent
  ke_action :: K8sAction
  ke_ts :: int
  ke_message :: string

text \<open>The union a SysFlow record carries (\<open>m_flow.rec\<close>).\<close>

datatype sfrec =
    R_SFHeader SFHeader
  | R_Container Container
  | R_Process Process
  | R_File SFFile
  | R_ProcessEvent ProcessEvent
  | R_NetworkFlow NetworkFlow
  | R_FileFlow FileFlow
  | R_FileEvent FileEvent
  | R_ProcessFlow ProcessFlow
  | R_Pod Pod
  | R_K8sEvent K8sEvent

section \<open>The objects of the caches\<close>

record NFKey =
  k_tid :: "64 word"
  k_ip1 :: "32 word"
  k_port1 :: "16 word"
  k_ip2 :: "32 word"
  k_port2 :: "16 word"
  k_fd :: "32 word"

record OIDObj =
  o_exportTime :: int
  o_oid :: OID

text \<open>
  The class \<open>DataFlowObj\<close> and the classes derived from it are a record and its extensions. A
  pointer to the base class is a pointer to one of the three: a flow on the heap is a
  \<open>DataFlow\<close>, and \<open>isNetworkFlow\<close> is which constructor it has.
\<close>

record DataFlowObj =
  exportTime :: int
  lastUpdate :: int

record NetFlowObj = DataFlowObj +
  netflow :: NetworkFlow

record FileFlowObj = DataFlowObj +
  fileflow :: FileFlow
  filekey :: string
  flowkey :: string

record ProcessFlowObj = DataFlowObj +
  procflow :: ProcessFlow

datatype DataFlow = Net NetFlowObj | Fil FileFlowObj

fun isNetworkFlow :: "DataFlow \<Rightarrow> bool" where
  "isNetworkFlow (Net _) = True"
| "isNetworkFlow (Fil _) = False"

fun df_exportTime :: "DataFlow \<Rightarrow> int" where
  "df_exportTime (Net n) = exportTime n"
| "df_exportTime (Fil f) = exportTime f"

fun df_lastUpdate :: "DataFlow \<Rightarrow> int" where
  "df_lastUpdate (Net n) = lastUpdate n"
| "df_lastUpdate (Fil f) = lastUpdate f"

fun df_set_exportTime :: "int \<Rightarrow> DataFlow \<Rightarrow> DataFlow" where
  "df_set_exportTime t (Net n) = Net (n\<lparr>exportTime := t\<rparr>)"
| "df_set_exportTime t (Fil f) = Fil (f\<lparr>exportTime := t\<rparr>)"

definition netflow_eq :: "NetFlowObj \<Rightarrow> NetFlowObj \<Rightarrow> bool" where
  "netflow_eq a b =
     (if exportTime a \<noteq> exportTime b then False
      else createTS (nf_procOID (netflow a)) = createTS (nf_procOID (netflow b)) \<and>
           hpid (nf_procOID (netflow a)) = hpid (nf_procOID (netflow b)) \<and>
           nf_sip (netflow a) = nf_sip (netflow b) \<and>
           nf_dip (netflow a) = nf_dip (netflow b) \<and>
           nf_sport (netflow a) = nf_sport (netflow b) \<and>
           nf_dport (netflow a) = nf_dport (netflow b) \<and>
           nf_proto (netflow a) = nf_proto (netflow b) \<and>
           nf_opFlags (netflow a) = nf_opFlags (netflow b) \<and>
           nf_ts (netflow a) = nf_ts (netflow b) \<and>
           nf_tid (netflow a) = nf_tid (netflow b) \<and>
           nf_fd (netflow a) = nf_fd (netflow b))"

definition fileflow_eq :: "FileFlowObj \<Rightarrow> FileFlowObj \<Rightarrow> bool" where
  "fileflow_eq a b =
     (if exportTime a \<noteq> exportTime b then False
      else createTS (ff_procOID (fileflow a)) = createTS (ff_procOID (fileflow b)) \<and>
           hpid (ff_procOID (fileflow a)) = hpid (ff_procOID (fileflow b)) \<and>
           ff_ts (fileflow a) = ff_ts (fileflow b) \<and>
           ff_tid (fileflow a) = ff_tid (fileflow b) \<and>
           ff_fd (fileflow a) = ff_fd (fileflow b) \<and>
           ff_opFlags (fileflow a) = ff_opFlags (fileflow b) \<and>
           ff_openFlags (fileflow a) = ff_openFlags (fileflow b) \<and>
           flowkey a = flowkey b)"

text \<open>A pointer to a flow; the flow tables of a process hold pointers, as in the source.\<close>

type_synonym ref = nat

record FileObj =
  f_written :: bool
  f_refs :: "32 word"
  f_key :: string
  f_file :: SFFile

record ContainerObj =
  c_written :: bool
  c_incomplete :: bool
  c_refs :: "32 word"
  c_cont :: Container

record ProcessObj =
  p_written :: bool
  p_proc :: Process
  netflows :: "(NFKey, ref) table"
  fileflows :: "(string, ref) table"
  children :: "OID list"
  pfo :: "ProcessFlowObj option"

definition ProcessObj_new :: "Process \<Rightarrow> ProcessObj" where
  "ProcessObj_new p =
     \<lparr>p_written = False, p_proc = p, netflows = [], fileflows = [], children = [], pfo = None\<rparr>"

definition process_eq :: "ProcessObj \<Rightarrow> ProcessObj \<Rightarrow> bool" where
  "process_eq a b =
     (if (case (pfo a, pfo b) of (Some x, Some y) \<Rightarrow> exportTime x \<noteq> exportTime y | _ \<Rightarrow> False)
      then False
      else createTS (proc_oid (p_proc a)) = createTS (proc_oid (p_proc b)) \<and>
           hpid (proc_oid (p_proc a)) = hpid (proc_oid (p_proc b)))"

record PodObj =
  pod_written :: bool
  pod_pod :: Pod
  pod_refs :: "32 word"

section \<open>Configuration\<close>

record SysFlowConfig =
  filterContainers :: bool
  rotateInterval :: int
  exporterID :: string
  nodeIP :: string
  filePath :: string
  socketPath :: string
  scapInputPath :: string
  falcoFilter :: string
  samplingRatio :: int
  criPath :: string
  criTO :: int
  enableStats :: bool
  enableProcessFlow :: bool
  fileOnly :: bool
  fileReadMode :: int
  dropMode :: bool
  callback :: bool
  debugMode :: bool
  k8sAPIURL :: string
  k8sAPICert :: string
  moduleChecks :: bool
  singleBufferDimension :: int
  appName :: string
  collectionMode :: SFSysCallMode
  cpuBuffers :: int
  driverType :: DriverType

record SysFlowContext =
  m_nfExportInterval :: int
  m_nfExpireInterval :: int
  m_offline :: bool
  m_statsInterval :: int
  m_nodeIP :: string
  m_k8sEnabled :: bool
  m_config :: SysFlowConfig
  m_hasPrefix :: bool
  m_ebpfProbe :: string

definition isConsumerMode :: "SysFlowContext \<Rightarrow> bool" where
  "isConsumerMode c = (collectionMode (m_config c) = SFConsumerMode)"

definition isNoFilesMode :: "SysFlowContext \<Rightarrow> bool" where
  "isNoFilesMode c = (collectionMode (m_config c) = SFNoFilesMode)"

definition isDomainSocket :: "SysFlowContext \<Rightarrow> bool" where
  "isDomainSocket c = (socketPath (m_config c) \<noteq> [])"

definition isOutputFile :: "SysFlowContext \<Rightarrow> bool" where
  "isOutputFile c = (filePath (m_config c) \<noteq> [])"

text \<open>The bit an operation stands for.\<close>

fun op_bit :: "OpFlags \<Rightarrow> nat" where
  "op_bit OP_CLONE = 0" | "op_bit OP_EXEC = 1" | "op_bit OP_EXIT = 2" | "op_bit OP_SETUID = 3" | "op_bit OP_SETNS = 4"
| "op_bit OP_ACCEPT = 5" | "op_bit OP_CONNECT = 6" | "op_bit OP_OPEN = 7" | "op_bit OP_READ_RECV = 8"
| "op_bit OP_WRITE_SEND = 9" | "op_bit OP_CLOSE = 10" | "op_bit OP_TRUNCATE = 11" | "op_bit OP_SHUTDOWN = 12"
| "op_bit OP_MMAP = 13" | "op_bit OP_DIGEST = 14" | "op_bit OP_MKDIR = 15" | "op_bit OP_RMDIR = 16"
| "op_bit OP_LINK = 17" | "op_bit OP_UNLINK = 18" | "op_bit OP_SYMLINK = 19" | "op_bit OP_RENAME = 20"

lemma op_val_bit: "op_val f = push_bit (op_bit f) 1"
  by (cases f) simp_all

lemma op_bit_less: "op_bit f < 32"
  by (cases f) simp_all

lemma op_bit_inj: "op_bit f = op_bit g \<longleftrightarrow> f = g"
  by (cases f; cases g) simp_all

lemma bit_op_val: "bit (op_val f) n \<longleftrightarrow> n = op_bit f"
  using op_bit_less [of f] by (auto simp: op_val_bit bit_simps)

lemma and_op_val: "and w (op_val f) \<noteq> 0 \<longleftrightarrow> bit w (op_bit f)"
proof
  assume "and w (op_val f) \<noteq> 0"
  then obtain n where "bit (and w (op_val f)) n" by (metis bit_eqI bit_0_eq bot_apply bot_bool_def)
  then show "bit w (op_bit f)" by (auto simp: bit_and_iff bit_op_val)
next
  assume "bit w (op_bit f)"
  then have "bit (and w (op_val f)) (op_bit f)" by (simp add: bit_and_iff bit_op_val)
  then show "and w (op_val f) \<noteq> 0" by (metis bit_0_eq bot_apply bot_bool_def)
qed

text \<open>Whether a bitmap of operations holds one.\<close>

definition has_op :: "flags \<Rightarrow> OpFlags \<Rightarrow> bool" where
  "has_op w f = (and w (op_val f) \<noteq> 0)"

lemma has_op_or [simp]: "has_op (or w (op_val g)) f \<longleftrightarrow> has_op w f \<or> f = g"
  by (auto simp: has_op_def and_op_val bit_or_iff bit_op_val op_bit_inj)

lemma has_op_val [simp]: "has_op (op_val g) f \<longleftrightarrow> f = g"
  by (auto simp: has_op_def and_op_val bit_op_val op_bit_inj)

lemma has_op_0 [simp]: "\<not> has_op 0 f"
  by (simp add: has_op_def)

end
