(* ===== verification/Inspector.thy ===== *)
theory Inspector
  imports Types
begin

text \<open>
  What the collector sees of the inspection library (libsinsp, outside the repository), of
  OpenSSL, of the file system and of the clocks. Its data are records with the members the
  collector reads; its functions are the fields of the record \<open>inspector\<close>, which every operation
  takes as an argument, so nothing is assumed of them but what a theorem names. The functions of
  an \<open>inspector\<close> are the library's answers while one event is handled.
\<close>

section \<open>Events\<close>

text \<open>An event type is the name of its enumerator, as \<open>syscall_defs.h\<close> spells it.\<close>

type_synonym ppm_event_code = string

definition IS_AT_SC :: "ppm_event_code \<Rightarrow> bool" where
  "IS_AT_SC t = (t = ''PPME_SYSCALL_SYMLINKAT_X'' \<or> t = ''PPME_SYSCALL_RENAMEAT_X'' \<or>
     t = ''PPME_SYSCALL_RENAMEAT2_X'' \<or> t = ''PPME_SYSCALL_UNLINKAT_X'' \<or>
     t = ''PPME_SYSCALL_UNLINKAT_2_X'' \<or> t = ''PPME_SYSCALL_LINKAT_X'' \<or>
     t = ''PPME_SYSCALL_LINKAT_2_X'' \<or> t = ''PPME_SYSCALL_MKDIRAT_X'')"

definition IS_UNLINKAT :: "ppm_event_code \<Rightarrow> bool" where
  "IS_UNLINKAT t = (t = ''PPME_SYSCALL_UNLINKAT_X'' \<or> t = ''PPME_SYSCALL_UNLINKAT_2_X'')"

datatype ppm_param_type =
    PT_PID | PT_ERRNO | PT_FD | PT_INT64 | PT_INT32 | PT_FLAGS8 | PT_FLAGS16 | PT_FLAGS32
  | PT_FSPATH | PT_CHARBUF | PT_FSRELPATH | PT_other

text \<open>
  A parameter of an event: its name and type, the eight bytes at \<open>m_val\<close> read as an \<open>int64_t\<close>,
  and the \<open>m_len\<close> bytes at \<open>m_val\<close> as a string.
\<close>

record evt_param =
  par_name :: string
  par_type :: ppm_param_type
  par_int :: int
  par_str :: string

datatype scap_l4_proto = SCAP_L4_TCP | SCAP_L4_UDP | SCAP_L4_ICMP | SCAP_L4_RAW | SCAP_L4_other

record sinsp_fdinfo =
  fd_name :: string
  fd_typechar :: char
  fd_is_ipv4 :: bool
  fd_is_ipv6 :: bool
  fd_is_file :: bool
  fd_openflags :: flags
  fd_sip :: "32 word"
  fd_dip :: "32 word"
  fd_sport :: "16 word"
  fd_dport :: "16 word"
  fd_l4proto :: scap_l4_proto

record sinsp_threadinfo =
  ti_tid :: int
  ti_pid :: int
  ti_ptid :: int
  ti_vpid :: int
  ti_clone_ts :: int
  ti_is_main :: bool
  ti_exe :: string
  ti_exepath :: string
  ti_args :: "string list"
  ti_container_id :: string
  ti_cwd :: string
  ti_env :: "string list"
  ti_tty :: int
  ti_uid :: int
  ti_gid :: int
  ti_user :: string
  ti_group :: string

record sinsp_evt =
  ev_type :: ppm_event_code
  ev_ts :: int
  ev_tinfo :: "sinsp_threadinfo option"
  ev_fdinfo :: "sinsp_fdinfo option"
  ev_fdnum :: int
  ev_params :: "evt_param list"

record sinsp_container_info =
  ci_name :: string
  ci_image :: string
  ci_imagetag :: string
  ci_id :: string
  ci_imageid :: string
  ci_type :: int
  ci_privileged :: bool

section \<open>JSON values\<close>

text \<open>
  The values of the JSON library (\<open>Json::Value\<close>) with the accesses the collector makes. An access
  to a value of the wrong kind throws: \<open>None\<close>.
\<close>

datatype json =
    JNull | JBool bool | JInt int | JReal string | JStr string
  | JArr "json list" | JObj "(string \<times> json) list"

fun json_member :: "json \<Rightarrow> string \<Rightarrow> json option" where
  "json_member JNull k = Some JNull"
| "json_member (JObj kvs) k = Some (case map_of kvs k of None \<Rightarrow> JNull | Some v \<Rightarrow> v)"
| "json_member _ k = None"

fun json_items :: "json \<Rightarrow> json list" where
  "json_items (JArr xs) = xs"
| "json_items (JObj kvs) = map snd kvs"
| "json_items _ = []"

section \<open>The functions of the library\<close>

text \<open>
  \<open>clock n\<close> and \<open>clock_ns n\<close> are what the \<open>n\<close>-th reading of \<open>time\<close> and of
  \<open>sinsp_utils::get_current_time_ns\<close> returns; \<open>send_ok n\<close> and \<open>connect_ok n\<close> whether the \<open>n\<close>-th
  system call \<open>send\<close> or \<open>connect\<close> succeeds; \<open>machine_hostname\<close> and \<open>hostname\<close> what
  \<open>get_machine_info\<close> and \<open>gethostname\<close> give, if anything; \<open>weakly_canonical p\<close> is \<open>None\<close> where the file system
  library throws; \<open>parse_json\<close> is \<open>None\<close> for text that is not JSON;
  the fields in capitals are constants of the library's headers.
\<close>

record inspector =
  get_container :: "string \<Rightarrow> sinsp_container_info option"
  get_main_thread :: "sinsp_threadinfo \<Rightarrow> sinsp_threadinfo option"
  get_parent_thread :: "sinsp_threadinfo \<Rightarrow> sinsp_threadinfo option"
  get_fd :: "sinsp_threadinfo \<Rightarrow> int \<Rightarrow> sinsp_fdinfo option"
  param_value_str :: "sinsp_evt \<Rightarrow> string \<Rightarrow> string"
  machine_hostname :: "string option"
  hostname :: "string option"
  parse_json :: "string \<Rightarrow> json option"
  json_asString :: "json \<Rightarrow> string option"
  SHA1 :: "string \<Rightarrow> FOID"
  sanitize_string :: "string \<Rightarrow> string"
  weakly_canonical :: "string \<Rightarrow> string option"
  clock :: "nat \<Rightarrow> int"
  clock_ns :: "nat \<Rightarrow> int"
  send_ok :: "nat \<Rightarrow> bool"
  connect_ok :: "nat \<Rightarrow> bool"
  PPM_O_RDONLY :: flags
  PPM_MAP_ANONYMOUS :: "64 word"
  PPM_CL_CLONE_THREAD :: "64 word"
  PPM_AT_FDCWD :: int
  INVALID_FD_NUM :: int

definition main_thread_or_self :: "inspector \<Rightarrow> sinsp_threadinfo \<Rightarrow> sinsp_threadinfo" where
  "main_thread_or_self I ti = (case get_main_thread I ti of None \<Rightarrow> ti | Some mt \<Rightarrow> mt)"

definition thread_oid :: "sinsp_threadinfo \<Rightarrow> OID" where
  "thread_oid ti = \<lparr>hpid = ti_pid ti, createTS = ti_clone_ts ti\<rparr>"

end
