(* ===== verification/State.thy ===== *)
theory State
  imports Inspector
begin

text \<open>
  The state of a running collector: the writer, the caches of the contexts, the pending flows and
  the heap they live on. A component's members are the fields of one record, since the components
  share them through pointers. The clock functions of \<open>utils.h\<close> and the primitive operations on
  the heap are here too.
\<close>

section \<open>Writers\<close>

text \<open>
  The two overloads of the virtual function \<open>write\<close>: one record alone, or one record with the
  process and the files it is about.
\<close>

datatype wcall =
    Write1 (wrec: sfrec)
  | Write4 (wrec: sfrec) (wproc: "Process option") (wfile1: "SFFile option") (wfile2: "SFFile option")

text \<open>The class \<open>SysFlowWriter\<close> and its derived classes, as a record and its extensions.\<close>

record SysFlowWriter =
  m_numRecs :: int
  m_start :: int
  m_version :: int
  m_hdrFile :: string

record SFFileWriter = SysFlowWriter +
  fw_name :: string
  fw_recs :: "sfrec list"
  fw_closed :: "(string \<times> sfrec list) list"

record SFSocketWriter = SysFlowWriter +
  m_errTimer :: int
  m_reconnectInterval :: int
  m_reset :: bool
  sk_sent :: "sfrec list"
  sk_sends :: nat
  sk_conns :: nat
  sk_killed :: bool

record SFCallbackWriter = SysFlowWriter +
  cb_header :: SFHeader
  cb_calls :: "(SFHeader \<times> Container option \<times> Process option \<times> SFFile option \<times> SFFile option \<times> sfrec) list"

datatype writer =
    FileW SFFileWriter
  | SockW SFSocketWriter
  | MultiW SysFlowWriter SFSocketWriter SFFileWriter
  | CallbackW SFCallbackWriter

section \<open>The state\<close>

text \<open>
  \<open>trace\<close> is a history variable: the calls of the writer's \<open>write\<close> since the current output was
  begun. \<open>reads\<close> counts the readings of the clocks, \<open>heap\<close> holds the flows that have been
  allocated and not deleted, \<open>nextref\<close> is the address the next allocation returns.
  \<open>ccxt_live\<close> says that the container context has not been deleted yet.
\<close>

record sf =
  m_cxt :: SysFlowContext
  timeStamp :: int
  reads :: nat
  m_writer :: writer
  trace :: "wcall list"
  m_pods :: "(string, PodObj) table"
  m_containers :: "(string, ContainerObj) table"
  m_files :: "(string, FileObj) table"
  m_procs :: "(OID, ProcessObj) table"
  m_delProcQue :: "OIDObj list"
  m_delProcTime :: int
  m_pfSet :: "OID list"
  heap :: "ref \<Rightarrow> DataFlow option"
  nextref :: ref
  m_dfSet :: "ref list"
  df_lastCheck :: int
  cf_lastCheck :: int
  m_uid :: string
  m_k8sEvt :: K8sEvent
  m_statsTime :: int
  m_exit :: bool
  ccxt_live :: bool

abbreviation find_proc :: "sf \<Rightarrow> OID \<Rightarrow> ProcessObj option" where
  "find_proc s \<equiv> map_of (m_procs s)"

abbreviation find_file :: "sf \<Rightarrow> string \<Rightarrow> FileObj option" where
  "find_file s \<equiv> map_of (m_files s)"

abbreviation find_cont :: "sf \<Rightarrow> string \<Rightarrow> ContainerObj option" where
  "find_cont s \<equiv> map_of (m_containers s)"

abbreviation find_pod :: "sf \<Rightarrow> string \<Rightarrow> PodObj option" where
  "find_pod s \<equiv> map_of (m_pods s)"

abbreviation config :: "sf \<Rightarrow> SysFlowConfig" where
  "config s \<equiv> m_config (m_cxt s)"

section \<open>Clocks\<close>

text \<open>
  An offline run takes its time from the events; a live run reads a clock, and every reading may
  give another value.
\<close>

definition getCurrentTime :: "inspector \<Rightarrow> sf \<Rightarrow> int \<times> sf" where
  "getCurrentTime I s =
     (if m_offline (m_cxt s) then (timeStamp s div 1000000000, s)
      else (clock I (reads s), s\<lparr>reads := Suc (reads s)\<rparr>))"

definition getSinspTime :: "inspector \<Rightarrow> sf \<Rightarrow> int \<times> sf" where
  "getSinspTime I s =
     (if m_offline (m_cxt s) then (timeStamp s, s)
      else (clock_ns I (reads s), s\<lparr>reads := Suc (reads s)\<rparr>))"

text \<open>\<open>difftime\<close> of two times, in seconds.\<close>

definition difftime :: "int \<Rightarrow> int \<Rightarrow> int" where
  "difftime t1 t0 = t1 - t0"

section \<open>The heap\<close>

text \<open>\<open>new\<close>, \<open>delete\<close>, and a read or write through a pointer.\<close>

definition alloc :: "DataFlow \<Rightarrow> sf \<Rightarrow> ref \<times> sf" where
  "alloc d s = (nextref s, s\<lparr>heap := (heap s)(nextref s \<mapsto> d), nextref := Suc (nextref s)\<rparr>)"

definition free :: "ref \<Rightarrow> sf \<Rightarrow> (unit \<times> sf) option" where
  "free r s = (case heap s r of None \<Rightarrow> None | Some _ \<Rightarrow> Some ((), s\<lparr>heap := (heap s)(r := None)\<rparr>))"

definition deref :: "ref \<Rightarrow> sf \<Rightarrow> (DataFlow \<times> sf) option" where
  "deref r s = (case heap s r of None \<Rightarrow> None | Some d \<Rightarrow> Some (d, s))"

definition deref_net :: "ref \<Rightarrow> sf \<Rightarrow> (NetFlowObj \<times> sf) option" where
  "deref_net r s = (case heap s r of Some (Net n) \<Rightarrow> Some (n, s) | _ \<Rightarrow> None)"

definition deref_file :: "ref \<Rightarrow> sf \<Rightarrow> (FileFlowObj \<times> sf) option" where
  "deref_file r s = (case heap s r of Some (Fil f) \<Rightarrow> Some (f, s) | _ \<Rightarrow> None)"

definition put_flow :: "ref \<Rightarrow> DataFlow \<Rightarrow> sf \<Rightarrow> sf" where
  "put_flow r d s = s\<lparr>heap := (heap s)(r \<mapsto> d)\<rparr>"

text \<open>
  The operations of the ordered set of pending flows. A comparison follows the pointers of the
  set's elements; with a deleted flow among them the operation has no defined result.
\<close>

definition df_key :: "sf \<Rightarrow> ref \<Rightarrow> int" where
  "df_key s r = (case heap s r of None \<Rightarrow> 0 | Some d \<Rightarrow> df_exportTime d)"

definition df_live :: "sf \<Rightarrow> ref list \<Rightarrow> bool" where
  "df_live s rs = list_all (\<lambda>r. heap s r \<noteq> None) rs"

definition dfset_insert :: "ref \<Rightarrow> sf \<Rightarrow> (unit \<times> sf) option" where
  "dfset_insert r s =
     (if df_live s (r # m_dfSet s) then Some ((), s\<lparr>m_dfSet := ms_insert (df_key s) r (m_dfSet s)\<rparr>)
      else None)"

definition dfset_find :: "ref \<Rightarrow> sf \<Rightarrow> (ref list \<times> sf) option" where
  "dfset_find r s =
     (if df_live s (r # m_dfSet s) then Some (ms_find (df_key s) r (m_dfSet s), s) else None)"

lemma getCurrentTime_frame [frame]:
  "snd (getCurrentTime I s) = s\<lparr>reads := reads (snd (getCurrentTime I s))\<rparr>"
  by (simp add: getCurrentTime_def)

lemma getSinspTime_frame [frame]:
  "snd (getSinspTime I s) = s\<lparr>reads := reads (snd (getSinspTime I s))\<rparr>"
  by (simp add: getSinspTime_def)

end
