(* ===== verification/Utils.thy ===== *)
theory Utils
  imports State
begin

text \<open>
  The helper functions of \<open>utils.h\<close> and \<open>utils.cpp\<close>: the reserved keys of the hash tables, access to
  the parameters of an event, integer to text conversion, and the resolution of path names.
\<close>

section \<open>Reserved keys\<close>

text \<open>
  The keys \<open>initKeys\<close> reserves for empty and deleted buckets. The members it does not assign are
  those of static objects, hence zero.
\<close>

definition s_nfdelkey :: NFKey where
  "s_nfdelkey = \<lparr>k_tid = 0, k_ip1 = 1, k_port1 = 1, k_ip2 = 1, k_port2 = 1, k_fd = 0\<rparr>"

definition s_nfemptykey :: NFKey where
  "s_nfemptykey = \<lparr>k_tid = 0, k_ip1 = 1, k_port1 = 1, k_ip2 = 0, k_port2 = 1, k_fd = 0\<rparr>"

definition s_oiddelkey :: OID where
  "s_oiddelkey = \<lparr>hpid = 1, createTS = 1\<rparr>"

definition s_oidemptykey :: OID where
  "s_oidemptykey = \<lparr>hpid = 2, createTS = 2\<rparr>"

section \<open>Users and groups\<close>

text \<open>The name of a user or group, empty when the library's manager does not know the identifier.\<close>

definition getUserName :: "(string \<Rightarrow> 32 word \<Rightarrow> string option) \<Rightarrow> string \<Rightarrow> 32 word \<Rightarrow> string" where
  "getUserName get_user containerid uid = (case get_user containerid uid of Some name \<Rightarrow> name | None \<Rightarrow> '''')"

definition getGroupName :: "(string \<Rightarrow> 32 word \<Rightarrow> string option) \<Rightarrow> string \<Rightarrow> 32 word \<Rightarrow> string" where
  "getGroupName get_group containerid gid = (case get_group containerid gid of Some name \<Rightarrow> name | None \<Rightarrow> '''')"

section \<open>Parameters of an event\<close>

definition getSyscallResult :: "sinsp_evt \<Rightarrow> int" where
  "getSyscallResult ev =
     (case ev_params ev of
        [] \<Rightarrow> -1
      | p # _ \<Rightarrow> (if par_type p \<in> {PT_PID, PT_ERRNO, PT_FD, PT_INT64, PT_INT32} then par_int p else -1))"

text \<open>
  \<open>getIntParam\<close> scans the parameters from the last to the first. Its index is unsigned, so the
  test \<open>i >= 0\<close> never fails: a scan that passes the first parameter goes on at \<open>2\<^sup>3\<^sup>2 - 1\<close>, outside
  the parameters, and has no defined result.
\<close>

fun getIntParam_loop :: "evt_param list \<Rightarrow> string \<Rightarrow> nat \<Rightarrow> int option" where
  "getIntParam_loop ps pname i =
     (if par_name (ps ! i) = pname then
        Some (if par_type (ps ! i) \<in> {PT_PID, PT_ERRNO, PT_FD, PT_INT64, PT_INT32, PT_FLAGS8, PT_FLAGS16, PT_FLAGS32}
              then par_int (ps ! i) else 0)
      else (case i of 0 \<Rightarrow> None | Suc j \<Rightarrow> getIntParam_loop ps pname j))"

declare getIntParam_loop.simps [simp del]

definition getIntParam :: "sinsp_evt \<Rightarrow> string \<Rightarrow> int option" where
  "getIntParam ev pname =
     (let n = length (ev_params ev) in
      if n = 0 then Some (-1) else getIntParam_loop (ev_params ev) pname (n - 1))"

definition getFlags :: "sinsp_evt \<Rightarrow> int option" where
  "getFlags ev = getIntParam ev ''flags''"

definition getFD :: "sinsp_evt \<Rightarrow> int option" where
  "getFD ev = getIntParam ev ''fd''"

definition isMapAnonymous :: "inspector \<Rightarrow> sinsp_evt \<Rightarrow> bool option" where
  "isMapAnonymous I ev =
     map_option (\<lambda>f. and (word_of_int f) (PPM_MAP_ANONYMOUS I) \<noteq> (0 :: 64 word)) (getFlags ev)"

definition isCloneThreadSet :: "inspector \<Rightarrow> sinsp_evt \<Rightarrow> bool option" where
  "isCloneThreadSet I ev =
     map_option (\<lambda>f. and (word_of_int f) (PPM_CL_CLONE_THREAD I) \<noteq> (0 :: 64 word)) (getFlags ev)"

text \<open>The first parameter of the given name, in the order of the event.\<close>

fun first_param :: "string \<Rightarrow> evt_param list \<Rightarrow> evt_param option" where
  "first_param name [] = None"
| "first_param name (p # ps) = (if par_name p = name then Some p else first_param name ps)"

definition getPath :: "inspector \<Rightarrow> sinsp_evt \<Rightarrow> string \<Rightarrow> string" where
  "getPath I ev paraName =
     (case first_param paraName (ev_params ev) of
        None \<Rightarrow> ''''
      | Some p \<Rightarrow> (if par_type p = PT_FSPATH \<or> par_type p = PT_CHARBUF \<or> par_type p = PT_FSRELPATH
                  then sanitize_string I (par_str p) else ''''))"

definition getFD_named :: "sinsp_evt \<Rightarrow> string \<Rightarrow> int" where
  "getFD_named ev paraName =
     (case first_param paraName (ev_params ev) of
        None \<Rightarrow> -1
      | Some p \<Rightarrow> (if par_type p = PT_FD then par_int p else -1))"

text \<open>\<open>isInContainer\<close> reads through the thread pointer of the event.\<close>

definition isInContainer :: "sinsp_evt \<Rightarrow> bool option" where
  "isInContainer ev = map_option (\<lambda>ti. ti_container_id ti \<noteq> '''') (ev_tinfo ev)"

definition generateFOID :: "inspector \<Rightarrow> string \<Rightarrow> FOID" where
  "generateFOID I key = SHA1 I key"

section \<open>Paths\<close>

text \<open>\<open>is_relative\<close> and \<open>operator/=\<close> of a POSIX path.\<close>

fun is_relative :: "string \<Rightarrow> bool" where
  "is_relative [] = True"
| "is_relative (c # cs) = (c \<noteq> CHR ''/'')"

definition path_append :: "string \<Rightarrow> string \<Rightarrow> string" where
  "path_append a b =
     (if \<not> is_relative b then b
      else if a = [] \<or> last a = CHR ''/'' then a @ b else a @ ''/'' @ b)"

definition getCanonicalPath :: "inspector \<Rightarrow> string \<Rightarrow> string" where
  "getCanonicalPath I p = (case weakly_canonical I p of None \<Rightarrow> p | Some q \<Rightarrow> q)"

definition getAbsolutePath_at :: "inspector \<Rightarrow> sinsp_threadinfo \<Rightarrow> int \<Rightarrow> string \<Rightarrow> string" where
  "getAbsolutePath_at I ti dirfd fileName =
     (if fileName = [] \<or> is_relative fileName then
        (if dirfd = PPM_AT_FDCWD I then
           (if ti_cwd ti = [] then fileName
            else getCanonicalPath I (path_append (ti_cwd ti) fileName))
         else (case get_fd I ti dirfd of
                 None \<Rightarrow> fileName
               | Some fdinfo \<Rightarrow> getCanonicalPath I (path_append (fd_name fdinfo) fileName)))
      else getCanonicalPath I fileName)"

definition getAbsolutePath :: "inspector \<Rightarrow> sinsp_threadinfo \<Rightarrow> string \<Rightarrow> string" where
  "getAbsolutePath I ti fileName =
     (if fileName = [] \<or> is_relative fileName then
        (if ti_cwd ti \<noteq> [] then getCanonicalPath I (path_append (ti_cwd ti) fileName) else fileName)
      else getCanonicalPath I fileName)"

section \<open>Addresses\<close>

text \<open>
  \<open>strToIP\<close>. \<open>inet_pton fam str\<close> stands for the library function: the 32-bit words it stores, or
  \<open>None\<close> when it returns 0. Both calls of the source pass \<open>AF_INET\<close>; the second one reads four words
  of the result.
\<close>

definition ip_half :: "32 word \<Rightarrow> 32 word \<Rightarrow> int" where
  "ip_half hi lo = sint (or (push_bit 32 (ucast hi)) (ucast lo) :: 64 word)"

definition strToIP :: "(string \<Rightarrow> 32 word list option) \<Rightarrow> string \<Rightarrow> int list" where
  "strToIP inet_pton str =
     (case inet_pton str of
        Some ws \<Rightarrow> [uint (ws ! 0)]
      | None \<Rightarrow> (case inet_pton str of
                  Some ws \<Rightarrow> [ip_half (ws ! 1) (ws ! 0), ip_half (ws ! 3) (ws ! 2)]
                | None \<Rightarrow> []))"

section \<open>Numbers as text\<close>

definition CHAR_MAP_STR :: string where
  "CHAR_MAP_STR = ''0123456789abcdef''"

text \<open>
  \<open>itoa\<close> fills its buffer from index 30 downwards; the result is the text from the last index
  written. Negating the least \<open>int\<close> overflows: no defined result.
\<close>

fun itoa_loop :: "nat \<Rightarrow> nat \<Rightarrow> nat \<Rightarrow> string \<Rightarrow> string" where
  "itoa_loop base 0 val buf = buf"
| "itoa_loop base (Suc i) val buf =
     (if val = 0 then buf
      else itoa_loop base i (val div base) ((CHAR_MAP_STR ! (val mod base)) # buf))"

definition itoa :: "int \<Rightarrow> nat \<Rightarrow> string option" where
  "itoa val base =
     (if val = - (2 ^ 31) then None
      else if val < 0 then Some (CHR ''-'' # itoa_loop base 30 (nat (- val)) [])
      else Some (itoa_loop base 30 (nat val) []))"

text \<open>\<open>std::to_string\<close> of an integer.\<close>

fun nat_digits :: "nat \<Rightarrow> string" where
  "nat_digits n = (if n < 10 then [CHAR_MAP_STR ! n] else nat_digits (n div 10) @ [CHAR_MAP_STR ! (n mod 10)])"

declare nat_digits.simps [simp del]

definition to_string :: "int \<Rightarrow> string" where
  "to_string x = (if x < 0 then CHR ''-'' # nat_digits (nat (- x)) else nat_digits (nat x))"

text \<open>The digits of a decimal number and the number they stand for.\<close>

definition is_digit :: "char \<Rightarrow> bool" where
  "is_digit c = (48 \<le> (of_char c :: nat) \<and> (of_char c :: nat) \<le> 57)"

definition digit_val :: "char \<Rightarrow> nat" where
  "digit_val c = of_char c - 48"

definition digits_val :: "string \<Rightarrow> nat" where
  "digits_val ds = foldl (\<lambda>v c. 10 * v + digit_val c) 0 ds"

section \<open>Facts about decimal text\<close>

lemma digit_char: "n < 10 \<Longrightarrow> is_digit (CHAR_MAP_STR ! n) \<and> digit_val (CHAR_MAP_STR ! n) = n"
  by (auto simp: numeral_eq_Suc less_Suc_eq CHAR_MAP_STR_def is_digit_def digit_val_def)

lemma digits_val_snoc: "digits_val (ds @ [c]) = 10 * digits_val ds + digit_val c"
  by (simp add: digits_val_def)

lemma digits_val_nat_digits: "digits_val (nat_digits n) = n"
proof (induction n rule: nat_digits.induct)
  case (1 n)
  show ?case
  proof (cases "n < 10")
    case True
    then show ?thesis using digit_char [of n]
      by (subst nat_digits.simps) (simp add: digits_val_def)
  next
    case False
    then show ?thesis using 1 digit_char [of "n mod 10"]
      by (subst nat_digits.simps) (simp add: digits_val_snoc)
  qed
qed

lemma nat_digits_digits: "list_all is_digit (nat_digits n) \<and> nat_digits n \<noteq> []"
proof (induction n rule: nat_digits.induct)
  case (1 n)
  then show ?case using digit_char [of n] digit_char [of "n mod 10"]
    by (subst (1 2) nat_digits.simps) auto
qed

lemma is_digit_not: "is_digit c \<Longrightarrow> c \<noteq> CHR ''-'' \<and> c \<noteq> CHR ''+''"
  by (auto simp: is_digit_def)

lemma nat_digits_inj: "nat_digits m = nat_digits n \<Longrightarrow> m = n"
  by (metis digits_val_nat_digits)

lemma nat_digits_hd: "nat_digits n \<noteq> CHR ''-'' # cs"
  using nat_digits_digits [of n] is_digit_not by (cases "nat_digits n") auto

lemma to_string_inj: "to_string x = to_string y \<Longrightarrow> x = y"
  using nat_digits_hd nat_digits_inj
  by (auto simp: to_string_def split: if_splits dest!: nat_digits_inj) (metis nat_digits_hd)+

text \<open>
  \<open>itoa\<close> in base 10 writes what \<open>std::to_string\<close> writes, for every number but zero, which it writes
  as the empty string.
\<close>

lemma itoa_loop_acc: "itoa_loop base i v buf = itoa_loop base i v [] @ buf"
proof (induction i arbitrary: v buf)
  case (Suc i)
  show ?case
    by (simp add: Suc.IH [of "v div base" "CHAR_MAP_STR ! (v mod base) # buf"]
        Suc.IH [of "v div base" "[CHAR_MAP_STR ! (v mod base)]"])
qed simp

lemma itoa_loop_nat_digits: "0 < v \<Longrightarrow> v < 10 ^ i \<Longrightarrow> itoa_loop 10 i v [] = nat_digits v"
proof (induction i arbitrary: v)
  case (Suc i)
  show ?case
  proof (cases "v < 10")
    case True
    then have "v div 10 = 0" "v mod 10 = v" by auto
    moreover have "itoa_loop 10 i 0 buf = buf" for buf by (cases i) auto
    ultimately show ?thesis using True Suc.prems by (subst nat_digits.simps) simp
  next
    case False
    then have "itoa_loop 10 i (v div 10) [] = nat_digits (v div 10)"
      using Suc.prems by (intro Suc.IH) auto
    with False Suc.prems show ?thesis
      by (subst nat_digits.simps) (simp add: itoa_loop_acc [of 10 i "v div 10" "[CHAR_MAP_STR ! (v mod 10)]"])
  qed
qed simp

lemma itoa_10:
  assumes "- (2 ^ 31) < v" and "v < 2 ^ 31"
  shows "itoa v 10 = Some (if v = 0 then '''' else to_string v)"
proof -
  have b: "n < 2 ^ 31 \<Longrightarrow> n < 10 ^ 30" for n :: nat by (rule order_less_trans [of _ "2 ^ 31"]) simp_all
  consider "v = 0" | "0 < v" | "v < 0" by linarith
  then show ?thesis
  proof cases
    case 1
    then show ?thesis by (simp add: itoa_def numeral_eq_Suc)
  next
    case 2
    then have "itoa_loop 10 30 (nat v) [] = nat_digits (nat v)"
      using assms by (intro itoa_loop_nat_digits b) auto
    then show ?thesis using 2 assms by (simp add: itoa_def to_string_def)
  next
    case 3
    then have "itoa_loop 10 30 (nat (- v)) [] = nat_digits (nat (- v))"
      using assms by (intro itoa_loop_nat_digits b) auto
    then show ?thesis using 3 assms by (simp add: itoa_def to_string_def)
  qed
qed

text \<open>For every \<open>int\<close> but the least one, \<open>itoa\<close> in base 10 gives the decimal text that \<open>std::to_string\<close> gives,
  and for zero the empty text.\<close>

lemma itoa_decimal:
  assumes "- (2 ^ 31) < v" and "v < 2 ^ 31"
  shows "itoa v 10 = Some (if v = 0 then '''' else to_string v)"
  using assms by (rule itoa_10)

text \<open>The last parameter of a name, up to an index.\<close>

lemma getIntParam_loop_None: "getIntParam_loop ps name i = None \<longleftrightarrow> (\<forall>j \<le> i. par_name (ps ! j) \<noteq> name)"
proof (induction i)
  case 0
  show ?case by (subst getIntParam_loop.simps) auto
next
  case (Suc i)
  show ?case by (subst getIntParam_loop.simps) (auto simp: Suc le_Suc_eq)
qed

text \<open>C40: The search for an integer parameter has a defined result exactly when the event has no parameters at all
  or one of the name sought; otherwise its unsigned index wraps below zero.\<close>

theorem getIntParam_defined:
  "getIntParam ev name = None \<longleftrightarrow> ev_params ev \<noteq> [] \<and> name \<notin> par_name ` set (ev_params ev)"
proof (cases "ev_params ev")
  case (Cons p ps)
  have "name \<notin> par_name ` set (ev_params ev) \<longleftrightarrow> (\<forall>j < length (ev_params ev). par_name (ev_params ev ! j) \<noteq> name)"
    by (auto simp: set_conv_nth)
  also have "\<dots> \<longleftrightarrow> (\<forall>j \<le> length (ev_params ev) - 1. par_name (ev_params ev ! j) \<noteq> name)"
    by (simp add: Cons less_Suc_eq_le)
  finally show ?thesis
    by (simp add: getIntParam_def Let_def getIntParam_loop_None Cons)
qed (simp add: getIntParam_def)

text \<open>An address is stored as one number if it is an IPv4 address, and not at all otherwise: the branch for
  IPv6 is never taken.\<close>

lemma strToIP_ipv4_only:
  "strToIP pton str = (case pton str of None \<Rightarrow> [] | Some ws \<Rightarrow> [uint (ws ! 0)])"
  by (simp add: strToIP_def split: option.split)

end
