(* ===== verification/Sample.thy ===== *)
theory Sample
  imports State
begin

text \<open>
  A concrete library and concrete states, on which the hypotheses of theorems are shown to hold:
  one machine with no containers, a clock that advances a second at every reading, and a socket
  that works for its first sends.
\<close>

definition lib0 :: inspector where
  "lib0 = \<lparr>get_container = (\<lambda>_. None), get_main_thread = (\<lambda>ti. Some ti), get_parent_thread = (\<lambda>_. None),
     get_fd = (\<lambda>_ _. None), param_value_str = (\<lambda>_ _. ''0''), machine_hostname = Some ''host'', hostname = None,
     parse_json = (\<lambda>_. None), json_asString = (\<lambda>_. None), SHA1 = (\<lambda>k. k), sanitize_string = (\<lambda>x. x),
     weakly_canonical = (\<lambda>p. Some p), clock = (\<lambda>n. int n + 1), clock_ns = (\<lambda>n. 1000000000 * (int n + 1)),
     send_ok = (\<lambda>n. n < 2), connect_ok = (\<lambda>n. True), PPM_O_RDONLY = 1, PPM_MAP_ANONYMOUS = 8,
     PPM_CL_CLONE_THREAD = 8, PPM_AT_FDCWD = -100, INVALID_FD_NUM = -100000\<rparr>"

text \<open>The same machine with a socket that never connects.\<close>

definition lib_down :: inspector where
  "lib_down = lib0\<lparr>connect_ok := (\<lambda>n. False), send_ok := (\<lambda>n. False), clock := (\<lambda>n. 100 * (int n + 1))\<rparr>"

definition config0 :: SysFlowConfig where
  "config0 =
     \<lparr>filterContainers = False, rotateInterval = 300, exporterID = '''', nodeIP = '''', filePath = ''out'',
      socketPath = '''', scapInputPath = '''', falcoFilter = '''', samplingRatio = 1, criPath = '''', criTO = 30,
      enableStats = False, enableProcessFlow = True, fileOnly = True, fileReadMode = 2, dropMode = True,
      callback = False, debugMode = False, k8sAPIURL = '''', k8sAPICert = '''', moduleChecks = True,
      singleBufferDimension = 0, appName = ''sysflowlibs'', collectionMode = SFFlowMode,
      cpuBuffers = 0, driverType = KMOD\<rparr>"

definition cxt0 :: SysFlowContext where
  "cxt0 = \<lparr>m_nfExportInterval = 30, m_nfExpireInterval = 60, m_offline = False, m_statsInterval = 30,
     m_nodeIP = '''', m_k8sEnabled = False, m_config = config0, m_hasPrefix = True, m_ebpfProbe = ''''\<rparr>"

definition file_writer0 :: SFFileWriter where
  "file_writer0 = \<lparr>m_numRecs = 0, m_start = 1, m_version = 4, m_hdrFile = '''', fw_name = '''', fw_recs = [], fw_closed = []\<rparr>"

definition sock_writer0 :: SFSocketWriter where
  "sock_writer0 = \<lparr>m_numRecs = 0, m_start = 1, m_version = 4, m_hdrFile = '''', m_errTimer = 0, m_reconnectInterval = 10,
     m_reset = False, sk_sent = [], sk_sends = 0, sk_conns = 0, sk_killed = False\<rparr>"

definition header0 :: SFHeader where
  "header0 = \<lparr>h_version = 0, h_exporter = '''', h_ip = '''', h_filename = ''''\<rparr>"

definition callback_writer0 :: SFCallbackWriter where
  "callback_writer0 = \<lparr>m_numRecs = 0, m_start = 1, m_version = 4, m_hdrFile = '''', cb_header = header0, cb_calls = []\<rparr>"

definition state0 :: "writer \<Rightarrow> sf" where
  "state0 w = \<lparr>m_cxt = cxt0, timeStamp = 0, reads = 0, m_writer = w, trace = [], m_pods = [], m_containers = [],
     m_files = [], m_procs = [], m_delProcQue = [], m_delProcTime = 0, m_pfSet = [], heap = (\<lambda>_. None),
     nextref = 0, m_dfSet = [], df_lastCheck = 0, cf_lastCheck = 0, m_uid = '''',
     m_k8sEvt = \<lparr>ke_kind = K8S_NODES, ke_action = K8S_COMPONENT_ADDED, ke_ts = 0, ke_message = ''''\<rparr>,
     m_statsTime = 0, m_exit = False, ccxt_live = True\<rparr>"

definition thread0 :: "int \<Rightarrow> int \<Rightarrow> sinsp_threadinfo" where
  "thread0 pid tid = \<lparr>ti_tid = tid, ti_pid = pid, ti_ptid = -1, ti_vpid = pid, ti_clone_ts = 7, ti_is_main = (pid = tid),
     ti_exe = ''sh'', ti_exepath = ''/bin/sh'', ti_args = [''-c'', ''ls''], ti_container_id = '''', ti_cwd = ''/'', ti_env = [],
     ti_tty = 0, ti_uid = 0, ti_gid = 0, ti_user = ''root'', ti_group = ''root''\<rparr>"

definition socket0 :: sinsp_fdinfo where
  "socket0 = \<lparr>fd_name = ''sock'', fd_typechar = CHR ''4'', fd_is_ipv4 = True, fd_is_ipv6 = False, fd_is_file = False,
     fd_openflags = 0, fd_sip = 1, fd_dip = 2, fd_sport = 3, fd_dport = 4, fd_l4proto = SCAP_L4_TCP\<rparr>"

definition regfile0 :: sinsp_fdinfo where
  "regfile0 = \<lparr>fd_name = ''/tmp/a'', fd_typechar = CHR ''f'', fd_is_ipv4 = False, fd_is_ipv6 = False, fd_is_file = True,
     fd_openflags = 0, fd_sip = 0, fd_dip = 0, fd_sport = 0, fd_dport = 0, fd_l4proto = SCAP_L4_other\<rparr>"

definition result0 :: "int \<Rightarrow> evt_param" where
  "result0 n = \<lparr>par_name = ''res'', par_type = PT_ERRNO, par_int = n, par_str = ''''\<rparr>"

definition event0 :: "ppm_event_code \<Rightarrow> int \<Rightarrow> sinsp_threadinfo \<Rightarrow> sinsp_fdinfo option \<Rightarrow> int \<Rightarrow> sinsp_evt" where
  "event0 ty ts ti fd n = \<lparr>ev_type = ty, ev_ts = ts, ev_tinfo = Some ti, ev_fdinfo = fd, ev_fdnum = 3, ev_params = [result0 n]\<rparr>"

lemmas sample_defs =
  lib0_def lib_down_def config0_def cxt0_def file_writer0_def sock_writer0_def header0_def
  callback_writer0_def state0_def thread0_def socket0_def regfile0_def result0_def event0_def

end
