(* ===== verification/Writer.thy ===== *)
theory Writer
  imports Utils Sample
begin

text \<open>
  The writers: the class \<open>SysFlowWriter\<close> with its \<open>write...\<close> functions, and the four kinds of
  output derived from it (a rotated file, a domain socket with reconnection, both at once, and a
  callback). The lemmas show what each kind makes of the records it is handed, and the back-off
  of the socket.
\<close>

section \<open>Headers\<close>

text \<open>\<open>getExporterID\<close> falls back on the host name and keeps it; without any the program exits.\<close>

definition getExporterID :: "inspector \<Rightarrow> sf \<Rightarrow> (string \<times> sf) option" where
  "getExporterID I s =
     (if exporterID (config s) = [] then
        (case (case machine_hostname I of Some h \<Rightarrow> Some h | None \<Rightarrow> hostname I) of
           None \<Rightarrow> None
         | Some h \<Rightarrow> Some (h, s\<lparr>m_cxt := (m_cxt s)\<lparr>m_config := (config s)\<lparr>exporterID := h\<rparr>\<rparr>\<rparr>))
      else Some (exporterID (config s), s))"

definition mk_header :: "int \<Rightarrow> string \<Rightarrow> string \<Rightarrow> sf \<Rightarrow> SFHeader" where
  "mk_header version exporter hdrFile s =
     \<lparr>h_version = version, h_exporter = exporter, h_ip = m_nodeIP (m_cxt s), h_filename = hdrFile\<rparr>"

section \<open>The virtual function write\<close>

definition file_write :: "sfrec \<Rightarrow> SFFileWriter \<Rightarrow> SFFileWriter" where
  "file_write r w = w\<lparr>fw_recs := fw_recs w @ [r]\<rparr>"

definition CONNECT_INTERVAL :: int where
  "CONNECT_INTERVAL = 10"

text \<open>
  \<open>connectSocket\<close> succeeds or not; a new connection has received nothing yet. The socket's
  \<open>write\<close> reads the wall clock, whose next reading has the number \<open>n\<close>.
\<close>

definition connectSocket :: "inspector \<Rightarrow> SFSocketWriter \<Rightarrow> bool \<times> SFSocketWriter" where
  "connectSocket I w =
     (connect_ok I (sk_conns w),
      w\<lparr>sk_conns := Suc (sk_conns w), sk_sent := (if connect_ok I (sk_conns w) then [] else sk_sent w)\<rparr>)"

definition sock_write :: "inspector \<Rightarrow> sfrec \<Rightarrow> SFSocketWriter \<Rightarrow> nat \<Rightarrow> SFSocketWriter \<times> nat" where
  "sock_write I r w n =
     (if m_errTimer w = 0 then
        (if send_ok I (sk_sends w) then
           (w\<lparr>sk_sends := Suc (sk_sends w), sk_sent := sk_sent w @ [r]\<rparr>, n)
         else (w\<lparr>sk_sends := Suc (sk_sends w), m_errTimer := clock I n\<rparr>, Suc n))
      else if difftime (clock I n) (m_errTimer w) \<ge> m_reconnectInterval w then
        (case connectSocket I w of
           (True, w1) \<Rightarrow>
             (w1\<lparr>m_errTimer := 0, m_reconnectInterval := CONNECT_INTERVAL, m_reset := True\<rparr>, Suc n)
         | (False, w1) \<Rightarrow>
             (w1\<lparr>m_reconnectInterval := 2 * m_reconnectInterval w1,
                 sk_killed := (sk_killed w1 \<or> 2 * m_reconnectInterval w1 > 8 * CONNECT_INTERVAL)\<rparr>, Suc n))
      else (w, Suc n))"

text \<open>The callback writer ignores the one-argument form of \<open>write\<close>.\<close>

definition cb_container :: "sf \<Rightarrow> Process option \<Rightarrow> Container option" where
  "cb_container s p =
     (case p of
        None \<Rightarrow> None
      | Some q \<Rightarrow> (case proc_containerId q of
                    None \<Rightarrow> None
                  | Some c \<Rightarrow> map_option c_cont (find_cont s c)))"

fun cb_write :: "sf \<Rightarrow> wcall \<Rightarrow> SFCallbackWriter \<Rightarrow> SFCallbackWriter" where
  "cb_write s (Write1 r) w = w"
| "cb_write s (Write4 r p f1 f2) w =
     (case r of
        R_SFHeader h \<Rightarrow> w\<lparr>cb_header := h\<rparr>
      | R_Container _ \<Rightarrow> w
      | R_File _ \<Rightarrow> w
      | R_Process _ \<Rightarrow> w
      | _ \<Rightarrow> w\<lparr>cb_calls := cb_calls w @ [(cb_header w, cb_container s p, p, f1, f2, r)]\<rparr>)"

text \<open>
  \<open>write\<close> of the writer in use. A socket that gives up sends the process a SIGINT, whose handler
  sets the exit flag.
\<close>

definition virtual_write :: "inspector \<Rightarrow> wcall \<Rightarrow> sf \<Rightarrow> sf" where
  "virtual_write I c s =
     (case m_writer s of
        FileW w \<Rightarrow> s\<lparr>m_writer := FileW (file_write (wrec c) w)\<rparr>
      | SockW w \<Rightarrow>
          (case sock_write I (wrec c) w (reads s) of
             (w1, n) \<Rightarrow> s\<lparr>m_writer := SockW w1, reads := n, m_exit := (m_exit s \<or> sk_killed w1)\<rparr>)
      | MultiW b k f \<Rightarrow>
          (case sock_write I (wrec c) k (reads s) of
             (k1, n) \<Rightarrow> s\<lparr>m_writer := MultiW b k1 (file_write (wrec c) f), reads := n,
                          m_exit := (m_exit s \<or> sk_killed k1)\<rparr>)
      | CallbackW w \<Rightarrow> s\<lparr>m_writer := CallbackW (cb_write s c w)\<rparr>)"

fun w_bump :: "writer \<Rightarrow> writer" where
  "w_bump (FileW w) = FileW (w\<lparr>m_numRecs := m_numRecs w + 1\<rparr>)"
| "w_bump (SockW w) = SockW (w\<lparr>m_numRecs := m_numRecs w + 1\<rparr>)"
| "w_bump (MultiW b k f) = MultiW (b\<lparr>m_numRecs := m_numRecs b + 1\<rparr>) k f"
| "w_bump (CallbackW w) = CallbackW (w\<lparr>m_numRecs := m_numRecs w + 1\<rparr>)"

fun w_start :: "writer \<Rightarrow> int" where
  "w_start (FileW w) = m_start w"
| "w_start (SockW w) = m_start w"
| "w_start (MultiW b k f) = m_start b"
| "w_start (CallbackW w) = m_start w"

fun getNumRecs :: "writer \<Rightarrow> int" where
  "getNumRecs (FileW w) = m_numRecs w"
| "getNumRecs (SockW w) = m_numRecs w"
| "getNumRecs (MultiW b k f) = m_numRecs b"
| "getNumRecs (CallbackW w) = m_numRecs w"

text \<open>What every \<open>write...\<close> function does with its record: count it and write it.\<close>

definition emit :: "inspector \<Rightarrow> wcall \<Rightarrow> sf \<Rightarrow> sf" where
  "emit I c s = virtual_write I c (s\<lparr>m_writer := w_bump (m_writer s), trace := trace s @ [c]\<rparr>)"

section \<open>The write functions\<close>

definition writePod :: "inspector \<Rightarrow> Pod \<Rightarrow> sf \<Rightarrow> sf" where
  "writePod I pod = emit I (Write1 (R_Pod pod))"

definition writeContainer :: "inspector \<Rightarrow> Container \<Rightarrow> sf \<Rightarrow> sf" where
  "writeContainer I c = emit I (Write1 (R_Container c))"

definition writeProcess :: "inspector \<Rightarrow> Process \<Rightarrow> sf \<Rightarrow> sf" where
  "writeProcess I p = emit I (Write1 (R_Process p))"

definition writeProcessEvent :: "inspector \<Rightarrow> ProcessEvent \<Rightarrow> Process \<Rightarrow> sf \<Rightarrow> sf" where
  "writeProcessEvent I pe p = emit I (Write4 (R_ProcessEvent pe) (Some p) None None)"

text \<open>A flow with no operation, or with the truncation flag only, is not written.\<close>

definition no_ops :: "flags \<Rightarrow> bool" where
  "no_ops f = (f = 0 \<or> f = op_val OP_TRUNCATE)"

definition writeNetFlow :: "inspector \<Rightarrow> NetworkFlow \<Rightarrow> Process option \<Rightarrow> sf \<Rightarrow> sf" where
  "writeNetFlow I nf p s =
     (if no_ops (nf_opFlags nf) then s else emit I (Write4 (R_NetworkFlow nf) p None None) s)"

definition writeProcessFlow :: "inspector \<Rightarrow> ProcessFlow \<Rightarrow> Process option \<Rightarrow> sf \<Rightarrow> sf" where
  "writeProcessFlow I pf p s =
     (if no_ops (pf_opFlags pf) then s else emit I (Write4 (R_ProcessFlow pf) p None None) s)"

definition writeFileFlow :: "inspector \<Rightarrow> FileFlow \<Rightarrow> Process option \<Rightarrow> SFFile option \<Rightarrow> sf \<Rightarrow> sf" where
  "writeFileFlow I ff p f s =
     (if no_ops (ff_opFlags ff) then s else emit I (Write4 (R_FileFlow ff) p f None) s)"

definition writeFileEvent1 :: "inspector \<Rightarrow> FileEvent \<Rightarrow> Process \<Rightarrow> SFFile \<Rightarrow> sf \<Rightarrow> sf" where
  "writeFileEvent1 I fe p f = emit I (Write4 (R_FileEvent fe) (Some p) (Some f) None)"

definition writeFileEvent2 :: "inspector \<Rightarrow> FileEvent \<Rightarrow> Process \<Rightarrow> SFFile \<Rightarrow> SFFile \<Rightarrow> sf \<Rightarrow> sf" where
  "writeFileEvent2 I fe p f1 f2 = emit I (Write4 (R_FileEvent fe) (Some p) (Some f1) (Some f2))"

definition writeFile :: "inspector \<Rightarrow> SFFile \<Rightarrow> sf \<Rightarrow> sf" where
  "writeFile I f = emit I (Write1 (R_File f))"

definition writeK8sEvent :: "inspector \<Rightarrow> K8sEvent \<Rightarrow> sf \<Rightarrow> sf" where
  "writeK8sEvent I k = emit I (Write1 (R_K8sEvent k))"

section \<open>Rotation\<close>

definition getDuration :: "int \<Rightarrow> writer \<Rightarrow> int" where
  "getDuration curTime w = difftime curTime (w_start w)"

definition isExpired :: "int \<Rightarrow> sf \<Rightarrow> bool" where
  "isExpired curTime s =
     (if w_start (m_writer s) > 0 then getDuration curTime (m_writer s) \<ge> rotateInterval (config s)
      else False)"

fun needsReset :: "writer \<Rightarrow> bool" where
  "needsReset (FileW w) = False"
| "needsReset (SockW w) = m_reset w"
| "needsReset (MultiW b k f) = (m_reset k \<or> False)"
| "needsReset (CallbackW w) = False"

text \<open>\<open>SFFileWriter::getFileName\<close>.\<close>

definition getFileName :: "SysFlowContext \<Rightarrow> int \<Rightarrow> int \<Rightarrow> string" where
  "getFileName c start curTime =
     (let out = filePath (m_config c) in
      if start > 0 then
        (if m_hasPrefix c then out @ ''.'' @ to_string curTime else out @ to_string curTime)
      else
        (if m_hasPrefix c then out else out @ to_string curTime))"

text \<open>
  \<open>writeHeader\<close> of a file, of a socket (which goes through the socket's \<open>write\<close>) and of the
  callback writer; the last argument is the exporter's name.
\<close>

definition file_header :: "string \<Rightarrow> sf \<Rightarrow> SFFileWriter \<Rightarrow> SFFileWriter" where
  "file_header ex s w =
     file_write (R_SFHeader (mk_header (m_version w) ex (m_hdrFile w) s)) (w\<lparr>m_numRecs := m_numRecs w + 1\<rparr>)"

definition sock_header :: "inspector \<Rightarrow> string \<Rightarrow> sf \<Rightarrow> SFSocketWriter \<Rightarrow> nat \<Rightarrow> SFSocketWriter \<times> nat" where
  "sock_header I ex s w n =
     sock_write I (R_SFHeader (mk_header (m_version w) ex (m_hdrFile w) s)) (w\<lparr>m_numRecs := m_numRecs w + 1\<rparr>) n"

definition file_open :: "string \<Rightarrow> string \<Rightarrow> sf \<Rightarrow> SFFileWriter \<Rightarrow> SFFileWriter" where
  "file_open ofile ex s w = file_header ex s (w\<lparr>m_hdrFile := ofile, fw_name := ofile, fw_recs := []\<rparr>)"

definition file_reset :: "int \<Rightarrow> string \<Rightarrow> sf \<Rightarrow> SFFileWriter \<Rightarrow> SFFileWriter" where
  "file_reset curTime ex s w =
     (let ofile = getFileName (m_cxt s) (m_start w) curTime in
      file_open ofile ex s
        (w\<lparr>m_numRecs := 0, fw_closed := fw_closed w @ [(fw_name w, fw_recs w)], m_start := curTime\<rparr>))"

definition sock_reset :: "inspector \<Rightarrow> int \<Rightarrow> string \<Rightarrow> sf \<Rightarrow> SFSocketWriter \<Rightarrow> nat \<Rightarrow> SFSocketWriter \<times> nat" where
  "sock_reset I curTime ex s w n =
     (case sock_header I ex s (w\<lparr>m_numRecs := 0, m_start := curTime\<rparr>) n of
        (w1, n1) \<Rightarrow> (w1\<lparr>m_reset := False\<rparr>, n1))"

definition sock_initialize :: "inspector \<Rightarrow> string \<Rightarrow> sf \<Rightarrow> SFSocketWriter \<Rightarrow> nat \<Rightarrow> SFSocketWriter \<times> nat" where
  "sock_initialize I ex s w n =
     (case connectSocket I w of
        (True, w1) \<Rightarrow> sock_header I ex s w1 n
      | (False, w1) \<Rightarrow> sock_header I ex s (w1\<lparr>m_errTimer := clock I n\<rparr>) (Suc n))"

text \<open>
  \<open>reset\<close> of each kind of writer: what it does to the writer, to the number of clock readings, and
  the header it puts at the head of the output.
\<close>

fun w_reset :: "inspector \<Rightarrow> int \<Rightarrow> string \<Rightarrow> sf \<Rightarrow> writer \<Rightarrow> writer \<times> nat \<times> SFHeader" where
  "w_reset I curTime ex s (FileW w) =
     (FileW (file_reset curTime ex s w), reads s,
      mk_header (m_version w) ex (getFileName (m_cxt s) (m_start w) curTime) s)"
| "w_reset I curTime ex s (SockW w) =
     (case sock_reset I curTime ex s w (reads s) of
        (w1, n) \<Rightarrow> (SockW w1, n, mk_header (m_version w) ex (m_hdrFile w) s))"
| "w_reset I curTime ex s (MultiW b k f) =
     (let f1 = file_reset curTime ex s f in
      case sock_reset I curTime ex s (k\<lparr>m_hdrFile := m_hdrFile f1\<rparr>) (reads s) of
        (k1, n) \<Rightarrow> (MultiW (b\<lparr>m_numRecs := 0, m_start := curTime\<rparr>) k1 f1, n,
                   mk_header (m_version f) ex (m_hdrFile f1) s))"
| "w_reset I curTime ex s (CallbackW w) =
     (CallbackW (w\<lparr>m_numRecs := m_numRecs w + 1\<rparr>), reads s, mk_header (m_version w) ex (m_hdrFile w) s)"

fun w_killed :: "writer \<Rightarrow> bool" where
  "w_killed (FileW w) = False"
| "w_killed (SockW w) = sk_killed w"
| "w_killed (MultiW b k f) = sk_killed k"
| "w_killed (CallbackW w) = False"

definition writer_reset :: "inspector \<Rightarrow> int \<Rightarrow> sf \<Rightarrow> (unit \<times> sf) option" where
  "writer_reset I curTime s = do {
     (ex, s) \<leftarrow> getExporterID I s;
     (case w_reset I curTime ex s (m_writer s) of
        (w, n, h) \<Rightarrow> Some ((), s\<lparr>m_writer := w, reads := n, trace := [Write1 (R_SFHeader h)],
                                m_exit := (m_exit s \<or> w_killed w)\<rparr>))
   }"

text \<open>\<open>initialize\<close> of each kind of writer. The time in the first file's name is the wall clock.\<close>

fun w_initialize :: "inspector \<Rightarrow> string \<Rightarrow> sf \<Rightarrow> writer \<Rightarrow> writer \<times> nat \<times> SFHeader" where
  "w_initialize I ex s (FileW w) =
     (let ofile = getFileName (m_cxt s) (m_start w) (clock I (reads s)) in
      (FileW (file_open ofile ex s w), Suc (reads s), mk_header (m_version w) ex ofile s))"
| "w_initialize I ex s (SockW w) =
     (case sock_initialize I ex s w (reads s) of
        (w1, n) \<Rightarrow> (SockW w1, n, mk_header (m_version w) ex (m_hdrFile w) s))"
| "w_initialize I ex s (MultiW b k f) =
     (let ofile = getFileName (m_cxt s) (m_start f) (clock I (reads s)); f1 = file_open ofile ex s f in
      case sock_initialize I ex s (k\<lparr>m_hdrFile := m_hdrFile f1\<rparr>) (Suc (reads s)) of
        (k1, n) \<Rightarrow> (MultiW b k1 f1, n, mk_header (m_version f) ex ofile s))"
| "w_initialize I ex s (CallbackW w) =
     (CallbackW (w\<lparr>m_numRecs := m_numRecs w + 1\<rparr>), reads s, mk_header (m_version w) ex (m_hdrFile w) s)"

definition writer_initialize :: "inspector \<Rightarrow> sf \<Rightarrow> (unit \<times> sf) option" where
  "writer_initialize I s = do {
     (ex, s) \<leftarrow> getExporterID I s;
     (case w_initialize I ex s (m_writer s) of
        (w, n, h) \<Rightarrow> Some ((), s\<lparr>m_writer := w, reads := n, trace := [Write1 (R_SFHeader h)],
                                m_exit := (m_exit s \<or> w_killed w)\<rparr>))
   }"

section \<open>Specifications\<close>

text \<open>
  What a writer has to show for the calls it was handed: a file holds exactly their records in
  order, and the counter of the records is their number.
\<close>

fun w_sync :: "writer \<Rightarrow> wcall list \<Rightarrow> bool" where
  "w_sync (FileW w) tr = (fw_recs w = map wrec tr \<and> m_numRecs w = int (length tr))"
| "w_sync (SockW w) tr = (m_numRecs w = int (length tr))"
| "w_sync (MultiW b k f) tr = (fw_recs f = map wrec tr \<and> m_numRecs b = int (length tr) - 1)"
| "w_sync (CallbackW w) tr = True"

text \<open>\<open>initialize\<close> is called on a writer that has written nothing.\<close>

fun w_fresh :: "writer \<Rightarrow> bool" where
  "w_fresh (FileW w) = (m_numRecs w = 0)"
| "w_fresh (SockW w) = (m_numRecs w = 0)"
| "w_fresh (MultiW b k f) = (m_numRecs b = 0)"
| "w_fresh (CallbackW w) = True"

definition set_exporter :: "string \<Rightarrow> sf \<Rightarrow> sf" where
  "set_exporter ex s = s\<lparr>m_cxt := (m_cxt s)\<lparr>m_config := (config s)\<lparr>exporterID := ex\<rparr>\<rparr>\<rparr>"

fun sock_writes :: "inspector \<Rightarrow> sfrec list \<Rightarrow> SFSocketWriter \<Rightarrow> nat \<Rightarrow> SFSocketWriter \<times> nat" where
  "sock_writes I [] w n = (w, n)"
| "sock_writes I (r # rs) w n = (case sock_write I r w n of (w1, n1) \<Rightarrow> sock_writes I rs w1 n1)"


section \<open>Frame of the writers\<close>

lemma sock_write_cases:
  "sock_write I r w n = (w1, n1) \<Longrightarrow>
     m_start w1 = m_start w \<and> m_numRecs w1 = m_numRecs w \<and> m_version w1 = m_version w \<and> m_hdrFile w1 = m_hdrFile w"
  by (auto simp: sock_write_def connectSocket_def split: if_splits)

lemma emit_frame [simp]:
  "m_cxt (emit I c s) = m_cxt s" "timeStamp (emit I c s) = timeStamp s"
  "m_pods (emit I c s) = m_pods s" "m_containers (emit I c s) = m_containers s"
  "m_files (emit I c s) = m_files s" "m_procs (emit I c s) = m_procs s"
  "m_delProcQue (emit I c s) = m_delProcQue s" "m_delProcTime (emit I c s) = m_delProcTime s"
  "m_pfSet (emit I c s) = m_pfSet s" "heap (emit I c s) = heap s" "nextref (emit I c s) = nextref s"
  "m_dfSet (emit I c s) = m_dfSet s" "df_lastCheck (emit I c s) = df_lastCheck s"
  "cf_lastCheck (emit I c s) = cf_lastCheck s" "m_uid (emit I c s) = m_uid s"
  "m_k8sEvt (emit I c s) = m_k8sEvt s" "m_statsTime (emit I c s) = m_statsTime s"
  "trace (emit I c s) = trace s @ [c]"
  by (auto simp: emit_def virtual_write_def split: writer.splits prod.splits)

lemma cb_write_start [simp]: "m_start (cb_write s c w) = m_start w"
  by (cases c) (auto split: sfrec.splits)

lemma emit_start [simp]: "w_start (m_writer (emit I c s)) = w_start (m_writer s)"
  by (cases "m_writer s")
    (auto simp: emit_def virtual_write_def file_write_def dest!: sock_write_cases split: prod.splits)

lemma w_sync_emit: "w_sync (m_writer s) (trace s) \<Longrightarrow> w_sync (m_writer (emit I c s)) (trace (emit I c s))"
  by (cases "m_writer s")
    (auto simp: emit_def virtual_write_def file_write_def dest!: sock_write_cases split: prod.splits)

lemma w_sync_reset: "w_reset I t ex s w = (w1, n, h) \<Longrightarrow> w_sync w1 [Write1 (R_SFHeader h)]"
  by (cases w)
    (auto simp: file_reset_def file_open_def file_header_def file_write_def mk_header_def sock_reset_def
      sock_header_def Let_def dest!: sock_write_cases split: prod.splits)

lemma w_sync_initialize: "w_fresh w \<Longrightarrow> w_initialize I ex s w = (w1, n, h) \<Longrightarrow> w_sync w1 [Write1 (R_SFHeader h)]"
  by (cases w)
    (auto simp: file_open_def file_header_def file_write_def mk_header_def sock_initialize_def
      connectSocket_def sock_header_def Let_def dest!: sock_write_cases split: prod.splits bool.splits)

lemma w_reset_start: "w_reset I t ex s w = (w1, n, h) \<Longrightarrow> \<not> (\<exists>c. w = CallbackW c) \<Longrightarrow> w_start w1 = t"
  by (cases w)
    (auto simp: file_reset_def file_open_def file_header_def file_write_def sock_reset_def
      sock_header_def Let_def dest!: sock_write_cases split: prod.splits)

lemma w_reset_needsReset: "w_reset I t ex s w = (w1, n, h) \<Longrightarrow> \<not> needsReset w1"
  by (cases w) (auto simp: sock_reset_def Let_def split: prod.splits)

lemma set_exporter_same: "set_exporter (exporterID (config s)) s = s"
proof -
  have "(config s)\<lparr>exporterID := exporterID (config s)\<rparr> = config s" by simp
  then have "(m_cxt s)\<lparr>m_config := (config s)\<lparr>exporterID := exporterID (config s)\<rparr>\<rparr> = m_cxt s" by simp
  then show ?thesis by (simp add: set_exporter_def)
qed

lemma getExporterID_wlp: "wlp (getExporterID I s) (\<lambda>ex s1. s1 = set_exporter ex s)"
  by (auto simp: getExporterID_def wlp_def set_exporter_same split: option.splits)
    (auto simp: set_exporter_def)

lemma writer_reset_wlp:
  "wlp (writer_reset I t s) (\<lambda>u s1. \<exists>ex w n h b.
      w_reset I t ex (set_exporter ex s) (m_writer s) = (w, n, h) \<and>
      s1 = (set_exporter ex s)\<lparr>m_writer := w, reads := n, trace := [Write1 (R_SFHeader h)], m_exit := b\<rparr>)"
proof (rule wlpI)
  fix u s1 assume "writer_reset I t s = Some (u, s1)"
  then obtain ex s0 where 1: "getExporterID I s = Some (ex, s0)"
    and 2: "(case w_reset I t ex s0 (m_writer s0) of
        (w, n, h) \<Rightarrow> Some ((), s0\<lparr>m_writer := w, reads := n, trace := [Write1 (R_SFHeader h)],
                                m_exit := (m_exit s0 \<or> w_killed w)\<rparr>)) = Some (u, s1)"
    by (auto simp: writer_reset_def split: bind_splits)
  from 1 getExporterID_wlp [of I s] have s0: "s0 = set_exporter ex s" by simp
  then have "m_writer s0 = m_writer s" by (simp add: set_exporter_def)
  moreover obtain w n h where w: "w_reset I t ex s0 (m_writer s0) = (w, n, h)"
    by (cases "w_reset I t ex s0 (m_writer s0)")
  moreover from 2 w have "s1 = s0\<lparr>m_writer := w, reads := n, trace := [Write1 (R_SFHeader h)],
      m_exit := (m_exit s0 \<or> w_killed w)\<rparr>" by simp
  ultimately show "\<exists>ex w n h b.
      w_reset I t ex (set_exporter ex s) (m_writer s) = (w, n, h) \<and>
      s1 = (set_exporter ex s)\<lparr>m_writer := w, reads := n, trace := [Write1 (R_SFHeader h)], m_exit := b\<rparr>"
    unfolding s0 by metis
qed

lemma set_exporter_frame [simp]:
  "m_writer (set_exporter ex s) = m_writer s" "timeStamp (set_exporter ex s) = timeStamp s"
  "m_pods (set_exporter ex s) = m_pods s" "m_containers (set_exporter ex s) = m_containers s"
  "m_files (set_exporter ex s) = m_files s" "m_procs (set_exporter ex s) = m_procs s"
  "rotateInterval (config (set_exporter ex s)) = rotateInterval (config s)"
  "m_nfExportInterval (m_cxt (set_exporter ex s)) = m_nfExportInterval (m_cxt s)"
  "m_offline (m_cxt (set_exporter ex s)) = m_offline (m_cxt s)"
  by (simp_all add: set_exporter_def)

section \<open>The back-off\<close>

lemma sock_writes_ok:
  assumes "m_errTimer w = 0" and "\<And>k. sk_sends w \<le> k \<Longrightarrow> k < sk_sends w + length rs \<Longrightarrow> send_ok I k"
  shows "\<exists>w1. sock_writes I rs w n = (w1, n) \<and> sk_sent w1 = sk_sent w @ rs \<and> m_errTimer w1 = 0"
  using assms
proof (induction rs arbitrary: w)
  case (Cons r rs)
  have "sock_write I r w n = (w\<lparr>sk_sends := Suc (sk_sends w), sk_sent := sk_sent w @ [r]\<rparr>, n)"
    using Cons.prems by (simp add: sock_write_def)
  with Cons.IH [of "w\<lparr>sk_sends := Suc (sk_sends w), sk_sent := sk_sent w @ [r]\<rparr>"] Cons.prems
  show ?case by auto
qed auto






section \<open>Properties\<close>

text \<open>After a rotation at a time \<open>t\<close> the writer of a file, a socket or both has no reset pending,
  and its output is due again exactly when the configured interval has passed since \<open>t\<close>.\<close>

lemma reset_starts_interval:
  assumes "writer_reset I t s = Some (u, s1)" and "0 < t" and "\<not> (\<exists>c. m_writer s = CallbackW c)"
  shows "(isExpired t2 s1 \<longleftrightarrow> t2 - t \<ge> rotateInterval (config s)) \<and> \<not> needsReset (m_writer s1)"
  using wlpD [OF writer_reset_wlp assms(1)] w_reset_start w_reset_needsReset assms(2,3)
  by (auto simp: isExpired_def getDuration_def difftime_def)

text \<open>C31: The callback writer does not note the time of a rotation: once its output is due it is due
  at every later check, so that every event makes it rotate and clears the caches.\<close>

theorem callback_stays_expired:
  assumes "writer_reset I t s = Some (u, s1)" and "m_writer s = CallbackW w"
    and "isExpired t s" and "t \<le> t2"
  shows "isExpired t2 s1"
  using wlpD [OF writer_reset_wlp assms(1)] assms(2-)
  by (auto simp: isExpired_def getDuration_def difftime_def split: if_splits)

theorem callback_stays_expired_witness:
  "\<exists>u s1. writer_reset lib0 400 (state0 (CallbackW callback_writer0)) = Some (u, s1) \<and> isExpired 401 s1"
proof -
  obtain u s1 where r: "writer_reset lib0 400 (state0 (CallbackW callback_writer0)) = Some (u, s1)"
    by (simp add: writer_reset_def getExporterID_def sample_defs)
  have "isExpired 400 (state0 (CallbackW callback_writer0))"
    "m_writer (state0 (CallbackW callback_writer0)) = CallbackW callback_writer0"
    by (simp_all add: isExpired_def getDuration_def difftime_def sample_defs)
  with callback_stays_expired [OF r, of callback_writer0 401] r show ?thesis by auto
qed

text \<open>While sends succeed, a connected socket receives the records it is handed, all of them and in
  order, and no clock is read.\<close>

lemma socket_delivers_in_order:
  assumes "m_errTimer w = 0" and "\<And>k. sk_sends w \<le> k \<Longrightarrow> k < sk_sends w + length rs \<Longrightarrow> send_ok I k"
  shows "\<exists>w1. sock_writes I rs w n = (w1, n) \<and> sk_sent w1 = sk_sent w @ rs \<and> m_errTimer w1 = 0"
  by (rule sock_writes_ok [OF assms])



text \<open>C30: A rotation whose header is the record that finds the socket ready to reconnect loses the
  header: the new connection has received nothing and no reset is pending.\<close>

theorem socket_reset_loses_header:
  assumes "m_errTimer w \<noteq> 0" and "clock I n - m_errTimer w \<ge> m_reconnectInterval w"
    and "connect_ok I (sk_conns w)" and "sock_reset I t ex s w n = (w1, n1)"
  shows "sk_sent w1 = [] \<and> m_errTimer w1 = 0 \<and> \<not> m_reset w1"
  using assms by (auto simp: sock_reset_def sock_header_def sock_write_def connectSocket_def difftime_def split: if_splits)

theorem socket_reset_loses_header_witness:
  "\<exists>w1 n1. sock_reset lib0 40 ''e'' (state0 (SockW sock_writer0)) (sock_writer0\<lparr>m_errTimer := 5\<rparr>) 30 = (w1, n1) \<and>
     sk_sent w1 = [] \<and> \<not> m_reset w1"
proof -
  obtain w1 n1 where
    w: "sock_reset lib0 40 ''e'' (state0 (SockW sock_writer0)) (sock_writer0\<lparr>m_errTimer := 5\<rparr>) 30 = (w1, n1)"
    by fastforce
  with socket_reset_loses_header [OF _ _ _ w] show ?thesis by (auto simp: sample_defs)
qed

text \<open>The names of two files opened at different times differ, unless the output is a single file
  that is never rotated.\<close>

lemma file_names_differ:
  assumes "start > 0 \<or> \<not> m_hasPrefix c" and "t1 \<noteq> t2"
  shows "getFileName c start t1 \<noteq> getFileName c start t2"
  using assms to_string_inj by (auto simp: getFileName_def Let_def split: if_splits)

text \<open>A flow is written only if it has an operation besides the truncation mark, and then its record
  is the last of the log.\<close>

lemma writeNetFlow_skips_idle:
  "trace (writeNetFlow I nf p s) =
     trace s @ (if nf_opFlags nf = 0 \<or> nf_opFlags nf = op_val OP_TRUNCATE then [] else [Write4 (R_NetworkFlow nf) p None None])"
  by (simp add: writeNetFlow_def no_ops_def)

end
