(* ===== verification/K8s.thy ===== *)
theory K8s
  imports Writer
begin

text \<open>
  Kubernetes state: the table of pods (\<open>K8sContext\<close>) and the classification of the events of the
  orchestrator (\<open>K8sEventProcessor\<close>). The functions whose body the source has commented out do
  nothing here either.
\<close>

section \<open>K8sContext\<close>

definition getPod :: "string \<Rightarrow> sf \<Rightarrow> PodObj option" where
  "getPod cid s = find_pod s cid"

text \<open>The lookup by thread has its body commented out and returns the null pointer.\<close>

definition getPod_thread :: "sinsp_threadinfo \<Rightarrow> sf \<Rightarrow> string option" where
  "getPod_thread ti s = None"

definition exportPod :: "inspector \<Rightarrow> string \<Rightarrow> sf \<Rightarrow> bool \<times> sf" where
  "exportPod I cid s =
     (case find_pod s cid of
        None \<Rightarrow> (False, s)
      | Some pod \<Rightarrow>
          (if \<not> pod_written pod then
             (True, (let s1 = writePod I (pod_pod pod) s in
                     s1\<lparr>m_pods := AList.update cid (pod\<lparr>pod_written := True\<rparr>) (m_pods s1)\<rparr>))
           else (False, s)))"

definition derefPod :: "string \<Rightarrow> sf \<Rightarrow> int \<times> sf" where
  "derefPod cid s =
     (case find_pod s cid of
        None \<Rightarrow> (0, s)
      | Some pod \<Rightarrow>
          (let pod1 = pod\<lparr>pod_refs := pod_refs pod - 1\<rparr> in
           (sint (pod_refs pod1), s\<lparr>m_pods := AList.update cid pod1 (m_pods s)\<rparr>)))"

text \<open>The loop of \<open>clearPods\<close> visits every entry once: it erases it or marks it unwritten.\<close>

fun clearPods_loop :: "(string, PodObj) table \<Rightarrow> (string, PodObj) table" where
  "clearPods_loop [] = []"
| "clearPods_loop ((cid, pod) # t) =
     (if pod_refs pod = 0 then clearPods_loop t
      else (cid, pod\<lparr>pod_written := False\<rparr>) # clearPods_loop t)"

definition clearPods :: "sf \<Rightarrow> sf" where
  "clearPods s = s\<lparr>m_pods := clearPods_loop (m_pods s)\<rparr>"

definition clearAllPods :: "sf \<Rightarrow> sf" where
  "clearAllPods s = s\<lparr>m_pods := []\<rparr>"

definition updateAndWritePodState :: "string \<Rightarrow> sf \<Rightarrow> sf" where
  "updateAndWritePodState uid s = s"

fun updateCompState_loop :: "inspector \<Rightarrow> K8sComponent \<Rightarrow> json list \<Rightarrow> sf \<Rightarrow> (unit \<times> sf) option" where
  "updateCompState_loop I kind [] s = Some ((), s)"
| "updateCompState_loop I kind (item # items) s =
     (case json_member item ''uid'' of
        None \<Rightarrow> None
      | Some uid \<Rightarrow>
          (if uid \<noteq> JNull \<and> kind = K8S_PODS then
             (case json_asString I uid of
                None \<Rightarrow> None
              | Some u \<Rightarrow> updateCompState_loop I kind items (updateAndWritePodState u s))
           else updateCompState_loop I kind items s))"

definition updateCompState :: "inspector \<Rightarrow> K8sAction \<Rightarrow> K8sComponent \<Rightarrow> json \<Rightarrow> sf \<Rightarrow> (unit \<times> sf) option" where
  "updateCompState I action kind root s =
     (if action \<noteq> K8S_COMPONENT_MODIFIED then Some ((), s)
      else (case json_member root ''items'' of
              None \<Rightarrow> None
            | Some items \<Rightarrow> updateCompState_loop I kind (json_items items) s))"

section \<open>K8sEventProcessor\<close>

fun k8s_component_of :: "json \<Rightarrow> K8sComponent" where
  "k8s_component_of (JStr type) =
     (if type = ''Namespace'' then K8S_NAMESPACES
      else if type = ''Node'' then K8S_NODES
      else if type = ''Pod'' then K8S_PODS
      else if type = ''ReplicationController'' then K8S_REPLICATIONCONTROLLERS
      else if type = ''ReplicaSet'' then K8S_REPLICASETS
      else if type = ''Service'' then K8S_SERVICES
      else if type = ''DaemonSet'' then K8S_DAEMONSETS
      else if type = ''Deployment'' then K8S_DEPLOYMENTS
      else if type = ''EventList'' then K8S_EVENTS
      else K8S_UNKNOWN)"
| "k8s_component_of _ = K8S_UNKNOWN"

definition getK8sComponent :: "json \<Rightarrow> K8sComponent option" where
  "getK8sComponent root = map_option k8s_component_of (json_member root ''kind'')"

fun k8s_action_of :: "json \<Rightarrow> K8sAction" where
  "k8s_action_of (JStr et) =
     (case et of
        [] \<Rightarrow> K8S_COMPONENT_UNKNOWN
      | c # _ \<Rightarrow>
          (if c = CHR ''A'' then K8S_COMPONENT_ADDED
           else if c = CHR ''M'' then K8S_COMPONENT_MODIFIED
           else if c = CHR ''D'' then K8S_COMPONENT_DELETED
           else if c = CHR ''N'' then K8S_COMPONENT_NONEXISTENT
           else if c = CHR ''E'' then K8S_COMPONENT_ERROR
           else K8S_COMPONENT_UNKNOWN))"
| "k8s_action_of _ = K8S_COMPONENT_UNKNOWN"

definition getAction :: "json \<Rightarrow> K8sAction option" where
  "getAction root = map_option k8s_action_of (json_member root ''type'')"

text \<open>
  The event record is a member of the processor: a payload that is not JSON leaves the kind and
  the action of the previous event in it.
\<close>

definition handleK8sEvent :: "inspector \<Rightarrow> sinsp_evt \<Rightarrow> sf \<Rightarrow> (int \<times> sf) option" where
  "handleK8sEvent I ev s =
     (case ev_params ev of
        [] \<Rightarrow> None
      | p # _ \<Rightarrow>
          (let payload = par_str p;
               s1 = s\<lparr>m_k8sEvt := (m_k8sEvt s)\<lparr>ke_message := payload, ke_ts := ev_ts ev\<rparr>\<rparr>
           in do {
             (u, s2) \<leftarrow> (case parse_json I payload of
                None \<Rightarrow> Some ((), s1)
              | Some root \<Rightarrow>
                  (case (getAction root, getK8sComponent root) of
                     (Some action, Some kind) \<Rightarrow>
                       (let s2 = s1\<lparr>m_k8sEvt := (m_k8sEvt s1)\<lparr>ke_action := action, ke_kind := kind\<rparr>\<rparr> in
                        if action = K8S_COMPONENT_MODIFIED \<and>
                           (kind = K8S_PODS \<or> kind = K8S_SERVICES \<or> kind = K8S_NODES)
                        then updateCompState I action kind root s2 else Some ((), s2))
                   | _ \<Rightarrow> None));
             Some (1, writeK8sEvent I (m_k8sEvt s2) s2)
           }))"

end
