(* ===== verification/Containers.thy ===== *)
theory Containers
  imports K8s
begin

text \<open>
  The cache of containers (\<open>ContainerContext\<close>): creation from the container manager, the record
  written once per output, the reference counts, and the purge at a rotation.
\<close>

definition INCOMPLETE :: string where
  "INCOMPLETE = ''incomplete''"

definition INCOMPLETE_IMAGE :: string where
  "INCOMPLETE_IMAGE = ''incomplete:incomplete''"

definition Container_empty :: Container where
  "Container_empty = \<lparr>cont_id = '''', cont_name = '''', cont_image = '''', cont_imageid = '''',
     cont_type = 0, cont_privileged = False, cont_podId = None\<rparr>"

definition ContainerObj_new :: ContainerObj where
  "ContainerObj_new = \<lparr>c_written = False, c_incomplete = False, c_refs = 0, c_cont = Container_empty\<rparr>"

definition setContainer :: "sinsp_container_info \<Rightarrow> ContainerObj \<Rightarrow> ContainerObj" where
  "setContainer ci c =
     c\<lparr>c_cont := (c_cont c)\<lparr>cont_name := ci_name ci,
                           cont_image := ci_image ci @ '':'' @ ci_imagetag ci,
                           cont_id := ci_id ci,
                           cont_imageid := ci_imageid ci,
                           cont_type := ci_type ci,
                           cont_privileged := ci_privileged ci\<rparr>\<rparr>"

text \<open>
  The pod of a container. \<open>getPod_thread\<close> names the pod in the table, if there is one.
\<close>

definition pod_incr :: "string \<Rightarrow> sf \<Rightarrow> sf" where
  "pod_incr cid s =
     (case find_pod s cid of
        None \<Rightarrow> s
      | Some p \<Rightarrow> s\<lparr>m_pods := AList.update cid (p\<lparr>pod_refs := pod_refs p + 1\<rparr>) (m_pods s)\<rparr>)"

definition set_pod :: "sinsp_threadinfo \<Rightarrow> ContainerObj \<Rightarrow> sf \<Rightarrow> ContainerObj \<times> sf" where
  "set_pod ti c s =
     (case getPod_thread ti s of
        Some cid \<Rightarrow> (c\<lparr>c_cont := (c_cont c)\<lparr>cont_podId := Some cid\<rparr>\<rparr>, pod_incr cid s)
      | None \<Rightarrow> (c\<lparr>c_cont := (c_cont c)\<lparr>cont_podId := None\<rparr>\<rparr>, s))"

definition createContainer :: "inspector \<Rightarrow> sinsp_threadinfo \<Rightarrow> sf \<Rightarrow> ContainerObj option \<times> sf" where
  "createContainer I ti s =
     (if ti_container_id ti = [] then (None, s)
      else (case get_container I (ti_container_id ti) of
        None \<Rightarrow>
          (Some (ContainerObj_new
             \<lparr>c_cont := Container_empty\<lparr>cont_name := INCOMPLETE, cont_image := INCOMPLETE_IMAGE,
                                       cont_id := ti_container_id ti\<rparr>,
              c_incomplete := True\<rparr>), s)
      | Some ci \<Rightarrow>
          (let c = setContainer ci ContainerObj_new;
               c1 = (if cont_name (c_cont c) = INCOMPLETE \<or> cont_image (c_cont c) = INCOMPLETE_IMAGE
                     then c\<lparr>c_incomplete := True\<rparr> else c)
           in if m_k8sEnabled (m_cxt s)
              then (case set_pod ti c1 s of (c2, s1) \<Rightarrow> (Some c2, s1))
              else (Some c1, s))))"

definition getContainer_id :: "string \<Rightarrow> sf \<Rightarrow> ContainerObj option" where
  "getContainer_id cid s = find_cont s cid"

definition exportContainer :: "inspector \<Rightarrow> string \<Rightarrow> sf \<Rightarrow> bool \<times> sf" where
  "exportContainer I cid s =
     (case find_cont s cid of
        None \<Rightarrow> (False, s)
      | Some c \<Rightarrow>
          (let s1 = (if m_k8sEnabled (m_cxt s)
                     then (case cont_podId (c_cont c) of None \<Rightarrow> s | Some p \<Rightarrow> snd (exportPod I p s))
                     else s)
           in if \<not> c_written c then
                (True, (let s2 = writeContainer I (c_cont c) s1 in
                        s2\<lparr>m_containers := AList.update cid (c\<lparr>c_written := True\<rparr>) (m_containers s2)\<rparr>))
              else (False, s1)))"

definition derefContainer :: "string \<Rightarrow> sf \<Rightarrow> int \<times> sf" where
  "derefContainer cid s =
     (case find_cont s cid of
        None \<Rightarrow> (0, s)
      | Some c \<Rightarrow>
          (let c1 = c\<lparr>c_refs := c_refs c - 1\<rparr> in
           (sint (c_refs c1), s\<lparr>m_containers := AList.update cid c1 (m_containers s)\<rparr>)))"

definition reupPod :: "sinsp_threadinfo \<Rightarrow> ContainerObj \<Rightarrow> sf \<Rightarrow> ContainerObj \<times> sf" where
  "reupPod ti c s =
     (if \<not> m_k8sEnabled (m_cxt s) then (c, s)
      else
        (let podId = (case cont_podId (c_cont c) of None \<Rightarrow> '''' | Some p \<Rightarrow> p);
             s1 = (if podId \<noteq> []
                   then (case find_pod s podId of
                           None \<Rightarrow> s
                         | Some p \<Rightarrow> s\<lparr>m_pods := AList.update podId (p\<lparr>pod_refs := pod_refs p - 1\<rparr>) (m_pods s)\<rparr>)
                   else s)
         in set_pod ti c s1))"

text \<open>
  \<open>getContainer\<close> of a thread. The result is the key of the object in the table, the container's
  id. \<open>store_container\<close> is the common end of the function: insert, write, mark as written.
\<close>

definition store_container :: "inspector \<Rightarrow> ContainerObj \<Rightarrow> sf \<Rightarrow> string option \<times> sf" where
  "store_container I ct s =
     (let cid = cont_id (c_cont ct); s1 = writeContainer I (c_cont ct) s
      in (Some cid, s1\<lparr>m_containers := AList.update cid (ct\<lparr>c_written := True\<rparr>) (m_containers s1)\<rparr>))"

definition getContainer :: "inspector \<Rightarrow> sinsp_threadinfo \<Rightarrow> sf \<Rightarrow> string option \<times> sf" where
  "getContainer I ti s =
     (let cid = ti_container_id ti in
      if cid = [] then (None, s)
      else (case find_cont s cid of
        None \<Rightarrow> (case createContainer I ti s of
                  (None, s1) \<Rightarrow> (None, s1)
                | (Some ct, s1) \<Rightarrow> store_container I ct s1)
      | Some c \<Rightarrow>
          (if c_written c \<and> \<not> c_incomplete c then (Some cid, s)
           else (case get_container I cid of
             None \<Rightarrow> (Some cid, s)
           | Some ci \<Rightarrow>
               (if c_written c \<and> c_incomplete c \<and> (ci_name ci = INCOMPLETE \<or> ci_image ci = INCOMPLETE)
                then (Some cid, s)
                else
                  (let c1 = (if c_written c \<and> c_incomplete c then c\<lparr>c_incomplete := False\<rparr> else c);
                       ct = setContainer ci c1
                   in case (if m_k8sEnabled (m_cxt s) then reupPod ti ct s else (ct, s)) of
                        (ct1, s1) \<Rightarrow> store_container I ct1 s1))))))"

definition cont_incr :: "string \<Rightarrow> sf \<Rightarrow> sf" where
  "cont_incr cid s =
     (case find_cont s cid of
        None \<Rightarrow> s
      | Some c \<Rightarrow> s\<lparr>m_containers := AList.update cid (c\<lparr>c_refs := c_refs c + 1\<rparr>) (m_containers s)\<rparr>)"

definition cont_decr :: "string \<Rightarrow> sf \<Rightarrow> sf" where
  "cont_decr cid s =
     (case find_cont s cid of
        None \<Rightarrow> s
      | Some c \<Rightarrow> s\<lparr>m_containers := AList.update cid (c\<lparr>c_refs := c_refs c - 1\<rparr>) (m_containers s)\<rparr>)"

text \<open>The loop of \<open>clearContainers\<close> over the entries of the table.\<close>

fun clearContainers_loop :: "string list \<Rightarrow> sf \<Rightarrow> sf" where
  "clearContainers_loop [] s = s"
| "clearContainers_loop (cid # ids) s =
     (case find_cont s cid of
        None \<Rightarrow> clearContainers_loop ids s
      | Some c \<Rightarrow>
          (if c_refs c = 0 then
             (let s1 = (if m_k8sEnabled (m_cxt s)
                        then (case cont_podId (c_cont c) of None \<Rightarrow> s | Some p \<Rightarrow> snd (derefPod p s))
                        else s)
              in clearContainers_loop ids (s1\<lparr>m_containers := AList.delete cid (m_containers s1)\<rparr>))
           else clearContainers_loop ids
                  (s\<lparr>m_containers := AList.update cid (c\<lparr>c_written := False\<rparr>) (m_containers s)\<rparr>)))"

definition clearContainers :: "sf \<Rightarrow> sf" where
  "clearContainers s = clearContainers_loop (tbl_keys (m_containers s)) s"

definition clearAllContainers :: "sf \<Rightarrow> sf" where
  "clearAllContainers s = s\<lparr>m_containers := []\<rparr>"

end
