(* ===== verification/Files.thy ===== *)
theory Files
  imports Containers
begin

text \<open>
  The cache of files (\<open>FileContext\<close>). A file is found by the id of its container followed by its
  path; the pointer a function returns is that key.
\<close>

definition file_key :: "string \<Rightarrow> string \<Rightarrow> string" where
  "file_key container_id path = container_id @ path"

definition createFile ::
  "inspector \<Rightarrow> sinsp_evt \<Rightarrow> sinsp_threadinfo \<Rightarrow> string \<Rightarrow> char \<Rightarrow> SFObjectState \<Rightarrow> string \<Rightarrow> sf \<Rightarrow> FileObj \<times> sf" where
  "createFile I ev ti path typechar state key s =
     (let mt = main_thread_or_self I ti in
      case getContainer I mt s of
        (cont, s1) \<Rightarrow>
          (\<lparr>f_written = False, f_refs = 0, f_key = key,
            f_file = \<lparr>file_state = state, file_oid = generateFOID I key, file_ts = ev_ts ev,
                      file_restype = typechar, file_path = path, file_containerId = cont\<rparr>\<rparr>, s1))"

text \<open>Write the record of the file at \<open>key\<close> and mark the file as written.\<close>

definition write_file_obj :: "inspector \<Rightarrow> string \<Rightarrow> FileObj \<Rightarrow> sf \<Rightarrow> sf" where
  "write_file_obj I key f s =
     (let s1 = writeFile I (f_file f) s in
      s1\<lparr>m_files := AList.update key (f\<lparr>f_written := True\<rparr>) (m_files s1)\<rparr>)"

definition file_reup :: "FileObj \<Rightarrow> FileObj" where
  "file_reup f = f\<lparr>f_file := (f_file f)\<lparr>file_state := REUP\<rparr>\<rparr>"

text \<open>\<open>getFile\<close> of an event: the key of the file, and whether it was created now.\<close>

definition getFile ::
  "inspector \<Rightarrow> sinsp_evt \<Rightarrow> sinsp_threadinfo \<Rightarrow> string \<Rightarrow> char \<Rightarrow> SFObjectState \<Rightarrow> sf \<Rightarrow> (string \<times> bool) \<times> sf" where
  "getFile I ev ti path typechar state s =
     (let key = file_key (ti_container_id ti) path in
      case find_file s key of
        Some f \<Rightarrow> (if f_written f then ((key, False), s)
                  else ((key, False), write_file_obj I key (file_reup f) s))
      | None \<Rightarrow>
          (case createFile I ev ti path typechar state key s of
             (f, s1) \<Rightarrow> ((key, True), write_file_obj I key f s1)))"

text \<open>
  \<open>getFile\<close> by key and \<open>exportFile\<close>, which have the same body: the file object, or \<open>None\<close> for the
  null pointer.
\<close>

definition getFile_key :: "inspector \<Rightarrow> string \<Rightarrow> sf \<Rightarrow> FileObj option \<times> sf" where
  "getFile_key I key s =
     (case find_file s key of
        Some f \<Rightarrow> (if \<not> f_written f
                  then (Some ((file_reup f)\<lparr>f_written := True\<rparr>), write_file_obj I key (file_reup f) s)
                  else (Some f, s))
      | None \<Rightarrow> (None, s))"

definition exportFile :: "inspector \<Rightarrow> string \<Rightarrow> sf \<Rightarrow> FileObj option \<times> sf" where
  "exportFile I key s =
     (case find_file s key of
        Some f \<Rightarrow> (if \<not> f_written f
                  then (Some ((file_reup f)\<lparr>f_written := True\<rparr>), write_file_obj I key (file_reup f) s)
                  else (Some f, s))
      | None \<Rightarrow> (None, s))"

definition file_incr :: "string \<Rightarrow> sf \<Rightarrow> sf" where
  "file_incr key s =
     (case find_file s key of
        None \<Rightarrow> s
      | Some f \<Rightarrow> s\<lparr>m_files := AList.update key (f\<lparr>f_refs := f_refs f + 1\<rparr>) (m_files s)\<rparr>)"

definition file_decr :: "string \<Rightarrow> sf \<Rightarrow> sf" where
  "file_decr key s =
     (case find_file s key of
        None \<Rightarrow> s
      | Some f \<Rightarrow> s\<lparr>m_files := AList.update key (f\<lparr>f_refs := f_refs f - 1\<rparr>) (m_files s)\<rparr>)"

fun clearFiles_loop :: "(string, FileObj) table \<Rightarrow> (string, FileObj) table" where
  "clearFiles_loop [] = []"
| "clearFiles_loop ((key, f) # t) =
     (if f_refs f = 0 then clearFiles_loop t
      else (key, f\<lparr>f_written := False\<rparr>) # clearFiles_loop t)"

definition clearFiles :: "sf \<Rightarrow> sf" where
  "clearFiles s = s\<lparr>m_files := clearFiles_loop (m_files s)\<rparr>"

definition clearAllFiles :: "sf \<Rightarrow> sf" where
  "clearAllFiles s = s\<lparr>m_files := []\<rparr>"

end
