(* ===== verification/Processes.thy ===== *)
theory Processes
  imports Files
begin

text \<open>
  The cache of processes (\<open>ProcessContext\<close>): creation from a thread, the record of a process with
  those of its ancestors, the set of pending process flows, the queue of processes to delete, and
  the purge at a rotation. A process object is the entry of the table at its OID; a pointer to it
  is the OID.
\<close>

section \<open>Access to a process\<close>

definition put_proc :: "OID \<Rightarrow> ProcessObj \<Rightarrow> sf \<Rightarrow> sf" where
  "put_proc oid p s = s\<lparr>m_procs := AList.update oid p (m_procs s)\<rparr>"

text \<open>Read and write through a pointer to a process; the pointer must be to an object of the table.\<close>

definition deref_proc :: "OID \<Rightarrow> sf \<Rightarrow> (ProcessObj \<times> sf) option" where
  "deref_proc oid s = map_option (\<lambda>p. (p, s)) (find_proc s oid)"

definition upd_proc :: "OID \<Rightarrow> (ProcessObj \<Rightarrow> ProcessObj) \<Rightarrow> sf \<Rightarrow> (unit \<times> sf) option" where
  "upd_proc oid f s = map_option (\<lambda>p. ((), put_proc oid (f p) s)) (find_proc s oid)"

definition getProcess_oid :: "OID \<Rightarrow> sf \<Rightarrow> ProcessObj option" where
  "getProcess_oid oid s = find_proc s oid"

text \<open>The first process of the table, in its order, that has the given pid.\<close>

fun getProcess_pid_loop :: "int \<Rightarrow> (OID, ProcessObj) table \<Rightarrow> OID option" where
  "getProcess_pid_loop pid [] = None"
| "getProcess_pid_loop pid ((oid, p) # t) = (if hpid oid = pid then Some oid else getProcess_pid_loop pid t)"

definition getProcess_pid :: "int \<Rightarrow> sf \<Rightarrow> OID option" where
  "getProcess_pid pid s = getProcess_pid_loop pid (m_procs s)"

section \<open>Creation and update\<close>

definition exe_name :: "sinsp_threadinfo \<Rightarrow> string" where
  "exe_name mt = (if ti_exepath mt = '''' \<or> ti_exepath mt = ''<NA>'' then ti_exe mt else ti_exepath mt)"

fun exe_args :: "nat \<Rightarrow> string list \<Rightarrow> string \<Rightarrow> string" where
  "exe_args i [] acc = acc"
| "exe_args i (a # as) acc = exe_args (Suc i) as (if i = 0 then acc @ a else acc @ '' '' @ a)"

text \<open>The main thread of a thread that is not one, if it is known.\<close>

definition to_main :: "inspector \<Rightarrow> sinsp_threadinfo \<Rightarrow> sinsp_threadinfo" where
  "to_main I ti =
     (if ti_is_main ti then ti
      else case get_main_thread I ti of None \<Rightarrow> ti | Some m \<Rightarrow> m)"

definition parent_oid :: "inspector \<Rightarrow> sinsp_threadinfo \<Rightarrow> sf \<Rightarrow> OID option" where
  "parent_oid I mt s =
     (case get_parent_thread I mt of
        Some parent \<Rightarrow> Some (thread_oid (to_main I parent))
      | None \<Rightarrow>
          (if ti_ptid mt \<noteq> -1 then getProcess_pid (ti_ptid mt) s else None))"

definition createProcess ::
  "inspector \<Rightarrow> sinsp_threadinfo \<Rightarrow> sinsp_evt \<Rightarrow> SFObjectState \<Rightarrow> sf \<Rightarrow> ProcessObj \<times> sf" where
  "createProcess I ti ev state s =
     (let mt = main_thread_or_self I ti in
      case getContainer I ti s of
        (cont, s1) \<Rightarrow>
          (ProcessObj_new
             \<lparr>proc_state = state, proc_oid = thread_oid mt, proc_poid = parent_oid I mt s,
              proc_ts = ev_ts ev, proc_exe = exe_name mt, proc_exeArgs = exe_args 0 (ti_args mt) '''',
              proc_uid = int32 (ti_uid mt), proc_userName = ti_user mt,
              proc_gid = int32 (ti_gid mt), proc_groupName = ti_group mt, proc_tty = ti_tty mt,
              proc_containerId = cont, proc_entry = (ti_vpid mt = 1),
              proc_cwd = ti_cwd mt, proc_env = ti_env mt\<rparr>,
           (case cont of None \<Rightarrow> s1 | Some c \<Rightarrow> cont_incr c s1)))"

definition updateProcess :: "inspector \<Rightarrow> sinsp_threadinfo \<Rightarrow> sinsp_evt \<Rightarrow> SFObjectState \<Rightarrow> Process \<Rightarrow> Process" where
  "updateProcess I ti ev state proc =
     (let mt = main_thread_or_self I ti in
      proc\<lparr>proc_state := state, proc_ts := ev_ts ev, proc_exe := exe_name mt,
           proc_exeArgs := exe_args 0 (ti_args mt) '''',
           proc_uid := int32 (ti_uid mt), proc_gid := int32 (ti_gid mt),
           proc_userName := ti_user mt, proc_groupName := ti_group mt\<rparr>)"

definition proc_reup :: "ProcessObj \<Rightarrow> ProcessObj" where
  "proc_reup p = p\<lparr>p_proc := (p_proc p)\<lparr>proc_state := REUP\<rparr>\<rparr>"

definition reupContainer :: "inspector \<Rightarrow> sinsp_threadinfo \<Rightarrow> ProcessObj \<Rightarrow> sf \<Rightarrow> ProcessObj \<times> sf" where
  "reupContainer I ti p s =
     (let cid = (case proc_containerId (p_proc p) of None \<Rightarrow> '''' | Some c \<Rightarrow> c);
          s1 = (if cid \<noteq> [] then cont_decr cid s else s)
      in case getContainer I ti s1 of
           (cont, s2) \<Rightarrow>
             (p\<lparr>p_proc := (p_proc p)\<lparr>proc_containerId := cont\<rparr>\<rparr>,
              (case cont of None \<Rightarrow> s2 | Some c \<Rightarrow> cont_incr c s2)))"

section \<open>The process of an event, with its ancestors\<close>

text \<open>
  The vector \<open>processes\<close> holds pointers: to an object of the table, or to a new object, which the
  table receives when the vector is written.
\<close>

datatype procref = Old OID | New ProcessObj

fun ref_oid :: "procref \<Rightarrow> OID" where
  "ref_oid (Old oid) = oid"
| "ref_oid (New p) = proc_oid (p_proc p)"

definition add_child :: "OID \<Rightarrow> ProcessObj \<Rightarrow> ProcessObj" where
  "add_child oid p = p\<lparr>children := List.insert oid (children p)\<rparr>"

text \<open>
  The first loop of \<open>getProcess\<close>, up the chain of parent threads: \<open>ct\<close> and \<open>mt\<close> are the variables
  of that name, \<open>ps\<close> the vector. A chain that never ends gives no result.
\<close>

partial_function (option) ancestor_loop ::
  "inspector \<Rightarrow> sinsp_evt \<Rightarrow> sinsp_threadinfo \<Rightarrow> sinsp_threadinfo option \<Rightarrow> procref list \<Rightarrow> sf \<Rightarrow>
   ((sinsp_threadinfo \<times> sinsp_threadinfo option \<times> procref list) \<times> sf) option" where
  "ancestor_loop I ev ct mt ps s =
     (case mt of
        None \<Rightarrow> Some ((ct, None, ps), s)
      | Some m0 \<Rightarrow>
          (if ti_tid m0 = -1 then Some ((ct, Some m0, ps), s)
           else
             (let m = to_main I m0 in
              if ti_clone_ts m = 0 \<and> ti_pid m = 0
              then ancestor_loop I ev m (get_parent_thread I m) ps s
              else
                (let key = thread_oid m in
                 case find_proc s key of
                   Some p \<Rightarrow>
                     (if p_written p then Some ((ct, Some m, ps), s)
                      else case reupContainer I m (proc_reup p) s of
                        (p1, s1) \<Rightarrow>
                          ancestor_loop I ev m (get_parent_thread I m) (ps @ [Old key])
                            (put_proc key (add_child (ref_oid (last ps)) p1) s1))
                 | None \<Rightarrow>
                     (case createProcess I m ev REUP s of
                        (p1, s1) \<Rightarrow>
                          ancestor_loop I ev m (get_parent_thread I m)
                            (ps @ [New (add_child (ref_oid (last ps)) p1)]) s1)))))"

declare ancestor_loop.simps [code]

text \<open>The second loop, up the parents recorded in the table.\<close>

partial_function (option) pid_loop ::
  "OID \<Rightarrow> OID option \<Rightarrow> procref list \<Rightarrow> sf \<Rightarrow> (procref list \<times> sf) option" where
  "pid_loop o1 prt ps s =
     (case prt of
        None \<Rightarrow> Some (ps, s)
      | Some oid \<Rightarrow>
          (case find_proc s oid of
             None \<Rightarrow> Some (ps, s)
           | Some p \<Rightarrow>
               (let ps1 = (if \<not> p_written p then ps @ [Old oid] else ps);
                    s1 = put_proc oid (add_child o1 p) s
                in case proc_poid (p_proc p) of
                     None \<Rightarrow> Some (ps1, s1)
                   | Some poid \<Rightarrow> pid_loop oid (Some poid) ps1 s1)))"

declare pid_loop.simps [code]

text \<open>The last loop: the processes are written, the oldest ancestor first.\<close>

fun write_procs :: "inspector \<Rightarrow> procref list \<Rightarrow> sf \<Rightarrow> (unit \<times> sf) option" where
  "write_procs I [] s = Some ((), s)"
| "write_procs I (r # rs) s =
     (case (case r of New p \<Rightarrow> Some p | Old oid \<Rightarrow> find_proc s oid) of
        None \<Rightarrow> None
      | Some p \<Rightarrow>
          write_procs I rs (put_proc (ref_oid r) (p\<lparr>p_written := True\<rparr>) (writeProcess I (p_proc p) s)))"

text \<open>
  What \<open>getProcess\<close> does once it has the process of the event: collect the ancestors that the
  output does not have yet, through the threads or else through the table, and write them.
\<close>

definition finish_process :: "inspector \<Rightarrow> sinsp_evt \<Rightarrow> sinsp_threadinfo \<Rightarrow> procref \<Rightarrow> sf \<Rightarrow> (unit \<times> sf) option" where
  "finish_process I ev mt0 r s = do {
     ((ct, mt, ps), s) \<leftarrow> ancestor_loop I ev mt0 (get_parent_thread I mt0) [r] s;
     (ps, s) \<leftarrow> (if mt = None \<and> ti_ptid ct \<noteq> -1
                 then pid_loop (thread_oid ct) (getProcess_pid (ti_ptid ct) s) ps s
                 else Some (ps, s));
     write_procs I (rev ps) s
   }"

text \<open>\<open>getProcess\<close> of an event: the process and whether it was created now.\<close>

definition getProcess :: "inspector \<Rightarrow> sinsp_evt \<Rightarrow> SFObjectState \<Rightarrow> sf \<Rightarrow> ((OID \<times> bool) \<times> sf) option" where
  "getProcess I ev state s =
     (case ev_tinfo ev of
        None \<Rightarrow> None
      | Some ti \<Rightarrow>
          (let mt = main_thread_or_self I ti; key = thread_oid mt in
           case find_proc s key of
             Some p \<Rightarrow>
               (if p_written p then Some ((key, False), s)
                else case reupContainer I ti (proc_reup p) s of
                  (p1, s1) \<Rightarrow> do {
                    (u, s2) \<leftarrow> finish_process I ev mt (Old key) (put_proc key p1 s1);
                    Some ((key, False), s2)
                  })
           | None \<Rightarrow>
               (case createProcess I ti ev state s of
                  (p1, s1) \<Rightarrow> do {
                    (u, s2) \<leftarrow> finish_process I ev mt (New p1) s1;
                    Some ((proc_oid (p_proc p1), True), s2)
                  })))"

section \<open>Export\<close>

text \<open>\<open>exportProcess\<close>: the object, or \<open>None\<close> for the null pointer.\<close>

definition exportProcess :: "inspector \<Rightarrow> OID \<Rightarrow> sf \<Rightarrow> ProcessObj option \<times> sf" where
  "exportProcess I oid s =
     (case find_proc s oid of
        None \<Rightarrow> (None, s)
      | Some p \<Rightarrow>
          (let s1 = (case proc_containerId (p_proc p) of None \<Rightarrow> s | Some c \<Rightarrow> snd (exportContainer I c s))
           in if \<not> p_written p
              then (Some (p\<lparr>p_written := True\<rparr>),
                    put_proc oid (p\<lparr>p_written := True\<rparr>) (writeProcess I (p_proc p) s1))
              else (Some p, s1)))"

text \<open>A walk over the recorded parents; a cycle among them gives no result.\<close>

partial_function (option) isAncestor_loop :: "OID \<Rightarrow> OID option \<Rightarrow> sf \<Rightarrow> bool option" where
  "isAncestor_loop oid poid s =
     (case poid of
        None \<Rightarrow> Some False
      | Some key \<Rightarrow>
          (case find_proc s key of
             None \<Rightarrow> Some False
           | Some p \<Rightarrow> (if oid = key then Some True else isAncestor_loop oid (proc_poid (p_proc p)) s)))"

declare isAncestor_loop.simps [code]

definition isAncestor :: "OID \<Rightarrow> Process \<Rightarrow> sf \<Rightarrow> bool option" where
  "isAncestor oid proc s = isAncestor_loop oid (proc_poid proc) s"

definition getNumNetworkFlows :: "sf \<Rightarrow> nat" where
  "getNumNetworkFlows s = fold (\<lambda>e total. total + length (netflows (snd e))) (m_procs s) 0"

definition getNumFileFlows :: "sf \<Rightarrow> nat" where
  "getNumFileFlows s = fold (\<lambda>e total. total + length (fileflows (snd e))) (m_procs s) 0"

section \<open>The set of pending process flows\<close>

text \<open>
  The elements of the set are pointers to processes, ordered by the export time of their process
  flow; a comparison with a process that has none follows a null pointer.
\<close>

definition pf_key :: "sf \<Rightarrow> OID \<Rightarrow> int" where
  "pf_key s oid =
     (case find_proc s oid of
        None \<Rightarrow> 0
      | Some p \<Rightarrow> (case pfo p of None \<Rightarrow> 0 | Some f \<Rightarrow> exportTime f))"

definition pf_live :: "sf \<Rightarrow> OID list \<Rightarrow> bool" where
  "pf_live s = list_all (\<lambda>oid. case find_proc s oid of None \<Rightarrow> False | Some p \<Rightarrow> pfo p \<noteq> None)"

definition pfset_insert :: "OID \<Rightarrow> sf \<Rightarrow> (unit \<times> sf) option" where
  "pfset_insert oid s =
     (if pf_live s (oid # m_pfSet s) then Some ((), s\<lparr>m_pfSet := ms_insert (pf_key s) oid (m_pfSet s)\<rparr>)
      else None)"

definition pf_same :: "sf \<Rightarrow> OID \<Rightarrow> OID \<Rightarrow> bool" where
  "pf_same s a b =
     (case (find_proc s a, find_proc s b) of (Some p, Some q) \<Rightarrow> process_eq p q | _ \<Rightarrow> False)"

text \<open>An empty set is not compared with the process sought.\<close>

definition removeProcessFromSet :: "OID \<Rightarrow> sf \<Rightarrow> (int \<times> sf) option" where
  "removeProcessFromSet oid s =
     (case find_proc s oid of
        None \<Rightarrow> None
      | Some p \<Rightarrow>
          (if m_pfSet s = [] \<or> pf_live s (oid # m_pfSet s) then
             (case ms_remove (pf_key s) (\<lambda>o2. pf_same s o2 oid) oid (m_pfSet s) of
                (found, q) \<Rightarrow>
                  Some ((if found then 1 else 0), put_proc oid (p\<lparr>pfo := None\<rparr>) (s\<lparr>m_pfSet := q\<rparr>)))
           else None))"

section \<open>Deletion\<close>

definition markForDeletion :: "inspector \<Rightarrow> OID \<Rightarrow> sf \<Rightarrow> sf" where
  "markForDeletion I oid s =
     (case getCurrentTime I s of
        (now, s1) \<Rightarrow> s1\<lparr>m_delProcQue := m_delProcQue s1 @ [\<lparr>o_exportTime = now, o_oid = oid\<rparr>]\<rparr>)"

definition erase_child :: "OID \<Rightarrow> ProcessObj \<Rightarrow> ProcessObj" where
  "erase_child oid p = p\<lparr>children := removeAll oid (children p)\<rparr>"

definition deleteProcess :: "OID \<Rightarrow> sf \<Rightarrow> (unit \<times> sf) option" where
  "deleteProcess oid s =
     (case find_proc s oid of
        None \<Rightarrow> None
      | Some p \<Rightarrow>
          (let s1 = (case proc_poid (p_proc p) of
                       None \<Rightarrow> s
                     | Some key \<Rightarrow> (case find_proc s key of
                                     None \<Rightarrow> s
                                   | Some q \<Rightarrow> put_proc key (erase_child oid q) s));
               s2 = (case proc_containerId (p_proc p) of None \<Rightarrow> s1 | Some c \<Rightarrow> snd (derefContainer c s1))
           in do {
             (u, s3) \<leftarrow> (if pfo p \<noteq> None
                         then do { (n, s3) \<leftarrow> removeProcessFromSet oid s2; Some ((), s3) }
                         else Some ((), s2));
             Some ((), s3\<lparr>m_procs := AList.delete oid (m_procs s3)\<rparr>)
           }))"

definition PROC_DEL_EXPIRED :: int where
  "PROC_DEL_EXPIRED = 1"

text \<open>
  The loop of \<open>checkForDeletion\<close>, with the iterator as an index \<open>i\<close> into the queue. An erase moves
  the iterator to the next element, and the \<open>++it\<close> of the loop past it; past the end, the
  doubly linked list of libstdc++ is back at its first element.
\<close>

definition erase_next :: "nat \<Rightarrow> nat \<Rightarrow> nat" where
  "erase_next i len = (if i < len then Suc i else 0)"

function del_loop :: "int \<Rightarrow> nat \<Rightarrow> sf \<Rightarrow> (unit \<times> sf) option" where
  "del_loop curTime i s =
     (if i < length (m_delProcQue s) then
        (let e = m_delProcQue s ! i in
         if difftime curTime (o_exportTime e) \<ge> PROC_DEL_EXPIRED then do {
           (u, s1) \<leftarrow> (case find_proc s (o_oid e) of
                         None \<Rightarrow> Some ((), s)
                       | Some p \<Rightarrow> deleteProcess (o_oid e) s);
           (let q = take i (m_delProcQue s) @ drop (Suc i) (m_delProcQue s) in
            del_loop curTime (erase_next i (length q)) (s1\<lparr>m_delProcQue := q\<rparr>))
         }
         else Some ((), s))
      else Some ((), s))"
  by pat_completeness auto
termination by (relation "measure (\<lambda>(c, i, s). length (m_delProcQue s))") auto

declare del_loop.simps [simp del]

definition checkForDeletion :: "inspector \<Rightarrow> sf \<Rightarrow> (unit \<times> sf) option" where
  "checkForDeletion I s =
     (case getCurrentTime I s of
        (curTime, s1) \<Rightarrow>
          (if difftime curTime (m_delProcTime s1) \<le> PROC_DEL_EXPIRED then Some ((), s1)
           else do {
             (u, s2) \<leftarrow> del_loop curTime 0 s1;
             (case getCurrentTime I s2 of (t, s3) \<Rightarrow> Some ((), s3\<lparr>m_delProcTime := t\<rparr>))
           }))"

section \<open>The purge at a rotation\<close>

definition proc_idle :: "ProcessObj \<Rightarrow> bool" where
  "proc_idle p = (netflows p = [] \<and> fileflows p = [] \<and> children p = [] \<and> pfo p = None)"

text \<open>
  \<open>clearProcesses\<close> takes an idle process out of the children of its parent, and goes on with the
  parent when that makes it idle.
\<close>

partial_function (option) unlink_loop :: "OID \<Rightarrow> OID option \<Rightarrow> sf \<Rightarrow> (unit \<times> sf) option" where
  "unlink_loop cur poid s =
     (case poid of
        None \<Rightarrow> Some ((), s)
      | Some key \<Rightarrow>
          (case find_proc s key of
             None \<Rightarrow> Some ((), s)
           | Some q \<Rightarrow>
               (let q1 = erase_child cur q; s1 = put_proc key q1 s in
                if proc_idle q1 then unlink_loop key (proc_poid (p_proc q1)) s1
                else Some ((), s1))))"

declare unlink_loop.simps [code]

definition drop_proc :: "OID \<Rightarrow> ProcessObj \<Rightarrow> sf \<Rightarrow> sf" where
  "drop_proc oid p s =
     (let s1 = (case proc_containerId (p_proc p) of None \<Rightarrow> s | Some c \<Rightarrow> snd (derefContainer c s))
      in s1\<lparr>m_procs := AList.delete oid (m_procs s1)\<rparr>)"

fun clearProcesses_loop1 :: "OID list \<Rightarrow> sf \<Rightarrow> (unit \<times> sf) option" where
  "clearProcesses_loop1 [] s = Some ((), s)"
| "clearProcesses_loop1 (oid # oids) s =
     (case find_proc s oid of
        None \<Rightarrow> clearProcesses_loop1 oids s
      | Some p \<Rightarrow>
          (if proc_idle p then do {
             (u, s1) \<leftarrow> unlink_loop oid (proc_poid (p_proc p)) s;
             clearProcesses_loop1 oids (drop_proc oid p s1)
           }
           else clearProcesses_loop1 oids (put_proc oid (p\<lparr>p_written := False\<rparr>) s)))"

fun clearProcesses_loop2 :: "OID list \<Rightarrow> sf \<Rightarrow> sf" where
  "clearProcesses_loop2 [] s = s"
| "clearProcesses_loop2 (oid # oids) s =
     (case find_proc s oid of
        None \<Rightarrow> clearProcesses_loop2 oids s
      | Some p \<Rightarrow> clearProcesses_loop2 oids (if proc_idle p then drop_proc oid p s else s))"

definition clearProcesses :: "sf \<Rightarrow> (unit \<times> sf) option" where
  "clearProcesses s = do {
     (u, s) \<leftarrow> clearProcesses_loop1 (tbl_keys (m_procs s)) s;
     Some ((), clearProcesses_loop2 (tbl_keys (m_procs s)) s)
   }"

section \<open>The end of the run\<close>

partial_function (option) ancestors_unwritten :: "OID option \<Rightarrow> OID list \<Rightarrow> sf \<Rightarrow> OID list option" where
  "ancestors_unwritten poid ps s =
     (case poid of
        None \<Rightarrow> Some ps
      | Some key \<Rightarrow>
          (case find_proc s key of
             None \<Rightarrow> Some ps
           | Some q \<Rightarrow>
               ancestors_unwritten (proc_poid (p_proc q)) (if \<not> p_written q then ps @ [key] else ps) s))"

declare ancestors_unwritten.simps [code]

fun write_and_export :: "inspector \<Rightarrow> OID list \<Rightarrow> sf \<Rightarrow> (unit \<times> sf) option" where
  "write_and_export I [] s = Some ((), s)"
| "write_and_export I (oid # oids) s =
     (case find_proc s oid of
        None \<Rightarrow> None
      | Some p \<Rightarrow> do {
          (u, s1) \<leftarrow> (case proc_containerId (p_proc p) of
                       None \<Rightarrow> Some (False, s)
                     | Some c \<Rightarrow> (if ccxt_live s then Some (exportContainer I c s) else None));
          write_and_export I oids (put_proc oid (p\<lparr>p_written := True\<rparr>) (writeProcess I (p_proc p) s1))
        })"

definition writeProcessAndAncestors :: "inspector \<Rightarrow> OID \<Rightarrow> sf \<Rightarrow> (unit \<times> sf) option" where
  "writeProcessAndAncestors I oid s =
     (case find_proc s oid of
        None \<Rightarrow> None
      | Some p \<Rightarrow>
          (case ancestors_unwritten (proc_poid (p_proc p)) [oid] s of
             None \<Rightarrow> None
           | Some ps \<Rightarrow> write_and_export I (rev ps) s))"

text \<open>The flows of a process that are still pending are written, marked as truncated, and freed.\<close>

fun flush_netflows :: "inspector \<Rightarrow> Process \<Rightarrow> ref list \<Rightarrow> sf \<Rightarrow> (unit \<times> sf) option" where
  "flush_netflows I p [] s = Some ((), s)"
| "flush_netflows I p (r # rs) s = do {
     (nfo, s) \<leftarrow> deref_net r s;
     (case getSinspTime I s of
        (t, s) \<Rightarrow>
          (let nf = (netflow nfo)\<lparr>nf_opFlags := or (nf_opFlags (netflow nfo)) (op_val OP_TRUNCATE), nf_endTs := t\<rparr>
           in do {
             (u, s) \<leftarrow> free r (writeNetFlow I nf (Some p) s);
             flush_netflows I p rs s
           }))
   }"

fun flush_fileflows :: "inspector \<Rightarrow> Process \<Rightarrow> ref list \<Rightarrow> sf \<Rightarrow> (unit \<times> sf) option" where
  "flush_fileflows I p [] s = Some ((), s)"
| "flush_fileflows I p (r # rs) s = do {
     (ffo, s) \<leftarrow> deref_file r s;
     (case getSinspTime I s of
        (t, s) \<Rightarrow>
          (let ff = (fileflow ffo)\<lparr>ff_opFlags := or (ff_opFlags (fileflow ffo)) (op_val OP_TRUNCATE), ff_endTs := t\<rparr>
           in case exportFile I (filekey ffo) s of
                (None, s) \<Rightarrow> None
              | (Some file, s) \<Rightarrow> do {
                  (u, s) \<leftarrow> free r (writeFileFlow I ff (Some p) (Some (f_file file)) s);
                  flush_fileflows I p rs s
                }))
   }"

definition flush_pfo :: "inspector \<Rightarrow> OID \<Rightarrow> ProcessObj \<Rightarrow> sf \<Rightarrow> sf" where
  "flush_pfo I oid p s =
     (case pfo p of
        None \<Rightarrow> s
      | Some f \<Rightarrow>
          (case getSinspTime I s of
             (t, s) \<Rightarrow>
               (let pf = (procflow f)\<lparr>pf_opFlags := or (pf_opFlags (procflow f)) (op_val OP_TRUNCATE), pf_endTs := t\<rparr>
                in put_proc oid (p\<lparr>pfo := None\<rparr>) (writeProcessFlow I pf (Some (p_proc p)) s))))"

fun clearAllProcesses_loop :: "inspector \<Rightarrow> OID list \<Rightarrow> sf \<Rightarrow> (unit \<times> sf) option" where
  "clearAllProcesses_loop I [] s = Some ((), s)"
| "clearAllProcesses_loop I (oid # oids) s = do {
     (p, s) \<leftarrow> deref_proc oid s;
     (u, s) \<leftarrow> (if (netflows p \<noteq> [] \<or> fileflows p \<noteq> [] \<or> pfo p \<noteq> None) \<and> \<not> p_written p
                then writeProcessAndAncestors I oid s else Some ((), s));
     (p, s) \<leftarrow> deref_proc oid s;
     (u, s) \<leftarrow> flush_netflows I (p_proc p) (map snd (netflows p)) s;
     (u, s) \<leftarrow> flush_fileflows I (p_proc p) (map snd (fileflows p)) s;
     clearAllProcesses_loop I oids (flush_pfo I oid p s)
   }"

function clear_queue :: "nat \<Rightarrow> OIDObj list \<Rightarrow> OIDObj list" where
  "clear_queue i q =
     (if i < length q then
        (let q1 = take i q @ drop (Suc i) q in clear_queue (erase_next i (length q1)) q1)
      else q)"
  by pat_completeness auto
termination by (relation "measure (\<lambda>(i, q). length q)") auto

declare clear_queue.simps [simp del]

text \<open>\<open>clearAllProcesses\<close>, the destructor of the context, deletes every process object.\<close>

definition clearAllProcesses :: "inspector \<Rightarrow> sf \<Rightarrow> (unit \<times> sf) option" where
  "clearAllProcesses I s = do {
     (u, s) \<leftarrow> clearAllProcesses_loop I (tbl_keys (m_procs s)) s;
     Some ((), s\<lparr>m_procs := [], m_delProcQue := clear_queue 0 (m_delProcQue s)\<rparr>)
   }"

end
