(* ===== verification/NetFlow.thy ===== *)
theory NetFlow
  imports Processes
begin

text \<open>
  Network flows (\<open>NetworkFlowProcessor\<close>). A flow lives on the heap; the table of its process and the
  set of pending flows both hold a pointer to it, and every operation keeps the two in step.
\<close>

section \<open>Keys and records\<close>

fun getProtocol :: "scap_l4_proto \<Rightarrow> int" where
  "getProtocol SCAP_L4_TCP = 6"
| "getProtocol SCAP_L4_UDP = 17"
| "getProtocol SCAP_L4_ICMP = 1"
| "getProtocol SCAP_L4_RAW = 254"
| "getProtocol SCAP_L4_other = -1"

definition canonicalizeKey_fd :: "sinsp_fdinfo \<Rightarrow> int \<Rightarrow> int \<Rightarrow> NFKey" where
  "canonicalizeKey_fd fdinfo tid fd =
     \<lparr>k_tid = word_of_int tid, k_ip1 = fd_sip fdinfo, k_port1 = fd_sport fdinfo,
      k_ip2 = fd_dip fdinfo, k_port2 = fd_dport fdinfo, k_fd = word_of_int fd\<rparr>"

definition canonicalizeKey :: "NetworkFlow \<Rightarrow> NFKey" where
  "canonicalizeKey nf =
     \<lparr>k_tid = word_of_int (nf_tid nf), k_ip1 = nf_sip nf, k_port1 = ucast (nf_sport nf),
      k_ip2 = nf_dip nf, k_port2 = ucast (nf_dport nf), k_fd = nf_fd nf\<rparr>"

definition populateNetFlow :: "OpFlags \<Rightarrow> sinsp_evt \<Rightarrow> sinsp_threadinfo \<Rightarrow> sinsp_fdinfo \<Rightarrow> OID \<Rightarrow> NetworkFlow" where
  "populateNetFlow flag ev ti fdinfo oid =
     \<lparr>nf_procOID = oid, nf_ts = ev_ts ev, nf_tid = ti_tid ti, nf_opFlags = op_val flag, nf_endTs = 0,
      nf_sip = fd_sip fdinfo, nf_sport = ucast (fd_sport fdinfo),
      nf_dip = fd_dip fdinfo, nf_dport = ucast (fd_dport fdinfo),
      nf_proto = getProtocol (fd_l4proto fdinfo), nf_fd = word_of_int (ev_fdnum ev),
      nf_numRRecvOps = 0, nf_numWSendOps = 0, nf_numRRecvBytes = 0, nf_numWSendBytes = 0\<rparr>"

text \<open>What an operation adds to the counters of a flow; the result of the system call is cut to an \<open>int\<close>.\<close>

definition count_op :: "OpFlags \<Rightarrow> sinsp_evt \<Rightarrow> NetworkFlow \<Rightarrow> NetworkFlow" where
  "count_op flag ev nf =
     (let res = int32 (getSyscallResult ev) in
      if flag = OP_WRITE_SEND then
        nf\<lparr>nf_numWSendOps := nf_numWSendOps nf + 1,
           nf_numWSendBytes := nf_numWSendBytes nf + (if res > 0 then res else 0)\<rparr>
      else if flag = OP_READ_RECV then
        nf\<lparr>nf_numRRecvOps := nf_numRRecvOps nf + 1,
           nf_numRRecvBytes := nf_numRRecvBytes nf + (if res > 0 then res else 0)\<rparr>
      else nf)"

definition updateNetFlow :: "inspector \<Rightarrow> OpFlags \<Rightarrow> sinsp_evt \<Rightarrow> NetFlowObj \<Rightarrow> sf \<Rightarrow> NetFlowObj \<times> sf" where
  "updateNetFlow I flag ev nfo s =
     (case getCurrentTime I s of
        (now, s1) \<Rightarrow>
          (nfo\<lparr>lastUpdate := now,
               netflow := count_op flag ev
                 ((netflow nfo)\<lparr>nf_opFlags := or (nf_opFlags (netflow nfo)) (op_val flag)\<rparr>)\<rparr>, s1))"

section \<open>Removal\<close>

definition nf_same :: "sf \<Rightarrow> ref \<Rightarrow> ref \<Rightarrow> bool" where
  "nf_same s a b =
     (case (heap s a, heap s b) of (Some (Net m), Some (Net n)) \<Rightarrow> netflow_eq m n | _ \<Rightarrow> False)"

text \<open>
  \<open>removeNetworkFlowFromSet\<close> takes out of the set the first network flow that is equal to the one
  pointed to, by value, and deletes the one pointed to when it is asked to.
\<close>

definition removeNetworkFlowFromSet :: "ref \<Rightarrow> bool \<Rightarrow> sf \<Rightarrow> (int \<times> sf) option" where
  "removeNetworkFlowFromSet r deleteNetFlow s =
     (if m_dfSet s = [] \<or> df_live s (r # m_dfSet s) then
        (case ms_remove (df_key s) (\<lambda>r2. nf_same s r2 r) r (m_dfSet s) of
           (found, q) \<Rightarrow> do {
             (u, s1) \<leftarrow> (if deleteNetFlow then free r (s\<lparr>m_dfSet := q\<rparr>) else Some ((), s\<lparr>m_dfSet := q\<rparr>));
             Some ((if found then 1 else 0), s1)
           })
      else None)"

definition removeNetworkFlow_key :: "OID \<Rightarrow> ref \<Rightarrow> NFKey \<Rightarrow> sf \<Rightarrow> (unit \<times> sf) option" where
  "removeNetworkFlow_key oid r key s = do {
     (u, s) \<leftarrow> upd_proc oid (\<lambda>p. p\<lparr>netflows := AList.delete key (netflows p)\<rparr>) s;
     free r s
   }"

text \<open>
  The flows of the other threads of a process on the same connection. The first loop of
  \<open>removeAndWriteRelatedFlows\<close> takes them out of the table of the process, those that opened the
  connection in front; the second writes and deletes them.
\<close>

definition nf_related :: "NFKey \<Rightarrow> NFKey \<Rightarrow> bool" where
  "nf_related key k =
     (k_tid k \<noteq> k_tid key \<and> k_ip1 k = k_ip1 key \<and> k_port1 k = k_port1 key \<and>
      k_ip2 k = k_ip2 key \<and> k_port2 k = k_port2 key \<and> k_fd k = k_fd key)"

fun collect_nf :: "sf \<Rightarrow> NFKey \<Rightarrow> (NFKey, ref) table \<Rightarrow> ref list \<Rightarrow> ((NFKey, ref) table \<times> ref list) option" where
  "collect_nf s key [] acc = Some ([], acc)"
| "collect_nf s key ((k, r) # t) acc =
     (if nf_related key k then
        (case heap s r of
           Some (Net n) \<Rightarrow>
             (if and (nf_opFlags (netflow n)) (op_val OP_ACCEPT) \<noteq> 0 \<or>
                 and (nf_opFlags (netflow n)) (op_val OP_CONNECT) \<noteq> 0
              then collect_nf s key t (r # acc)
              else collect_nf s key t (acc @ [r]))
         | _ \<Rightarrow> None)
      else map_option (\<lambda>(t1, acc1). ((k, r) # t1, acc1)) (collect_nf s key t acc))"

fun write_related_nf :: "inspector \<Rightarrow> Process \<Rightarrow> int \<Rightarrow> ref list \<Rightarrow> sf \<Rightarrow> (unit \<times> sf) option" where
  "write_related_nf I p endTs [] s = Some ((), s)"
| "write_related_nf I p endTs (r # rs) s = do {
     (nfo, s) \<leftarrow> deref_net r s;
     (let nf = (netflow nfo)\<lparr>nf_endTs := endTs, nf_opFlags := or (nf_opFlags (netflow nfo)) (op_val OP_TRUNCATE)\<rparr>
      in do {
        (n, s) \<leftarrow> removeNetworkFlowFromSet r True
                   (writeNetFlow I nf (Some p) (put_flow r (Net (nfo\<lparr>netflow := nf\<rparr>)) s));
        write_related_nf I p endTs rs s
      })
   }"

definition removeAndWriteRelatedNF :: "inspector \<Rightarrow> OID \<Rightarrow> NFKey \<Rightarrow> int \<Rightarrow> sf \<Rightarrow> (unit \<times> sf) option" where
  "removeAndWriteRelatedNF I oid key endTs s = do {
     (p, s) \<leftarrow> deref_proc oid s;
     (case collect_nf s key (netflows p) [] of
        None \<Rightarrow> None
      | Some (t, rs) \<Rightarrow> write_related_nf I (p_proc p) endTs rs (put_proc oid (p\<lparr>netflows := t\<rparr>) s))
   }"

definition removeAndWriteNetworkFlow :: "inspector \<Rightarrow> OID \<Rightarrow> ref \<Rightarrow> NFKey \<Rightarrow> sf \<Rightarrow> (unit \<times> sf) option" where
  "removeAndWriteNetworkFlow I oid r key s = do {
     (nfo, s) \<leftarrow> deref_net r s;
     (p, s) \<leftarrow> deref_proc oid s;
     (n, s) \<leftarrow> removeNetworkFlowFromSet r False (writeNetFlow I (netflow nfo) (Some (p_proc p)) s);
     removeNetworkFlow_key oid r key s
   }"

section \<open>The handler\<close>

text \<open>
  A new flow that closes at once never reaches the tables: it is written and deleted.
\<close>

definition processNewNF :: "inspector \<Rightarrow> sinsp_evt \<Rightarrow> sinsp_threadinfo \<Rightarrow> sinsp_fdinfo \<Rightarrow> OID \<Rightarrow> OpFlags \<Rightarrow> NFKey \<Rightarrow> sf \<Rightarrow> (unit \<times> sf) option" where
  "processNewNF I ev ti fdinfo oid flag key s =
     (case getCurrentTime I s of
        (t1, s1) \<Rightarrow>
          (case getCurrentTime I s1 of
             (t2, s2) \<Rightarrow>
               (case updateNetFlow I flag ev
                       \<lparr>exportTime = t1, lastUpdate = t2, netflow = populateNetFlow flag ev ti fdinfo oid\<rparr> s2 of
                  (nfo, s3) \<Rightarrow>
                    (if flag \<noteq> OP_CLOSE then
                       (case alloc (Net nfo) s3 of
                          (r, s4) \<Rightarrow> do {
                            (u, s5) \<leftarrow> upd_proc oid (\<lambda>p. p\<lparr>netflows := AList.update key r (netflows p)\<rparr>) s4;
                            dfset_insert r s5
                          })
                     else do {
                       (u, s4) \<leftarrow> removeAndWriteRelatedNF I oid key (ev_ts ev) s3;
                       (p, s4) \<leftarrow> deref_proc oid s4;
                       Some ((), writeNetFlow I ((netflow nfo)\<lparr>nf_endTs := ev_ts ev\<rparr>) (Some (p_proc p)) s4)
                     }))))"

definition processExistingNF :: "inspector \<Rightarrow> sinsp_evt \<Rightarrow> OID \<Rightarrow> OpFlags \<Rightarrow> NFKey \<Rightarrow> ref \<Rightarrow> sf \<Rightarrow> (unit \<times> sf) option" where
  "processExistingNF I ev oid flag key r s = do {
     (nfo, s) \<leftarrow> deref_net r s;
     (case updateNetFlow I flag ev nfo s of
        (nfo1, s1) \<Rightarrow>
          (let s2 = put_flow r (Net nfo1) s1 in
           if flag = OP_CLOSE then do {
             (u, s3) \<leftarrow> removeAndWriteRelatedNF I oid key (ev_ts ev) s2;
             (nfo2, s3) \<leftarrow> deref_net r s3;
             removeAndWriteNetworkFlow I oid r key
               (put_flow r (Net (nfo2\<lparr>netflow := (netflow nfo2)\<lparr>nf_endTs := ev_ts ev\<rparr>\<rparr>)) s3)
           }
           else Some ((), s2)))
   }"

definition handleNetFlowEvent :: "inspector \<Rightarrow> sinsp_evt \<Rightarrow> OpFlags \<Rightarrow> sf \<Rightarrow> (int \<times> sf) option" where
  "handleNetFlowEvent I ev flag s =
     (case ev_fdinfo ev of
        None \<Rightarrow> Some (1, s)
      | Some fdinfo \<Rightarrow>
          (if \<not> (fd_is_ipv4 fdinfo \<or> fd_is_ipv6 fdinfo) then Some (1, s)
           else if fd_is_ipv6 fdinfo then Some (1, s)
           else do {
             ((oid, created), s) \<leftarrow> getProcess I ev REUP s;
             (case ev_tinfo ev of
                None \<Rightarrow> None
              | Some ti \<Rightarrow>
                  (let key = canonicalizeKey_fd fdinfo (ti_tid ti) (ev_fdnum ev) in do {
                     (p, s) \<leftarrow> deref_proc oid s;
                     (u, s) \<leftarrow> (case map_of (netflows p) key of
                                  None \<Rightarrow> processNewNF I ev ti fdinfo oid flag key s
                                | Some r \<Rightarrow> processExistingNF I ev oid flag key r s);
                     Some (0, s)
                   }))
           }))"

section \<open>Flows of a process or thread that ends, expired flows\<close>

fun nf_from_proc_loop :: "inspector \<Rightarrow> OID \<Rightarrow> int \<Rightarrow> NFKey list \<Rightarrow> int \<Rightarrow> sf \<Rightarrow> (int \<times> sf) option" where
  "nf_from_proc_loop I oid tid [] deleted s = Some (deleted, s)"
| "nf_from_proc_loop I oid tid (k # ks) deleted s = do {
     (p, s) \<leftarrow> deref_proc oid s;
     (case map_of (netflows p) k of
        None \<Rightarrow> nf_from_proc_loop I oid tid ks deleted s
      | Some r \<Rightarrow> do {
          (nfo, s) \<leftarrow> deref_net r s;
          (if tid = -1 \<or> tid = nf_tid (netflow nfo) then
             (case getSinspTime I s of
                (t, s) \<Rightarrow> do {
                  (u, s) \<leftarrow> Some ((), put_flow r (Net (nfo\<lparr>netflow := (netflow nfo)\<lparr>nf_endTs := t\<rparr>\<rparr>)) s);
                  (u, s) \<leftarrow> (if tid \<noteq> -1 then removeAndWriteRelatedNF I oid (canonicalizeKey (netflow nfo)) t s
                             else Some ((), s));
                  (nfo, s) \<leftarrow> deref_net r s;
                  (let nf = (netflow nfo)\<lparr>nf_opFlags := or (nf_opFlags (netflow nfo)) (op_val OP_TRUNCATE)\<rparr> in do {
                     (u, s) \<leftarrow> upd_proc oid (\<lambda>p. p\<lparr>netflows := AList.delete k (netflows p)\<rparr>)
                                (writeNetFlow I nf (Some (p_proc p)) (put_flow r (Net (nfo\<lparr>netflow := nf\<rparr>)) s));
                     (n, s) \<leftarrow> removeNetworkFlowFromSet r True s;
                     nf_from_proc_loop I oid tid ks (deleted + n) s
                   })
                })
           else nf_from_proc_loop I oid tid ks deleted s)
        })
   }"

definition removeAndWriteNFFromProc :: "inspector \<Rightarrow> OID \<Rightarrow> int \<Rightarrow> sf \<Rightarrow> (int \<times> sf) option" where
  "removeAndWriteNFFromProc I oid tid s = do {
     (p, s) \<leftarrow> deref_proc oid s;
     (deleted, s) \<leftarrow> nf_from_proc_loop I oid tid (tbl_keys (netflows p)) 0 s;
     (u, s) \<leftarrow> (if tid = -1 then upd_proc oid (\<lambda>p. p\<lparr>netflows := []\<rparr>) s else Some ((), s));
     Some (deleted, s)
   }"

definition removeNetworkFlow :: "ref \<Rightarrow> sf \<Rightarrow> (unit \<times> sf) option" where
  "removeNetworkFlow r s = do {
     (nfo, s) \<leftarrow> deref_net r s;
     (case find_proc s (nf_procOID (netflow nfo)) of
        None \<Rightarrow> Some ((), s)
      | Some p \<Rightarrow> removeNetworkFlow_key (nf_procOID (netflow nfo)) r (canonicalizeKey (netflow nfo)) s)
   }"

definition nf_reup :: "int \<Rightarrow> NetworkFlow \<Rightarrow> NetworkFlow" where
  "nf_reup t nf =
     nf\<lparr>nf_ts := t, nf_endTs := 0, nf_opFlags := 0, nf_numRRecvOps := 0, nf_numWSendOps := 0,
        nf_numRRecvBytes := 0, nf_numWSendBytes := 0\<rparr>"

definition exportNetworkFlow :: "inspector \<Rightarrow> ref \<Rightarrow> sf \<Rightarrow> (unit \<times> sf) option" where
  "exportNetworkFlow I r s = do {
     (nfo, s) \<leftarrow> deref_net r s;
     (case getSinspTime I s of
        (t, s1) \<Rightarrow>
          (let nf = (netflow nfo)\<lparr>nf_endTs := t\<rparr> in
           case exportProcess I (nf_procOID nf) s1 of
             (proc, s2) \<Rightarrow>
               (case getSinspTime I (writeNetFlow I nf (map_option p_proc proc) s2) of
                  (t2, s3) \<Rightarrow> Some ((), put_flow r (Net (nfo\<lparr>netflow := nf_reup t2 nf\<rparr>)) s3))))
   }"

section \<open>Aggregation\<close>

text \<open>The updates a flow gets from a sequence of operations.\<close>

fun net_updates :: "inspector \<Rightarrow> (OpFlags \<times> sinsp_evt) list \<Rightarrow> NetFlowObj \<Rightarrow> sf \<Rightarrow> NetFlowObj \<times> sf" where
  "net_updates I [] nfo s = (nfo, s)"
| "net_updates I ((flag, ev) # ops) nfo s =
     (case updateNetFlow I flag ev nfo s of (nfo1, s1) \<Rightarrow> net_updates I ops nfo1 s1)"

text \<open>The operations of a kind in a sequence and the bytes they moved.\<close>

definition ops_of :: "OpFlags \<Rightarrow> (OpFlags \<times> sinsp_evt) list \<Rightarrow> (OpFlags \<times> sinsp_evt) list" where
  "ops_of f ops = filter (\<lambda>e. fst e = f) ops"

definition bytes_of :: "OpFlags \<Rightarrow> (OpFlags \<times> sinsp_evt) list \<Rightarrow> int" where
  "bytes_of f ops = (\<Sum>e \<leftarrow> ops_of f ops. max 0 (int32 (getSyscallResult (snd e))))"

lemma ops_of_simps [simp]:
  "ops_of f [] = []"
  "ops_of f ((g, ev) # ops) = (if g = f then (g, ev) # ops_of f ops else ops_of f ops)"
  by (simp_all add: ops_of_def)

lemma bytes_of_simps [simp]:
  "bytes_of f [] = 0"
  "bytes_of f ((g, ev) # ops) = (if g = f then max 0 (int32 (getSyscallResult ev)) else 0) + bytes_of f ops"
  by (simp_all add: bytes_of_def)

text \<open>What a sequence of operations makes of a record.\<close>

definition net_agg :: "(OpFlags \<times> sinsp_evt) list \<Rightarrow> NetworkFlow \<Rightarrow> NetworkFlow \<Rightarrow> bool" where
  "net_agg ops a b =
     (nf_numWSendOps b = nf_numWSendOps a + int (length (ops_of OP_WRITE_SEND ops)) \<and>
      nf_numWSendBytes b = nf_numWSendBytes a + bytes_of OP_WRITE_SEND ops \<and>
      nf_numRRecvOps b = nf_numRRecvOps a + int (length (ops_of OP_READ_RECV ops)) \<and>
      nf_numRRecvBytes b = nf_numRRecvBytes a + bytes_of OP_READ_RECV ops \<and>
      (\<forall>f. has_op (nf_opFlags b) f \<longleftrightarrow> has_op (nf_opFlags a) f \<or> f \<in> fst ` set ops) \<and>
      canonicalizeKey b = canonicalizeKey a \<and> nf_procOID b = nf_procOID a \<and> nf_ts b = nf_ts a)"

lemma count_op_fields [simp]:
  "nf_opFlags (count_op f ev nf) = nf_opFlags nf"
  "nf_procOID (count_op f ev nf) = nf_procOID nf"
  "nf_ts (count_op f ev nf) = nf_ts nf"
  "canonicalizeKey (count_op f ev nf) = canonicalizeKey nf"
  "nf_numWSendOps (count_op f ev nf) = nf_numWSendOps nf + (if f = OP_WRITE_SEND then 1 else 0)"
  "nf_numRRecvOps (count_op f ev nf) = nf_numRRecvOps nf + (if f = OP_READ_RECV then 1 else 0)"
  "nf_numWSendBytes (count_op f ev nf) =
     nf_numWSendBytes nf + (if f = OP_WRITE_SEND then max 0 (int32 (getSyscallResult ev)) else 0)"
  "nf_numRRecvBytes (count_op f ev nf) =
     nf_numRRecvBytes nf + (if f = OP_READ_RECV then max 0 (int32 (getSyscallResult ev)) else 0)"
  by (simp_all add: count_op_def Let_def canonicalizeKey_def max_def)

lemma updateNetFlow_netflow:
  "netflow (fst (updateNetFlow I flag ev nfo s)) =
     count_op flag ev ((netflow nfo)\<lparr>nf_opFlags := or (nf_opFlags (netflow nfo)) (op_val flag)\<rparr>)"
  by (simp add: updateNetFlow_def split: prod.split)

lemma net_agg_step:
  assumes "net_agg ops (netflow (fst (updateNetFlow I flag ev nfo s))) b"
  shows "net_agg ((flag, ev) # ops) (netflow nfo) b"
proof -
  have k: "canonicalizeKey (nf\<lparr>nf_opFlags := x\<rparr>) = canonicalizeKey nf" for nf :: NetworkFlow and x
    by (simp add: canonicalizeKey_def)
  show ?thesis
    using assms unfolding net_agg_def updateNetFlow_netflow count_op_fields
    by (simp add: k)
qed

lemma net_agg_updates: "net_agg ops (netflow nfo) (netflow (fst (net_updates I ops nfo s)))"
proof (induction ops arbitrary: nfo s)
  case Nil
  show ?case by (simp add: net_agg_def)
next
  case (Cons e ops)
  obtain flag ev where e: "e = (flag, ev)" by fastforce
  show ?case
    using net_agg_step [OF Cons.IH [of "fst (updateNetFlow I flag ev nfo s)" "snd (updateNetFlow I flag ev nfo s)"]]
    by (simp add: e split_beta)
qed

text \<open>C18: A network flow aggregates its operations exactly: after any sequence of updates its counters have grown
  by the numbers of sends and receives and by the sums of the bytes they moved, its flags are those it
  had and the operations that occurred, and its key, its process and its start are unchanged.\<close>

theorem netflow_aggregates: "net_agg ops (netflow nfo) (netflow (fst (net_updates I ops nfo s)))"
  by (rule net_agg_updates)

lemma populateNetFlow_key:
  "canonicalizeKey (populateNetFlow flag ev ti fdinfo oid) = canonicalizeKey_fd fdinfo (ti_tid ti) (ev_fdnum ev)"
proof -
  have u: "ucast (ucast (x :: 16 word) :: 32 word) = x" for x by (rule bit_word_eqI) (simp add: bit_simps)
  show ?thesis by (simp add: canonicalizeKey_def canonicalizeKey_fd_def populateNetFlow_def u)
qed

text \<open>The key a flow is filed under when it is created is the key computed from the flow when it is taken out
  again, whatever operations it has seen in between.\<close>

lemma netflow_key_stable:
  "canonicalizeKey (netflow (fst (net_updates I ops
     \<lparr>exportTime = t1, lastUpdate = t2, netflow = populateNetFlow flag ev ti fdinfo oid\<rparr> s))) =
   canonicalizeKey_fd fdinfo (ti_tid ti) (ev_fdnum ev)"
  using net_agg_updates [of ops "\<lparr>exportTime = t1, lastUpdate = t2, netflow = populateNetFlow flag ev ti fdinfo oid\<rparr>" I s]
  by (simp add: net_agg_def populateNetFlow_key)

end
