(* ===== verification/FileFlow.thy ===== *)
theory FileFlow
  imports NetFlow
begin

text \<open>
  File flows (\<open>FileFlowProcessor\<close>), and the filter on read-only flows (\<open>readonly.h\<close>) that decides
  whether a file flow is written. A flow counts as a reference to its file.
\<close>

section \<open>The filter on reads\<close>

definition FILE_READS_DISABLED :: int where
  "FILE_READS_DISABLED = 1"

definition FILE_READS_SELECT :: int where
  "FILE_READS_SELECT = 2"

definition s_paths :: "string list" where
  "s_paths = [''/proc/'', ''/dev/'', ''/sys/'', ''//sys/'', ''/lib/'', ''/lib64/'', ''/usr/lib/'', ''/usr/lib64/'']"

fun prefix_match_loop :: "string \<Rightarrow> string \<Rightarrow> bool" where
  "prefix_match_loop path [] = True"
| "prefix_match_loop [] (m # ms) = False"
| "prefix_match_loop (p # ps) (m # ms) = (if p \<noteq> m then False else prefix_match_loop ps ms)"

definition prefix_match :: "string \<Rightarrow> string \<Rightarrow> bool" where
  "prefix_match path m = (if length path < length m then False else prefix_match_loop path m)"

text \<open>A flow on a file that was only read: opened read-only, or read and neither written nor mapped.\<close>

definition read_only :: "inspector \<Rightarrow> FileFlow \<Rightarrow> bool" where
  "read_only I ff =
     (and (ff_openFlags ff) (PPM_O_RDONLY I) = PPM_O_RDONLY I \<or>
      (and (ff_opFlags ff) (op_val OP_READ_RECV) = op_val OP_READ_RECV \<and>
       and (ff_opFlags ff) (op_val OP_WRITE_SEND) \<noteq> op_val OP_WRITE_SEND \<and>
       and (ff_opFlags ff) (op_val OP_MMAP) \<noteq> op_val OP_MMAP))"

definition read_filtered :: "inspector \<Rightarrow> int \<Rightarrow> FileFlowObj \<Rightarrow> bool" where
  "read_filtered I readMode ffo =
     (if (readMode = FILE_READS_DISABLED \<or> readMode = FILE_READS_SELECT) \<and> read_only I (fileflow ffo)
      then (if readMode \<noteq> FILE_READS_DISABLED then list_ex (prefix_match (flowkey ffo)) s_paths else True)
      else False)"

definition SHOULD_WRITE :: "inspector \<Rightarrow> FileFlowObj \<Rightarrow> Process option \<Rightarrow> SFFile option \<Rightarrow> sf \<Rightarrow> sf" where
  "SHOULD_WRITE I ffo proc file s =
     (if \<not> read_filtered I (fileReadMode (config s)) ffo
      then writeFileFlow I (fileflow ffo) proc file s else s)"

section \<open>Records\<close>

definition populateFileFlow ::
  "SysFlowContext \<Rightarrow> OpFlags \<Rightarrow> sinsp_evt \<Rightarrow> sinsp_threadinfo \<Rightarrow> OID \<Rightarrow> FileObj \<Rightarrow> string \<Rightarrow> sinsp_fdinfo \<Rightarrow> int \<Rightarrow>
   FileFlowObj \<Rightarrow> FileFlowObj" where
  "populateFileFlow cxt flag ev ti oid file fkey fdinfo fd ffo =
     (let ffo1 = ffo\<lparr>fileflow :=
            \<lparr>ff_procOID = oid, ff_ts = ev_ts ev, ff_tid = ti_tid ti, ff_opFlags = op_val flag,
             ff_openFlags = (if flag = OP_OPEN then fd_openflags fdinfo else 0), ff_endTs = 0,
             ff_fileOID = file_oid (f_file file), ff_fd = word_of_int fd,
             ff_numRRecvOps = 0, ff_numWSendOps = 0, ff_numRRecvBytes = 0, ff_numWSendBytes = 0\<rparr>\<rparr>
      in if \<not> isConsumerMode cxt then ffo1\<lparr>filekey := f_key file, flowkey := fkey\<rparr> else ffo1)"

text \<open>The fields a default \<open>FileFlowObj\<close> starts with.\<close>

definition FileFlow_zero :: FileFlow where
  "FileFlow_zero =
     \<lparr>ff_procOID = \<lparr>hpid = 0, createTS = 0\<rparr>, ff_ts = 0, ff_tid = 0, ff_opFlags = 0, ff_openFlags = 0,
      ff_endTs = 0, ff_fileOID = '''', ff_fd = 0, ff_numRRecvOps = 0, ff_numWSendOps = 0,
      ff_numRRecvBytes = 0, ff_numWSendBytes = 0\<rparr>"

definition FileFlowObj_new :: FileFlowObj where
  "FileFlowObj_new =
     \<lparr>exportTime = 0, lastUpdate = 0, fileflow = FileFlow_zero, filekey = '''', flowkey = ''''\<rparr>"

definition ff_count_op :: "OpFlags \<Rightarrow> sinsp_evt \<Rightarrow> sinsp_fdinfo \<Rightarrow> FileFlow \<Rightarrow> FileFlow" where
  "ff_count_op flag ev fdinfo ff =
     (let res = int32 (getSyscallResult ev) in
      if flag = OP_OPEN then ff\<lparr>ff_openFlags := fd_openflags fdinfo\<rparr>
      else if flag = OP_WRITE_SEND then
        ff\<lparr>ff_numWSendOps := ff_numWSendOps ff + 1,
           ff_numWSendBytes := ff_numWSendBytes ff + (if res > 0 then res else 0)\<rparr>
      else if flag = OP_READ_RECV then
        ff\<lparr>ff_numRRecvOps := ff_numRRecvOps ff + 1,
           ff_numRRecvBytes := ff_numRRecvBytes ff + (if res > 0 then res else 0)\<rparr>
      else ff)"

definition updateFileFlow ::
  "inspector \<Rightarrow> OpFlags \<Rightarrow> sinsp_evt \<Rightarrow> sinsp_fdinfo \<Rightarrow> FileFlowObj \<Rightarrow> sf \<Rightarrow> FileFlowObj \<times> sf" where
  "updateFileFlow I flag ev fdinfo ffo s =
     (case getCurrentTime I s of
        (now, s1) \<Rightarrow>
          (ffo\<lparr>lastUpdate := now,
               fileflow := ff_count_op flag ev fdinfo
                 ((fileflow ffo)\<lparr>ff_opFlags := or (ff_opFlags (fileflow ffo)) (op_val flag)\<rparr>)\<rparr>, s1))"

section \<open>Removal\<close>

definition ff_same :: "sf \<Rightarrow> ref \<Rightarrow> ref \<Rightarrow> bool" where
  "ff_same s a b =
     (case (heap s a, heap s b) of (Some (Fil m), Some (Fil n)) \<Rightarrow> fileflow_eq m n | _ \<Rightarrow> False)"

text \<open>
  \<open>removeFileFlowFromSet\<close>. When the flow is not in the set, the message it logs asks for the file
  of the flow, and this may write the file's record.
\<close>

definition removeFileFlowFromSet :: "inspector \<Rightarrow> ref \<Rightarrow> bool \<Rightarrow> sf \<Rightarrow> (int \<times> sf) option" where
  "removeFileFlowFromSet I r deleteFileFlow s = do {
     (ffo, s) \<leftarrow> deref_file r s;
     (if m_dfSet s = [] \<or> df_live s (r # m_dfSet s) then
        (case ms_remove (df_key s) (\<lambda>r2. ff_same s r2 r) r (m_dfSet s) of
           (found, q) \<Rightarrow>
             (let s1 = s\<lparr>m_dfSet := q\<rparr>;
                  s2 = (if \<not> found \<and> find_proc s1 (ff_procOID (fileflow ffo)) \<noteq> None
                        then snd (getFile_key I (filekey ffo) s1) else s1)
              in do {
                (u, s3) \<leftarrow> (if deleteFileFlow then free r s2 else Some ((), s2));
                Some ((if found then 1 else 0), s3)
              }))
      else None)
   }"

text \<open>\<open>removeFileFlow\<close> of a process: the file's key, or \<open>None\<close> for a null file.\<close>

definition removeFileFlow_key :: "OID \<Rightarrow> string option \<Rightarrow> ref \<Rightarrow> string \<Rightarrow> sf \<Rightarrow> (unit \<times> sf) option" where
  "removeFileFlow_key oid file r fkey s = do {
     (u, s) \<leftarrow> upd_proc oid (\<lambda>p. p\<lparr>fileflows := AList.delete fkey (fileflows p)\<rparr>) s;
     (u, s) \<leftarrow> free r s;
     Some ((), (case file of None \<Rightarrow> s | Some k \<Rightarrow> file_decr k s))
   }"

definition ff_related :: "FileFlowObj \<Rightarrow> FileFlowObj \<Rightarrow> bool" where
  "ff_related ffo f =
     (ff_tid (fileflow f) \<noteq> ff_tid (fileflow ffo) \<and> ff_fd (fileflow f) = ff_fd (fileflow ffo) \<and>
      filekey f = filekey ffo)"

fun collect_ff :: "sf \<Rightarrow> FileFlowObj \<Rightarrow> (string, ref) table \<Rightarrow> ref list \<Rightarrow> ((string, ref) table \<times> ref list) option" where
  "collect_ff s ffo [] acc = Some ([], acc)"
| "collect_ff s ffo ((k, r) # t) acc =
     (case heap s r of
        Some (Fil f) \<Rightarrow>
          (if ff_related ffo f then
             (if and (ff_opFlags (fileflow f)) (op_val OP_OPEN) \<noteq> 0
              then collect_ff s ffo t (r # acc)
              else collect_ff s ffo t (acc @ [r]))
           else map_option (\<lambda>(t1, acc1). ((k, r) # t1, acc1)) (collect_ff s ffo t acc))
      | _ \<Rightarrow> None)"

text \<open>
  The related flows are written and deleted. Their references to the file are not given back.
\<close>

fun write_related_ff :: "inspector \<Rightarrow> Process \<Rightarrow> int \<Rightarrow> ref list \<Rightarrow> sf \<Rightarrow> (unit \<times> sf) option" where
  "write_related_ff I p endTs [] s = Some ((), s)"
| "write_related_ff I p endTs (r # rs) s = do {
     (ffo, s) \<leftarrow> deref_file r s;
     (let ffo1 = ffo\<lparr>fileflow := (fileflow ffo)
            \<lparr>ff_endTs := endTs, ff_opFlags := or (ff_opFlags (fileflow ffo)) (op_val OP_TRUNCATE)\<rparr>\<rparr>
      in case getFile_key I (filekey ffo1) (put_flow r (Fil ffo1) s) of
           (file, s1) \<Rightarrow> do {
             (n, s2) \<leftarrow> removeFileFlowFromSet I r True (SHOULD_WRITE I ffo1 (Some p) (map_option f_file file) s1);
             write_related_ff I p endTs rs s2
           })
   }"

definition removeAndWriteRelatedFF :: "inspector \<Rightarrow> OID \<Rightarrow> FileFlowObj \<Rightarrow> int \<Rightarrow> sf \<Rightarrow> (unit \<times> sf) option" where
  "removeAndWriteRelatedFF I oid ffo endTs s = do {
     (p, s) \<leftarrow> deref_proc oid s;
     (case collect_ff s ffo (fileflows p) [] of
        None \<Rightarrow> None
      | Some (t, rs) \<Rightarrow> write_related_ff I (p_proc p) endTs rs (put_proc oid (p\<lparr>fileflows := t\<rparr>) s))
   }"

text \<open>The file of a handler is the entry of the table at \<open>key\<close>.\<close>

definition deref_fileobj :: "string \<Rightarrow> sf \<Rightarrow> (FileObj \<times> sf) option" where
  "deref_fileobj key s = map_option (\<lambda>f. (f, s)) (find_file s key)"

definition removeAndWriteFileFlow :: "inspector \<Rightarrow> OID \<Rightarrow> string \<Rightarrow> ref \<Rightarrow> string \<Rightarrow> sf \<Rightarrow> (unit \<times> sf) option" where
  "removeAndWriteFileFlow I oid fk r fkey s = do {
     (ffo, s) \<leftarrow> deref_file r s;
     (p, s) \<leftarrow> deref_proc oid s;
     (f, s) \<leftarrow> deref_fileobj fk s;
     (n, s) \<leftarrow> removeFileFlowFromSet I r False (SHOULD_WRITE I ffo (Some (p_proc p)) (Some (f_file f)) s);
     removeFileFlow_key oid (Some fk) r fkey s
   }"

section \<open>The handler\<close>

definition processNewFF ::
  "inspector \<Rightarrow> sinsp_evt \<Rightarrow> sinsp_threadinfo \<Rightarrow> OID \<Rightarrow> string \<Rightarrow> OpFlags \<Rightarrow> string \<Rightarrow> sinsp_fdinfo \<Rightarrow> int \<Rightarrow> sf \<Rightarrow> (unit \<times> sf) option" where
  "processNewFF I ev ti oid fk flag fkey fdinfo fd s =
     (case getCurrentTime I s of
        (t1, s1) \<Rightarrow>
          (case getCurrentTime I s1 of
             (t2, s2) \<Rightarrow> do {
               (f, s2) \<leftarrow> deref_fileobj fk s2;
               (case updateFileFlow I flag ev fdinfo
                       (populateFileFlow (m_cxt s2) flag ev ti oid f fkey fdinfo fd
                          (FileFlowObj_new\<lparr>exportTime := t1, lastUpdate := t2\<rparr>)) s2 of
                  (ffo, s3) \<Rightarrow>
                    (if flag \<noteq> OP_CLOSE then
                       (case alloc (Fil ffo) s3 of
                          (r, s4) \<Rightarrow> do {
                            (u, s5) \<leftarrow> upd_proc oid (\<lambda>p. p\<lparr>fileflows := AList.update (flowkey ffo) r (fileflows p)\<rparr>) s4;
                            dfset_insert r (file_incr fk s5)
                          })
                     else do {
                       (u, s4) \<leftarrow> removeAndWriteRelatedFF I oid ffo (ev_ts ev) s3;
                       (p, s4) \<leftarrow> deref_proc oid s4;
                       (f, s4) \<leftarrow> deref_fileobj fk s4;
                       Some ((), SHOULD_WRITE I (ffo\<lparr>fileflow := (fileflow ffo)\<lparr>ff_endTs := ev_ts ev\<rparr>\<rparr>)
                                   (Some (p_proc p)) (Some (f_file f)) s4)
                     }))
             }))"

text \<open>In consumer mode an open is written at once, and nothing else is.\<close>

definition createConsumerRecord ::
  "inspector \<Rightarrow> sinsp_evt \<Rightarrow> sinsp_threadinfo \<Rightarrow> OID \<Rightarrow> string \<Rightarrow> OpFlags \<Rightarrow> sinsp_fdinfo \<Rightarrow> int \<Rightarrow> sf \<Rightarrow> (int \<times> sf) option" where
  "createConsumerRecord I ev ti oid fk flag fdinfo fd s =
     (if flag = OP_CLOSE \<or> flag = OP_SHUTDOWN then Some (1, s)
      else if flag \<noteq> OP_OPEN then Some (1, s)
      else do {
        (p, s) \<leftarrow> deref_proc oid s;
        (f, s) \<leftarrow> deref_fileobj fk s;
        (let ffo = populateFileFlow (m_cxt s) flag ev ti oid f '''' fdinfo fd FileFlowObj_new in
         Some (1, SHOULD_WRITE I (ffo\<lparr>fileflow := (fileflow ffo)\<lparr>ff_endTs := ev_ts ev\<rparr>\<rparr>)
                    (Some (p_proc p)) (Some (f_file f)) s))
      })"

definition processExistingFF ::
  "inspector \<Rightarrow> sinsp_evt \<Rightarrow> OID \<Rightarrow> string \<Rightarrow> OpFlags \<Rightarrow> string \<Rightarrow> ref \<Rightarrow> sinsp_fdinfo \<Rightarrow> sf \<Rightarrow> (unit \<times> sf) option" where
  "processExistingFF I ev oid fk flag fkey r fdinfo s = do {
     (ffo, s) \<leftarrow> deref_file r s;
     (case updateFileFlow I flag ev fdinfo ffo s of
        (ffo1, s1) \<Rightarrow>
          (let s2 = put_flow r (Fil ffo1) s1 in
           if flag = OP_CLOSE then do {
             (u, s3) \<leftarrow> removeAndWriteRelatedFF I oid ffo1 (ev_ts ev) s2;
             (ffo2, s3) \<leftarrow> deref_file r s3;
             removeAndWriteFileFlow I oid fk r fkey
               (put_flow r (Fil (ffo2\<lparr>fileflow := (fileflow ffo2)\<lparr>ff_endTs := ev_ts ev\<rparr>\<rparr>)) s3)
           }
           else Some ((), s2)))
   }"

text \<open>
  The descriptor of an event that has none: for a mapping it is looked up in the thread, by the
  number of the event or else by the event's parameter. The result is the descriptor, if any, and
  the number.
\<close>

definition find_fdinfo :: "inspector \<Rightarrow> sinsp_evt \<Rightarrow> OpFlags \<Rightarrow> (sinsp_fdinfo option \<times> int) option" where
  "find_fdinfo I ev flag =
     (case ev_fdinfo ev of
        Some fdinfo \<Rightarrow> Some (Some fdinfo, ev_fdnum ev)
      | None \<Rightarrow>
          (if flag = OP_MMAP then
             (if ev_fdnum ev \<noteq> INVALID_FD_NUM I then
                map_option (\<lambda>ti. (get_fd I ti (ev_fdnum ev), ev_fdnum ev)) (ev_tinfo ev)
              else do {
                fd \<leftarrow> getFD ev;
                anon \<leftarrow> isMapAnonymous I ev;
                (if \<not> anon \<and> fd \<noteq> -1 then map_option (\<lambda>ti. (get_fd I ti fd, fd)) (ev_tinfo ev)
                 else Some (None, fd))
              })
           else Some (None, ev_fdnum ev)))"

definition file_flow_key :: "sinsp_fdinfo \<Rightarrow> sinsp_threadinfo \<Rightarrow> int \<Rightarrow> string option" where
  "file_flow_key fdinfo ti fd = do {
     t \<leftarrow> itoa (int32 (ti_tid ti)) 10;
     f \<leftarrow> itoa (int32 fd) 10;
     Some (fd_name fdinfo @ ti_container_id ti @ t @ f)
   }"

definition handleFileFlowEvent :: "inspector \<Rightarrow> sinsp_evt \<Rightarrow> OpFlags \<Rightarrow> sf \<Rightarrow> (int \<times> sf) option" where
  "handleFileFlowEvent I ev flag s = do {
     (fdi, fd) \<leftarrow> find_fdinfo I ev flag;
     (case fdi of
        None \<Rightarrow> Some (1, s)
      | Some fdinfo \<Rightarrow>
          (if fd_is_ipv4 fdinfo \<or> fd_is_ipv6 fdinfo then Some (1, s)
           else if fileOnly (config s) \<and> \<not> fd_is_file fdinfo then Some (1, s)
           else if fd_typechar fdinfo \<notin> set (map file_type_char [SF_FILE, SF_DIR, SF_UNIX, SF_PIPE]) then Some (1, s)
           else do {
             ((oid, created), s) \<leftarrow> getProcess I ev REUP s;
             (case ev_tinfo ev of
                None \<Rightarrow> None
              | Some ti \<Rightarrow>
                  (case getFile I ev ti (fd_name fdinfo) (fd_typechar fdinfo) REUP s of
                     ((fk, created2), s) \<Rightarrow>
                       (if isConsumerMode (m_cxt s) then createConsumerRecord I ev ti oid fk flag fdinfo fd s
                        else do {
                          fkey \<leftarrow> file_flow_key fdinfo ti fd;
                          (p, s) \<leftarrow> deref_proc oid s;
                          (u, s) \<leftarrow> (case map_of (fileflows p) fkey of
                                       None \<Rightarrow> processNewFF I ev ti oid fk flag fkey fdinfo fd s
                                     | Some r \<Rightarrow> processExistingFF I ev oid fk flag fkey r fdinfo s);
                          Some (0, s)
                        })))
           }))
   }"

section \<open>Flows of a process or thread that ends, expired flows\<close>

text \<open>
  A flow whose file is missing makes \<open>removeAndWriteFFFromProc\<close> follow a null pointer, at the latest
  in the message it logs.
\<close>

fun ff_from_proc_loop :: "inspector \<Rightarrow> OID \<Rightarrow> int \<Rightarrow> string list \<Rightarrow> int \<Rightarrow> sf \<Rightarrow> (int \<times> sf) option" where
  "ff_from_proc_loop I oid tid [] deleted s = Some (deleted, s)"
| "ff_from_proc_loop I oid tid (k # ks) deleted s = do {
     (p, s) \<leftarrow> deref_proc oid s;
     (case map_of (fileflows p) k of
        None \<Rightarrow> ff_from_proc_loop I oid tid ks deleted s
      | Some r \<Rightarrow> do {
          (ffo, s) \<leftarrow> deref_file r s;
          (if tid = -1 \<or> tid = ff_tid (fileflow ffo) then
             (case getFile_key I (filekey ffo) s of
                (None, s) \<Rightarrow> None
              | (Some file, s) \<Rightarrow>
                  (case getSinspTime I s of
                     (t, s) \<Rightarrow> do {
                       (ffo, s) \<leftarrow> Some (ffo\<lparr>fileflow := (fileflow ffo)\<lparr>ff_endTs := t\<rparr>\<rparr>, s);
                       (u, s) \<leftarrow> Some ((), put_flow r (Fil ffo) s);
                       (u, s) \<leftarrow> (if tid \<noteq> -1 then removeAndWriteRelatedFF I oid ffo t s else Some ((), s));
                       (ffo, s) \<leftarrow> deref_file r s;
                       (let ffo1 = ffo\<lparr>fileflow := (fileflow ffo)
                              \<lparr>ff_opFlags := or (ff_opFlags (fileflow ffo)) (op_val OP_TRUNCATE)\<rparr>\<rparr> in do {
                          (u, s) \<leftarrow> upd_proc oid (\<lambda>p. p\<lparr>fileflows := AList.delete k (fileflows p)\<rparr>)
                                     (SHOULD_WRITE I ffo1 (Some (p_proc p)) (Some (f_file file)) (put_flow r (Fil ffo1) s));
                          (n, s) \<leftarrow> removeFileFlowFromSet I r True s;
                          ff_from_proc_loop I oid tid ks (deleted + n) (file_decr (filekey ffo1) s)
                        })
                     }))
           else ff_from_proc_loop I oid tid ks deleted s)
        })
   }"

definition removeAndWriteFFFromProc :: "inspector \<Rightarrow> OID \<Rightarrow> int \<Rightarrow> sf \<Rightarrow> (int \<times> sf) option" where
  "removeAndWriteFFFromProc I oid tid s = do {
     (p, s) \<leftarrow> deref_proc oid s;
     (deleted, s) \<leftarrow> ff_from_proc_loop I oid tid (tbl_keys (fileflows p)) 0 s;
     (u, s) \<leftarrow> (if tid = -1 then upd_proc oid (\<lambda>p. p\<lparr>fileflows := []\<rparr>) s else Some ((), s));
     Some (deleted, s)
   }"

definition removeFileFlow :: "inspector \<Rightarrow> ref \<Rightarrow> sf \<Rightarrow> (unit \<times> sf) option" where
  "removeFileFlow I r s = do {
     (ffo, s) \<leftarrow> deref_file r s;
     (case find_proc s (ff_procOID (fileflow ffo)) of
        None \<Rightarrow> Some ((), s)
      | Some p \<Rightarrow>
          (case getFile_key I (filekey ffo) s of
             (file, s) \<Rightarrow>
               removeFileFlow_key (ff_procOID (fileflow ffo)) (map_option (\<lambda>f. filekey ffo) file) r (flowkey ffo) s))
   }"

definition ff_reup :: "int \<Rightarrow> FileFlow \<Rightarrow> FileFlow" where
  "ff_reup t ff =
     ff\<lparr>ff_ts := t, ff_endTs := 0, ff_opFlags := 0, ff_numRRecvOps := 0, ff_numWSendOps := 0,
        ff_numRRecvBytes := 0, ff_numWSendBytes := 0\<rparr>"

definition exportFileFlow :: "inspector \<Rightarrow> ref \<Rightarrow> sf \<Rightarrow> (unit \<times> sf) option" where
  "exportFileFlow I r s = do {
     (ffo, s) \<leftarrow> deref_file r s;
     (case getSinspTime I s of
        (t, s1) \<Rightarrow>
          (let ff = (fileflow ffo)\<lparr>ff_endTs := t\<rparr> in
           case exportProcess I (ff_procOID ff) s1 of
             (proc, s2) \<Rightarrow>
               (case exportFile I (filekey ffo) s2 of
                  (file, s3) \<Rightarrow>
                    (case getSinspTime I (SHOULD_WRITE I (ffo\<lparr>fileflow := ff\<rparr>) (map_option p_proc proc)
                                            (map_option f_file file) s3) of
                       (t2, s4) \<Rightarrow> Some ((), put_flow r (Fil (ffo\<lparr>fileflow := ff_reup t2 ff\<rparr>)) s4)))))
   }"

section \<open>The filter and the keys\<close>




lemma itoa_int32:
  assumes "int32 v \<noteq> - (2 ^ 31)"
  shows "itoa (int32 v) 10 = Some (if int32 v = 0 then '''' else to_string (int32 v))"
  using int32_range [of v] assms by (intro itoa_10) auto

text \<open>Within one thread the keys of the flows on one path differ for different descriptors.\<close>

lemma flow_key_fd_injective:
  assumes "file_flow_key fdinfo ti fd1 = Some k" and "file_flow_key fdinfo ti fd2 = Some k"
  shows "int32 fd1 = int32 fd2"
proof -
  have d: "to_string x \<noteq> ''''" for x using nat_digits_digits by (simp add: to_string_def)
  have n: "int32 fd1 \<noteq> - (2 ^ 31)" "int32 fd2 \<noteq> - (2 ^ 31)"
    using assms by (auto simp: file_flow_key_def itoa_def split: bind_splits if_splits)
  obtain t f1 f2 where "itoa (int32 fd1) 10 = Some f1" "itoa (int32 fd2) 10 = Some f2" "f1 = f2"
    using assms by (auto simp: file_flow_key_def split: bind_splits)
  then show ?thesis using itoa_int32 [OF n(1)] itoa_int32 [OF n(2)] d to_string_inj by (auto split: if_splits)
qed

text \<open>Across threads they need not: the thread and the descriptor are put together without a separator, so
  descriptor 23 of thread 1 and descriptor 3 of thread 12 share a key.\<close>

lemma file_flow_key_shared:
  "file_flow_key regfile0 (thread0 1 1) 23 = file_flow_key regfile0 (thread0 1 12) 3 \<and>
   file_flow_key regfile0 (thread0 1 1) 23 \<noteq> None"
  by code_simp

end
