(* ===== verification/FileEvents.thy ===== *)
theory FileEvents
  imports FileFlow
begin

text \<open>
  File events (\<open>FileEventProcessor\<close>): the creation and removal of files and directories, links and
  renames. Each writes one record, after those of the process and the files it names.
\<close>

section \<open>Paths of an event\<close>

text \<open>The two paths a link, symlink or rename names, made absolute.\<close>

definition link_paths :: "inspector \<Rightarrow> sinsp_evt \<Rightarrow> sinsp_threadinfo \<Rightarrow> OpFlags \<Rightarrow> string \<times> string" where
  "link_paths I ev ti flag =
     (if flag = OP_LINK \<or> flag = OP_RENAME then
        (let path1 = getPath I ev ''oldpath''; path2 = getPath I ev ''newpath'' in
         if IS_AT_SC (ev_type ev) then
           (let olddirfd = (if flag = OP_RENAME then getFD_named ev ''olddirfd'' else getFD_named ev ''olddir'');
                newdirfd = (if flag = OP_RENAME then getFD_named ev ''newdirfd'' else getFD_named ev ''newdir'')
            in (getAbsolutePath_at I ti olddirfd path1, getAbsolutePath_at I ti newdirfd path2))
         else (getAbsolutePath I ti path1, getAbsolutePath I ti path2))
      else if flag = OP_SYMLINK then
        (let path1 = getPath I ev ''target''; path2 = getPath I ev ''linkpath'' in
         if IS_AT_SC (ev_type ev) then
           (path1, getAbsolutePath_at I ti (getFD_named ev ''linkdirfd'') path2)
         else (getAbsolutePath I ti path1, getAbsolutePath I ti path2))
      else ('''', ''''))"

text \<open>The path of an event on one file that has no descriptor. An \<open>...at\<close> call has the directory as its second parameter.\<close>

definition file_evt_path :: "inspector \<Rightarrow> sinsp_evt \<Rightarrow> sinsp_threadinfo \<Rightarrow> string option" where
  "file_evt_path I ev ti =
     (let fileName = (if IS_UNLINKAT (ev_type ev) then getPath I ev ''name'' else getPath I ev ''path'') in
      if IS_AT_SC (ev_type ev) then
        (if length (ev_params ev) \<le> 1 then None
         else Some (getAbsolutePath_at I ti (par_int (ev_params ev ! 1)) fileName))
      else Some (getAbsolutePath I ti fileName))"

section \<open>The handlers\<close>

definition mk_file_event :: "sinsp_evt \<Rightarrow> sinsp_threadinfo \<Rightarrow> OpFlags \<Rightarrow> OID \<Rightarrow> FOID \<Rightarrow> FOID option \<Rightarrow> FileEvent" where
  "mk_file_event ev ti flag oid foid newfoid =
     \<lparr>fe_procOID = oid, fe_ts = ev_ts ev, fe_tid = ti_tid ti, fe_opFlags = op_val flag,
      fe_ret = int32 (getSyscallResult ev), fe_fileOID = foid, fe_newFileOID = newfoid\<rparr>"

definition writeLinkEvent :: "inspector \<Rightarrow> sinsp_evt \<Rightarrow> OpFlags \<Rightarrow> sf \<Rightarrow> (int \<times> sf) option" where
  "writeLinkEvent I ev flag s = do {
     ((oid, created), s) \<leftarrow> getProcess I ev REUP s;
     ti \<leftarrow> ev_tinfo ev;
     (let (path1, path2) = link_paths I ev ti flag in
      case getFile I ev ti path1 (file_type_char SF_UNK) REUP s of
        ((k1, created1), s1) \<Rightarrow>
          (case getFile I ev ti path2 (file_type_char SF_UNK) CREATED s1 of
             ((k2, created2), s2) \<Rightarrow> do {
               (p, s2) \<leftarrow> deref_proc oid s2;
               (f1, s2) \<leftarrow> deref_fileobj k1 s2;
               (f2, s2) \<leftarrow> deref_fileobj k2 s2;
               (let fe = mk_file_event ev ti flag oid (file_oid (f_file f1)) (Some (file_oid (f_file f2))) in
                Some (0, writeFileEvent2 I fe (p_proc p) (f_file f1) (f_file f2) s2))
             }))
   }"

definition writeFileEvent :: "inspector \<Rightarrow> sinsp_evt \<Rightarrow> OpFlags \<Rightarrow> sf \<Rightarrow> (int \<times> sf) option" where
  "writeFileEvent I ev flag s = do {
     ((oid, created), s) \<leftarrow> getProcess I ev REUP s;
     ti \<leftarrow> ev_tinfo ev;
     (path, tc) \<leftarrow> (case ev_fdinfo ev of
        Some fdinfo \<Rightarrow> Some (fd_name fdinfo, fd_typechar fdinfo)
      | None \<Rightarrow> do {
          path \<leftarrow> file_evt_path I ev ti;
          Some (path, file_type_char (if flag = OP_MKDIR \<or> flag = OP_RMDIR then SF_DIR else SF_UNK))
        });
     (case getFile I ev ti path tc CREATED s of
        ((k, created1), s1) \<Rightarrow> do {
          (p, s1) \<leftarrow> deref_proc oid s1;
          (f, s1) \<leftarrow> deref_fileobj k s1;
          (let fe = mk_file_event ev ti flag oid (file_oid (f_file f)) None in
           Some (0, writeFileEvent1 I fe (p_proc p) (f_file f) s1))
        })
   }"

definition handleFileEvent :: "inspector \<Rightarrow> sinsp_evt \<Rightarrow> OpFlags \<Rightarrow> sf \<Rightarrow> (int \<times> sf) option" where
  "handleFileEvent I ev flag s =
     (if flag = OP_MKDIR \<or> flag = OP_RMDIR \<or> flag = OP_UNLINK then writeFileEvent I ev flag s
      else if flag = OP_LINK \<or> flag = OP_SYMLINK \<or> flag = OP_RENAME then writeLinkEvent I ev flag s
      else Some (1, s))"

end
