(* ===== verification/DataFlow.thy ===== *)
theory DataFlow
  imports FileEvents
begin

text \<open>
  The dispatch of data events to the processors of network flows, file flows and file events, and
  the export of the pending flows whose interval has passed (\<open>DataFlowProcessor\<close>).
\<close>

definition handleDataEvent :: "inspector \<Rightarrow> sinsp_evt \<Rightarrow> OpFlags \<Rightarrow> sf \<Rightarrow> (int \<times> sf) option" where
  "handleDataEvent I ev flag s =
     (case ev_fdinfo ev of
        None \<Rightarrow>
          (if IS_FILE_EVT flag \<and> \<not> isNoFilesMode (m_cxt s) then handleFileEvent I ev flag s
           else if flag = OP_MMAP \<and> \<not> isNoFilesMode (m_cxt s) then handleFileFlowEvent I ev flag s
           else Some (1, s))
      | Some fdinfo \<Rightarrow>
          (if fd_is_ipv4 fdinfo \<or> fd_is_ipv6 fdinfo then handleNetFlowEvent I ev flag s
           else if IS_FILE_EVT flag \<and> \<not> isNoFilesMode (m_cxt s) then handleFileEvent I ev flag s
           else if \<not> isNoFilesMode (m_cxt s) then handleFileFlowEvent I ev flag s
           else Some (2, s)))"

definition removeAndWriteDFFromProc :: "inspector \<Rightarrow> OID \<Rightarrow> int \<Rightarrow> sf \<Rightarrow> (int \<times> sf) option" where
  "removeAndWriteDFFromProc I oid tid s = do {
     (total, s) \<leftarrow> removeAndWriteFFFromProc I oid tid s;
     (n, s) \<leftarrow> removeAndWriteNFFromProc I oid tid s;
     Some (total + n, s)
   }"

section \<open>Expired flows\<close>

text \<open>
  The iterator of the loop is a position \<open>i\<close> in the set. An erase leaves it at the element that
  follows; an insertion at or before it moves it by one.
\<close>

definition erase_at :: "nat \<Rightarrow> 'a list \<Rightarrow> 'a list" where
  "erase_at i xs = take i xs @ drop (Suc i) xs"

definition insert_pos :: "('a \<Rightarrow> int) \<Rightarrow> 'a \<Rightarrow> 'a list \<Rightarrow> nat" where
  "insert_pos key x xs = length (takeWhile (\<lambda>y. key y \<le> key x) xs)"

definition removeFlow :: "inspector \<Rightarrow> ref \<Rightarrow> DataFlow \<Rightarrow> sf \<Rightarrow> (unit \<times> sf) option" where
  "removeFlow I r d s = (if isNetworkFlow d then removeNetworkFlow r s else removeFileFlow I r s)"

definition exportFlow :: "inspector \<Rightarrow> ref \<Rightarrow> DataFlow \<Rightarrow> sf \<Rightarrow> (unit \<times> sf) option" where
  "exportFlow I r d s = (if isNetworkFlow d then exportNetworkFlow I r s else exportFileFlow I r s)"

text \<open>The flow at \<open>i\<close> goes back into the set with a new export time; the result is the new position.\<close>

definition reinsertFlow :: "inspector \<Rightarrow> nat \<Rightarrow> ref \<Rightarrow> sf \<Rightarrow> (nat \<times> sf) option" where
  "reinsertFlow I i r s =
     (case getCurrentTime I (s\<lparr>m_dfSet := erase_at i (m_dfSet s)\<rparr>) of
        (t, s1) \<Rightarrow> do {
          (d, s1) \<leftarrow> deref r s1;
          (let s2 = put_flow r (df_set_exportTime t d) s1;
               j = insert_pos (df_key s2) r (m_dfSet s2)
           in do {
             (u, s3) \<leftarrow> dfset_insert r s2;
             Some (if j \<le> i then Suc i else i, s3)
           })
        })"

partial_function (option) expire_loop :: "inspector \<Rightarrow> int \<Rightarrow> nat \<Rightarrow> int \<Rightarrow> sf \<Rightarrow> (int \<times> sf) option" where
  "expire_loop I now i n s =
     (if i < length (m_dfSet s) then
        (let r = m_dfSet s ! i in
         case heap s r of
           None \<Rightarrow> None
         | Some d \<Rightarrow>
             (if difftime now (df_exportTime d) \<ge> m_nfExportInterval (m_cxt s) then
                (if difftime now (df_lastUpdate d) \<ge> m_nfExpireInterval (m_cxt s) then
                   (case removeFlow I r d s of
                      None \<Rightarrow> None
                    | Some (u, s1) \<Rightarrow> expire_loop I now i (n + 1) (s1\<lparr>m_dfSet := erase_at i (m_dfSet s1)\<rparr>))
                 else
                   (case exportFlow I r d s of
                      None \<Rightarrow> None
                    | Some (u, s1) \<Rightarrow>
                        (case reinsertFlow I i r s1 of
                           None \<Rightarrow> None
                         | Some (j, s2) \<Rightarrow> expire_loop I now j (n + 1) s2)))
              else Some (n, s)))
      else Some (n, s))"

declare expire_loop.simps [code]

definition df_checkForExpiredRecords :: "inspector \<Rightarrow> sf \<Rightarrow> (int \<times> sf) option" where
  "df_checkForExpiredRecords I s =
     (case getCurrentTime I s of
        (now, s1) \<Rightarrow>
          (if df_lastCheck s1 = 0 then Some (0, s1\<lparr>df_lastCheck := now\<rparr>)
           else if difftime now (df_lastCheck s1) < 1 then Some (0, s1)
           else expire_loop I now 0 0 (s1\<lparr>df_lastCheck := now\<rparr>)))"

end
