(* ===== verification/ControlFlow.thy ===== *)
theory ControlFlow
  imports DataFlow
begin

text \<open>
  Process events (\<open>ProcessEventProcessor\<close>) and process flows, which aggregate the threads a process
  clones and that exit (\<open>ControlFlowProcessor\<close>).
\<close>

section \<open>ProcessEventProcessor\<close>

definition SF_UID :: string where
  "SF_UID = ''uid''"

definition setUID :: "inspector \<Rightarrow> sinsp_evt \<Rightarrow> sf \<Rightarrow> sf" where
  "setUID I ev s = s\<lparr>m_uid := param_value_str I ev SF_UID\<rparr>"

definition mk_proc_event :: "sinsp_evt \<Rightarrow> sinsp_threadinfo \<Rightarrow> OpFlags \<Rightarrow> OID \<Rightarrow> string list \<Rightarrow> ProcessEvent" where
  "mk_proc_event ev ti flag oid args =
     \<lparr>pe_procOID = oid, pe_ts = ev_ts ev, pe_tid = ti_tid ti, pe_opFlags = op_val flag, pe_args = args,
      pe_ret = int32 (getSyscallResult ev)\<rparr>"

definition writeCloneEvent :: "inspector \<Rightarrow> sinsp_evt \<Rightarrow> sinsp_threadinfo \<Rightarrow> sf \<Rightarrow> (unit \<times> sf) option" where
  "writeCloneEvent I ev ti s = do {
     ((oid, created), s) \<leftarrow> getProcess I ev CREATED s;
     (p, s) \<leftarrow> deref_proc oid s;
     Some ((), writeProcessEvent I (mk_proc_event ev ti OP_CLONE oid []) (p_proc p) s)
   }"

text \<open>A process that was known before is updated and its record written again.\<close>

definition rewrite_process :: "inspector \<Rightarrow> sinsp_evt \<Rightarrow> sinsp_threadinfo \<Rightarrow> OID \<Rightarrow> bool \<Rightarrow> sf \<Rightarrow> (unit \<times> sf) option" where
  "rewrite_process I ev ti oid created s =
     (if \<not> created then do {
        (p, s) \<leftarrow> deref_proc oid s;
        (let p1 = p\<lparr>p_proc := updateProcess I ti ev MODIFIED (p_proc p)\<rparr> in
         Some ((), put_proc oid (p1\<lparr>p_written := True\<rparr>) (writeProcess I (p_proc p1) s)))
      }
      else Some ((), s))"

definition writeSetUIDEvent :: "inspector \<Rightarrow> sinsp_evt \<Rightarrow> sinsp_threadinfo \<Rightarrow> sf \<Rightarrow> (unit \<times> sf) option" where
  "writeSetUIDEvent I ev ti s = do {
     ((oid, created), s) \<leftarrow> getProcess I ev REUP s;
     (u, s) \<leftarrow> rewrite_process I ev ti oid created s;
     (p, s) \<leftarrow> deref_proc oid s;
     Some ((), writeProcessEvent I (mk_proc_event ev ti OP_SETUID oid [m_uid s]) (p_proc p) s)
   }"

definition writeExecEvent :: "inspector \<Rightarrow> sinsp_evt \<Rightarrow> sinsp_threadinfo \<Rightarrow> sf \<Rightarrow> (unit \<times> sf) option" where
  "writeExecEvent I ev ti s = do {
     ((oid, created), s) \<leftarrow> getProcess I ev CREATED s;
     (u, s) \<leftarrow> rewrite_process I ev ti oid created s;
     (p, s) \<leftarrow> deref_proc oid s;
     Some ((), writeProcessEvent I (mk_proc_event ev ti OP_EXEC oid []) (p_proc p) s)
   }"

text \<open>The flows of the thread that exits, or of the whole process, end before the exit is written.\<close>

definition writeExitEvent :: "inspector \<Rightarrow> sinsp_evt \<Rightarrow> sinsp_threadinfo \<Rightarrow> sf \<Rightarrow> (unit \<times> sf) option" where
  "writeExitEvent I ev ti s = do {
     ((oid, created), s) \<leftarrow> getProcess I ev REUP s;
     (n, s) \<leftarrow> removeAndWriteDFFromProc I oid (if \<not> ti_is_main ti then ti_tid ti else -1) s;
     (p, s) \<leftarrow> deref_proc oid s;
     (let s1 = writeProcessEvent I (mk_proc_event ev ti OP_EXIT oid []) (p_proc p) s in
      Some ((), if ti_is_main ti then markForDeletion I oid s1 else s1))
   }"

section \<open>Process flows\<close>

definition populateProcFlow :: "OpFlags \<Rightarrow> sinsp_evt \<Rightarrow> OID \<Rightarrow> ProcessFlow" where
  "populateProcFlow flag ev oid =
     \<lparr>pf_procOID = oid, pf_ts = ev_ts ev, pf_opFlags = op_val flag, pf_endTs = 0,
      pf_numThreadsCloned = 0, pf_numThreadsExited = 0, pf_numCloneErrors = 0\<rparr>"

definition pf_count :: "OpFlags \<Rightarrow> sinsp_evt \<Rightarrow> ProcessFlow \<Rightarrow> ProcessFlow" where
  "pf_count flag ev pf =
     (if flag = OP_CLONE then
        (let res = int32 (getSyscallResult ev) in
         if res = 0 then pf\<lparr>pf_numThreadsCloned := pf_numThreadsCloned pf + 1\<rparr>
         else if res = -1 then pf\<lparr>pf_numCloneErrors := pf_numCloneErrors pf + 1\<rparr>
         else pf)
      else if flag = OP_EXIT then pf\<lparr>pf_numThreadsExited := pf_numThreadsExited pf + 1\<rparr>
      else pf)"

definition updateProcFlow :: "inspector \<Rightarrow> OpFlags \<Rightarrow> sinsp_evt \<Rightarrow> ProcessFlowObj \<Rightarrow> sf \<Rightarrow> ProcessFlowObj \<times> sf" where
  "updateProcFlow I flag ev f s =
     (case getCurrentTime I s of
        (now, s1) \<Rightarrow>
          (f\<lparr>lastUpdate := now,
             procflow := pf_count flag ev
               ((procflow f)\<lparr>pf_opFlags := or (pf_opFlags (procflow f)) (op_val flag)\<rparr>)\<rparr>, s1))"

definition processNewPF :: "inspector \<Rightarrow> sinsp_evt \<Rightarrow> OID \<Rightarrow> OpFlags \<Rightarrow> sf \<Rightarrow> (unit \<times> sf) option" where
  "processNewPF I ev oid flag s =
     (case getCurrentTime I s of
        (t1, s1) \<Rightarrow>
          (case getCurrentTime I s1 of
             (t2, s2) \<Rightarrow>
               (case updateProcFlow I flag ev
                       \<lparr>exportTime = t1, lastUpdate = t2, procflow = populateProcFlow flag ev oid\<rparr> s2 of
                  (f, s3) \<Rightarrow> do {
                    (u, s4) \<leftarrow> upd_proc oid (\<lambda>p. p\<lparr>pfo := Some f\<rparr>) s3;
                    pfset_insert oid s4
                  })))"

definition processFlow :: "inspector \<Rightarrow> sinsp_evt \<Rightarrow> OpFlags \<Rightarrow> sf \<Rightarrow> (unit \<times> sf) option" where
  "processFlow I ev flag s = do {
     ((oid, created), s) \<leftarrow> getProcess I ev REUP s;
     (p, s) \<leftarrow> deref_proc oid s;
     (case pfo p of
        None \<Rightarrow> processNewPF I ev oid flag s
      | Some f \<Rightarrow>
          (case updateProcFlow I flag ev f s of
             (f1, s1) \<Rightarrow> upd_proc oid (\<lambda>p. p\<lparr>pfo := Some f1\<rparr>) s1))
   }"

definition removeAndWriteProcessFlow :: "inspector \<Rightarrow> OID \<Rightarrow> sf \<Rightarrow> (unit \<times> sf) option" where
  "removeAndWriteProcessFlow I oid s = do {
     (p, s) \<leftarrow> deref_proc oid s;
     f \<leftarrow> pfo p;
     (n, s) \<leftarrow> removeProcessFromSet oid (writeProcessFlow I (procflow f) (Some (p_proc p)) s);
     upd_proc oid (\<lambda>p. p\<lparr>pfo := None\<rparr>) s
   }"

section \<open>The handler\<close>

definition handleExit :: "inspector \<Rightarrow> sinsp_evt \<Rightarrow> sinsp_threadinfo \<Rightarrow> sf \<Rightarrow> (unit \<times> sf) option" where
  "handleExit I ev ti s = do {
     (u, s) \<leftarrow> (if enableProcessFlow (config s) \<and> \<not> ti_is_main ti then processFlow I ev OP_EXIT s
                else Some ((), s));
     (if ti_is_main ti \<or> \<not> enableProcessFlow (config s) then do {
        (u, s) \<leftarrow> (if enableProcessFlow (config s) then do {
                     ((oid, created), s) \<leftarrow> getProcess I ev REUP s;
                     (p, s) \<leftarrow> deref_proc oid s;
                     (case pfo p of
                        None \<Rightarrow> Some ((), s)
                      | Some f \<Rightarrow> do {
                          (u, s) \<leftarrow> upd_proc oid
                             (\<lambda>p. p\<lparr>pfo := Some (f\<lparr>procflow := (procflow f)\<lparr>pf_endTs := ev_ts ev\<rparr>\<rparr>)\<rparr>) s;
                          removeAndWriteProcessFlow I oid s
                        })
                   }
                   else Some ((), s));
        writeExitEvent I ev ti s
      }
      else Some ((), s))
   }"

definition handleClone :: "inspector \<Rightarrow> sinsp_evt \<Rightarrow> sinsp_threadinfo \<Rightarrow> sf \<Rightarrow> (unit \<times> sf) option" where
  "handleClone I ev ti s =
     (if \<not> enableProcessFlow (config s) then writeCloneEvent I ev ti s
      else
        (let res = int32 (getSyscallResult ev) in
         if ti_is_main ti \<and> res = 0 then writeCloneEvent I ev ti s
         else if res > 0 then
           (case isCloneThreadSet I ev of
              None \<Rightarrow> None
            | Some b \<Rightarrow> (if \<not> b then writeCloneEvent I ev ti s else processFlow I ev OP_CLONE s))
         else processFlow I ev OP_CLONE s))"

definition handleProcEvent :: "inspector \<Rightarrow> sinsp_evt \<Rightarrow> OpFlags \<Rightarrow> sf \<Rightarrow> (int \<times> sf) option" where
  "handleProcEvent I ev flag s =
     (case ev_tinfo ev of
        None \<Rightarrow> Some (-1, s)
      | Some ti \<Rightarrow> do {
          (u, s) \<leftarrow> (case flag of
                       OP_EXIT \<Rightarrow> handleExit I ev ti s
                     | OP_EXEC \<Rightarrow> writeExecEvent I ev ti s
                     | OP_SETUID \<Rightarrow> writeSetUIDEvent I ev ti s
                     | OP_CLONE \<Rightarrow> handleClone I ev ti s
                     | _ \<Rightarrow> Some ((), s));
          Some (2, s)
        })"

section \<open>Expired process flows\<close>

definition pf_reup :: "int \<Rightarrow> ProcessFlow \<Rightarrow> ProcessFlow" where
  "pf_reup t pf =
     pf\<lparr>pf_ts := t, pf_endTs := 0, pf_opFlags := 0, pf_numThreadsCloned := 0,
        pf_numThreadsExited := 0, pf_numCloneErrors := 0\<rparr>"

text \<open>
  \<open>exportProcessFlow\<close> of the process flow \<open>f\<close> of the process at \<open>oid\<close>.
\<close>

definition exportProcessFlow :: "inspector \<Rightarrow> OID \<Rightarrow> ProcessFlowObj \<Rightarrow> sf \<Rightarrow> (unit \<times> sf) option" where
  "exportProcessFlow I oid f s =
     (case getSinspTime I s of
        (t, s1) \<Rightarrow>
          (let pf = (procflow f)\<lparr>pf_endTs := t\<rparr> in
           case exportProcess I (pf_procOID pf) s1 of
             (proc, s2) \<Rightarrow>
               (case getSinspTime I (writeProcessFlow I pf (map_option p_proc proc) s2) of
                  (t2, s3) \<Rightarrow> upd_proc oid (\<lambda>p. p\<lparr>pfo := Some (f\<lparr>procflow := pf_reup t2 pf\<rparr>)\<rparr>) s3)))"

definition reinsertPF :: "inspector \<Rightarrow> nat \<Rightarrow> OID \<Rightarrow> sf \<Rightarrow> (nat \<times> sf) option" where
  "reinsertPF I i oid s =
     (case getCurrentTime I (s\<lparr>m_pfSet := erase_at i (m_pfSet s)\<rparr>) of
        (t, s1) \<Rightarrow> do {
          (p, s1) \<leftarrow> deref_proc oid s1;
          f \<leftarrow> pfo p;
          (let s2 = put_proc oid (p\<lparr>pfo := Some (f\<lparr>exportTime := t\<rparr>)\<rparr>) s1;
               j = insert_pos (pf_key s2) oid (m_pfSet s2)
           in do {
             (u, s3) \<leftarrow> pfset_insert oid s2;
             Some (if j \<le> i then Suc i else i, s3)
           })
        })"

partial_function (option) pf_expire_loop :: "inspector \<Rightarrow> int \<Rightarrow> nat \<Rightarrow> int \<Rightarrow> sf \<Rightarrow> (int \<times> sf) option" where
  "pf_expire_loop I now i n s =
     (if i < length (m_pfSet s) then
        (let oid = m_pfSet s ! i in
         case find_proc s oid of
           None \<Rightarrow> None
         | Some p \<Rightarrow>
             (case pfo p of
                None \<Rightarrow> None
              | Some f \<Rightarrow>
                  (if difftime now (exportTime f) \<ge> m_nfExportInterval (m_cxt s) then
                     (if difftime now (lastUpdate f) \<ge> m_nfExpireInterval (m_cxt s) then
                        pf_expire_loop I now i (n + 1)
                          ((put_proc oid (p\<lparr>pfo := None\<rparr>) s)\<lparr>m_pfSet := erase_at i (m_pfSet s)\<rparr>)
                      else
                        (case exportProcessFlow I oid f s of
                           None \<Rightarrow> None
                         | Some (u, s1) \<Rightarrow>
                             (case reinsertPF I i oid s1 of
                                None \<Rightarrow> None
                              | Some (j, s2) \<Rightarrow> pf_expire_loop I now j (n + 1) s2)))
                   else Some (n, s))))
      else Some (n, s))"

declare pf_expire_loop.simps [code]

definition cf_checkForExpiredRecords :: "inspector \<Rightarrow> sf \<Rightarrow> (int \<times> sf) option" where
  "cf_checkForExpiredRecords I s =
     (case getCurrentTime I s of
        (now, s1) \<Rightarrow>
          (if cf_lastCheck s1 = 0 then Some (0, s1\<lparr>cf_lastCheck := now\<rparr>)
           else if difftime now (cf_lastCheck s1) < 1 then Some (0, s1)
           else pf_expire_loop I now 0 0 (s1\<lparr>cf_lastCheck := now\<rparr>)))"

end
