(* ===== verification/Processor.thy ===== *)
theory Processor
  imports ControlFlow
begin

text \<open>
  The processor (\<open>SysFlowProcessor\<close>): the choice of the writer, the dispatch of an event by its type
  (\<open>syscall_defs.h\<close>), the rotation of the output with the purge of the tables, and the event loop.
\<close>

section \<open>Event types\<close>

definition SF_EXECVE_ENTER :: "ppm_event_code list" where
  "SF_EXECVE_ENTER =
     [''PPME_SYSCALL_EXECVE_8_E'', ''PPME_SYSCALL_EXECVE_13_E'', ''PPME_SYSCALL_EXECVE_14_E'', ''PPME_SYSCALL_EXECVE_15_E'',
      ''PPME_SYSCALL_EXECVE_16_E'', ''PPME_SYSCALL_EXECVE_17_E'', ''PPME_SYSCALL_EXECVE_18_E'', ''PPME_SYSCALL_EXECVE_19_E'']"

definition SF_EXECVE_EXIT :: "ppm_event_code list" where
  "SF_EXECVE_EXIT =
     [''PPME_SYSCALL_EXECVE_8_X'', ''PPME_SYSCALL_EXECVE_13_X'', ''PPME_SYSCALL_EXECVE_14_X'', ''PPME_SYSCALL_EXECVE_15_X'',
      ''PPME_SYSCALL_EXECVE_16_X'', ''PPME_SYSCALL_EXECVE_17_X'', ''PPME_SYSCALL_EXECVE_18_X'', ''PPME_SYSCALL_EXECVE_19_X'']"

definition SF_CLONE_EXIT :: "ppm_event_code list" where
  "SF_CLONE_EXIT =
     [''PPME_SYSCALL_CLONE_11_X'', ''PPME_SYSCALL_CLONE_16_X'', ''PPME_SYSCALL_CLONE_17_X'', ''PPME_SYSCALL_CLONE_20_X'',
      ''PPME_SYSCALL_FORK_X'', ''PPME_SYSCALL_VFORK_X'', ''PPME_SYSCALL_FORK_17_X'', ''PPME_SYSCALL_VFORK_17_X'',
      ''PPME_SYSCALL_FORK_20_X'', ''PPME_SYSCALL_VFORK_20_X'']"

definition SF_PROCEXIT_E_X :: "ppm_event_code list" where
  "SF_PROCEXIT_E_X = [''PPME_PROCEXIT_E'', ''PPME_PROCEXIT_X'', ''PPME_PROCEXIT_1_E'', ''PPME_PROCEXIT_1_X'']"

definition SF_OPEN_EXIT :: "ppm_event_code list" where
  "SF_OPEN_EXIT =
     [''PPME_SYSCALL_OPEN_X'', ''PPME_SYSCALL_OPENAT_X'', ''PPME_SYSCALL_OPENAT_2_X'', ''PPME_SYSCALL_TIMERFD_CREATE_X'']"

definition SF_CLOSE_EXIT :: "ppm_event_code list" where
  "SF_CLOSE_EXIT = [''PPME_SYSCALL_CLOSE_X'']"

definition SF_SHUTDOWN_EXIT :: "ppm_event_code list" where
  "SF_SHUTDOWN_EXIT = [''PPME_SOCKET_SHUTDOWN_X'']"

definition SF_ACCEPT_EXIT :: "ppm_event_code list" where
  "SF_ACCEPT_EXIT =
     [''PPME_SOCKET_ACCEPT_X'', ''PPME_SOCKET_ACCEPT4_X'', ''PPME_SOCKET_ACCEPT_5_X'', ''PPME_SOCKET_ACCEPT4_5_X'',
      ''PPME_SYSCALL_SELECT_X'', ''PPM_SC_PSELECT6'']"

definition SF_CONNECT_EXIT :: "ppm_event_code list" where
  "SF_CONNECT_EXIT = [''PPME_SOCKET_CONNECT_X'']"

definition SF_SEND_EXIT :: "ppm_event_code list" where
  "SF_SEND_EXIT =
     [''PPME_SOCKET_SEND_X'', ''PPME_SOCKET_SENDTO_X'', ''PPME_SOCKET_SENDMSG_X'', ''PPME_SOCKET_SENDMMSG_X'',
      ''PPME_SYSCALL_WRITEV_X'', ''PPME_SYSCALL_PWRITEV_X'', ''PPME_SYSCALL_PWRITE_X'', ''PPME_SYSCALL_WRITE_X'']"

definition SF_RECV_EXIT :: "ppm_event_code list" where
  "SF_RECV_EXIT =
     [''PPME_SOCKET_RECV_X'', ''PPME_SOCKET_RECVFROM_X'', ''PPME_SOCKET_RECVMSG_X'', ''PPME_SOCKET_RECVMMSG_X'',
      ''PPME_SYSCALL_PREAD_X'', ''PPME_SYSCALL_PREADV_X'', ''PPME_SYSCALL_READV_X'', ''PPME_SYSCALL_READ_X'']"

definition SF_MKDIR_EXIT :: "ppm_event_code list" where
  "SF_MKDIR_EXIT = [''PPME_SYSCALL_MKDIR_X'', ''PPME_SYSCALL_MKDIR_2_X'', ''PPME_SYSCALL_MKDIRAT_X'']"

definition SF_RMDIR_EXIT :: "ppm_event_code list" where
  "SF_RMDIR_EXIT = [''PPME_SYSCALL_RMDIR_X'', ''PPME_SYSCALL_RMDIR_2_X'']"

definition SF_LINK_EXIT :: "ppm_event_code list" where
  "SF_LINK_EXIT = [''PPME_SYSCALL_LINK_X'', ''PPME_SYSCALL_LINK_2_X'', ''PPME_SYSCALL_LINKAT_X'', ''PPME_SYSCALL_LINKAT_2_X'']"

definition SF_UNLINK_EXIT :: "ppm_event_code list" where
  "SF_UNLINK_EXIT =
     [''PPME_SYSCALL_UNLINK_X'', ''PPME_SYSCALL_UNLINK_2_X'', ''PPME_SYSCALL_UNLINKAT_X'', ''PPME_SYSCALL_UNLINKAT_2_X'']"

definition SF_RENAME_EXIT :: "ppm_event_code list" where
  "SF_RENAME_EXIT = [''PPME_SYSCALL_RENAME_X'', ''PPME_SYSCALL_RENAMEAT_X'', ''PPME_SYSCALL_RENAMEAT2_X'']"

definition SF_SYMLINK_EXIT :: "ppm_event_code list" where
  "SF_SYMLINK_EXIT = [''PPME_SYSCALL_SYMLINK_X'', ''PPME_SYSCALL_SYMLINKAT_X'']"

definition SF_SETUID_ENTER :: "ppm_event_code list" where
  "SF_SETUID_ENTER = [''PPME_SYSCALL_SETUID_E'', ''PPME_SYSCALL_SETRESUID_E'']"

definition SF_SETUID_EXIT :: "ppm_event_code list" where
  "SF_SETUID_EXIT = [''PPME_SYSCALL_SETUID_X'', ''PPME_SYSCALL_SETRESUID_X'']"

definition SF_SETNS_EXIT :: "ppm_event_code list" where
  "SF_SETNS_EXIT = [''PPME_SYSCALL_SETNS_X'']"

definition SF_MMAP_EXIT :: "ppm_event_code list" where
  "SF_MMAP_EXIT = [''PPME_SYSCALL_MMAP_E'', ''PPME_SYSCALL_MMAP2_E'']"

text \<open>What the processor does with a type: nothing, one of the two handlers with a flag, or an entry of its own.\<close>

datatype evt_class = C_none | C_proc OpFlags | C_data OpFlags | C_setuid | C_k8s

definition classify :: "ppm_event_code \<Rightarrow> evt_class" where
  "classify t =
     (if t \<in> set SF_EXECVE_ENTER then C_none
      else if t \<in> set SF_EXECVE_EXIT then C_proc OP_EXEC
      else if t \<in> set SF_CLONE_EXIT then C_proc OP_CLONE
      else if t \<in> set SF_PROCEXIT_E_X then C_proc OP_EXIT
      else if t \<in> set SF_OPEN_EXIT then C_data OP_OPEN
      else if t \<in> set SF_ACCEPT_EXIT then C_data OP_ACCEPT
      else if t \<in> set SF_CONNECT_EXIT then C_data OP_CONNECT
      else if t \<in> set SF_SEND_EXIT then C_data OP_WRITE_SEND
      else if t \<in> set SF_RECV_EXIT then C_data OP_READ_RECV
      else if t \<in> set SF_CLOSE_EXIT then C_data OP_CLOSE
      else if t \<in> set SF_SETNS_EXIT then C_data OP_SETNS
      else if t \<in> set SF_MKDIR_EXIT then C_data OP_MKDIR
      else if t \<in> set SF_RMDIR_EXIT then C_data OP_RMDIR
      else if t \<in> set SF_LINK_EXIT then C_data OP_LINK
      else if t \<in> set SF_UNLINK_EXIT then C_data OP_UNLINK
      else if t \<in> set SF_SYMLINK_EXIT then C_data OP_SYMLINK
      else if t \<in> set SF_RENAME_EXIT then C_data OP_RENAME
      else if t \<in> set SF_SETUID_ENTER then C_setuid
      else if t \<in> set SF_SETUID_EXIT then C_proc OP_SETUID
      else if t \<in> set SF_SHUTDOWN_EXIT then C_data OP_SHUTDOWN
      else if t \<in> set SF_MMAP_EXIT then C_data OP_MMAP
      else if t = ''PPME_K8S_E'' then C_k8s
      else C_none)"

definition dispatch :: "inspector \<Rightarrow> sinsp_evt \<Rightarrow> sf \<Rightarrow> (unit \<times> sf) option" where
  "dispatch I ev s =
     (case classify (ev_type ev) of
        C_none \<Rightarrow> Some ((), s)
      | C_proc flag \<Rightarrow> map_option (\<lambda>(n, s). ((), s)) (handleProcEvent I ev flag s)
      | C_data flag \<Rightarrow> map_option (\<lambda>(n, s). ((), s)) (handleDataEvent I ev flag s)
      | C_setuid \<Rightarrow> Some ((), setUID I ev s)
      | C_k8s \<Rightarrow> (if m_k8sEnabled (m_cxt s)
                 then map_option (\<lambda>(n, s). ((), s)) (handleK8sEvent I ev s) else Some ((), s)))"

section \<open>Rotation and expiry\<close>

definition clearTables :: "sf \<Rightarrow> (unit \<times> sf) option" where
  "clearTables s = do {
     (u, s) \<leftarrow> clearProcesses s;
     (let s1 = clearContainers s;
          s2 = (if m_k8sEnabled (m_cxt s1) then clearPods s1 else s1)
      in Some ((), clearFiles s2))
   }"

definition checkAndRotateFile :: "inspector \<Rightarrow> sf \<Rightarrow> (bool \<times> sf) option" where
  "checkAndRotateFile I s =
     (case getCurrentTime I s of
        (curTime, s1) \<Rightarrow> do {
          (rotated, s2) \<leftarrow> (if isExpired curTime s1 \<or> needsReset (m_writer s1) then do {
                              (u, s2) \<leftarrow> writer_reset I curTime s1;
                              (u, s2) \<leftarrow> clearTables s2;
                              Some (True, s2)
                            }
                            else Some (False, s1));
          Some (rotated,
            if m_statsTime s2 > 0 \<and> difftime curTime (m_statsTime s2) \<ge> m_statsInterval (m_cxt s2)
            then s2\<lparr>m_statsTime := curTime\<rparr> else s2)
        })"

definition checkForExpiredRecords :: "inspector \<Rightarrow> sf \<Rightarrow> (int \<times> sf) option" where
  "checkForExpiredRecords I s = do {
     (numExpired, s) \<leftarrow> df_checkForExpiredRecords I s;
     (numProcExpired, s) \<leftarrow> cf_checkForExpiredRecords I s;
     Some (numExpired + numProcExpired, s)
   }"

definition housekeeping :: "inspector \<Rightarrow> sf \<Rightarrow> (unit \<times> sf) option" where
  "housekeeping I s = do {
     (n, s) \<leftarrow> checkForExpiredRecords I s;
     (u, s) \<leftarrow> checkForDeletion I s;
     (b, s) \<leftarrow> checkAndRotateFile I s;
     Some ((), s)
   }"

section \<open>The event loop\<close>

text \<open>
  What \<open>next\<close> of the inspection library returns. An iteration of the loop goes on, leaves the loop,
  or throws.
\<close>

datatype scap_result = SCAP_TIMEOUT | SCAP_FILTERED_EVENT | SCAP_EOF | SCAP_SUCCESS sinsp_evt | SCAP_FAILURE

datatype loop_result = Continue | Break | Throw

definition handle_event :: "inspector \<Rightarrow> sinsp_evt \<Rightarrow> sf \<Rightarrow> (unit \<times> sf) option" where
  "handle_event I ev s =
     (if filterContainers (config s) then
        (case isInContainer ev of
           None \<Rightarrow> None
         | Some b \<Rightarrow> (if b then dispatch I ev s else Some ((), s)))
      else dispatch I ev s)"

definition step :: "inspector \<Rightarrow> scap_result \<Rightarrow> sf \<Rightarrow> (loop_result \<times> sf) option" where
  "step I res s =
     (case res of
        SCAP_TIMEOUT \<Rightarrow>
          (if m_exit s then Some (Break, s)
           else do { (u, s) \<leftarrow> housekeeping I s; Some (Continue, s) })
      | SCAP_FILTERED_EVENT \<Rightarrow> Some (Continue, s)
      | SCAP_EOF \<Rightarrow> Some (Break, s)
      | SCAP_FAILURE \<Rightarrow> Some (Throw, s)
      | SCAP_SUCCESS ev \<Rightarrow>
          (let s = s\<lparr>timeStamp := ev_ts ev\<rparr> in
           if m_exit s then Some (Break, s)
           else do {
             (u, s) \<leftarrow> housekeeping I s;
             (u, s) \<leftarrow> handle_event I ev s;
             Some (Continue, s)
           }))"

text \<open>
  The loop over a finite sequence of answers of the library, each with the view of the system it
  comes with, and whether a signal has asked for the exit since the last one.
\<close>

fun run_loop :: "(inspector \<times> bool \<times> scap_result) list \<Rightarrow> sf \<Rightarrow> (loop_result \<times> sf) option" where
  "run_loop [] s = Some (Continue, s)"
| "run_loop ((I, sig, res) # inputs) s = do {
     (c, s1) \<leftarrow> step I res (s\<lparr>m_exit := (m_exit s \<or> sig)\<rparr>);
     (case c of Continue \<Rightarrow> run_loop inputs s1 | _ \<Rightarrow> Some (c, s1))
   }"

definition run :: "inspector \<Rightarrow> (inspector \<times> bool \<times> scap_result) list \<Rightarrow> sf \<Rightarrow> (loop_result \<times> sf) option" where
  "run I inputs s = do {
     (u, s) \<leftarrow> writer_initialize I s;
     run_loop inputs s
   }"

section \<open>Construction\<close>

definition writer_base :: "int \<Rightarrow> int \<Rightarrow> SysFlowWriter" where
  "writer_base version start = \<lparr>m_numRecs = 0, m_start = start, m_version = version, m_hdrFile = ''''\<rparr>"

definition new_file_writer :: "int \<Rightarrow> int \<Rightarrow> SFFileWriter" where
  "new_file_writer version start =
     \<lparr>m_numRecs = 0, m_start = start, m_version = version, m_hdrFile = '''',
      fw_name = '''', fw_recs = [], fw_closed = []\<rparr>"

definition new_sock_writer :: "int \<Rightarrow> int \<Rightarrow> SFSocketWriter" where
  "new_sock_writer version start =
     \<lparr>m_numRecs = 0, m_start = start, m_version = version, m_hdrFile = '''',
      m_errTimer = 0, m_reconnectInterval = CONNECT_INTERVAL, m_reset = False,
      sk_sent = [], sk_sends = 0, sk_conns = 0, sk_killed = False\<rparr>"

definition new_callback_writer :: "int \<Rightarrow> int \<Rightarrow> SFHeader \<Rightarrow> SFCallbackWriter" where
  "new_callback_writer version start hdr =
     \<lparr>m_numRecs = 0, m_start = start, m_version = version, m_hdrFile = '''',
      cb_header = hdr, cb_calls = []\<rparr>"

text \<open>The writer the configuration asks for; with none, the program exits.\<close>

definition choose_writer :: "SysFlowContext \<Rightarrow> int \<Rightarrow> int \<Rightarrow> SFHeader \<Rightarrow> writer option" where
  "choose_writer cxt version start hdr =
     (if isDomainSocket cxt \<and> isOutputFile cxt then
        Some (MultiW (writer_base version start) (new_sock_writer version start) (new_file_writer version start))
      else if isOutputFile cxt then Some (FileW (new_file_writer version start))
      else if isDomainSocket cxt then Some (SockW (new_sock_writer version start))
      else if callback (m_config cxt) then Some (CallbackW (new_callback_writer version start hdr))
      else None)"

definition getContainer_api :: "string \<Rightarrow> sf \<Rightarrow> Container option" where
  "getContainer_api cid s = map_option c_cont (getContainer_id cid s)"

definition getProcess_api :: "OID \<Rightarrow> sf \<Rightarrow> Process option" where
  "getProcess_api oid s = map_option p_proc (getProcess_oid oid s)"

end
