(* ===== verification/Config.thy ===== *)
theory Config
  imports Processor
begin

text \<open>
  The command line (\<open>main.cpp\<close>), the defaults of the library (\<open>sysflowlibs.cpp\<close>), the environment and
  the driver (\<open>SysFlowContext\<close>), the module checks (\<open>modutils.cpp\<close>), the error codes
  (\<open>sysflowexception.cpp\<close>) and the state a new processor starts in.
\<close>

section \<open>Integers of the command line\<close>

definition is_space :: "char \<Rightarrow> bool" where
  "is_space c = (c = CHR '' '' \<or> (9 \<le> (of_char c :: nat) \<and> (of_char c :: nat) \<le> 13))"

text \<open>
  \<open>strtol\<close> in base 10: the value before it is fitted into a \<open>long\<close>, and the text after the number.
  Without a digit nothing is read.
\<close>

definition strtol_sign :: "string \<Rightarrow> bool \<times> string" where
  "strtol_sign t =
     (case t of [] \<Rightarrow> (False, [])
      | c # cs \<Rightarrow> (if c = CHR ''-'' then (True, cs) else if c = CHR ''+'' then (False, cs) else (False, t)))"

definition strtol10 :: "string \<Rightarrow> int \<times> string" where
  "strtol10 s =
     (case strtol_sign (dropWhile is_space s) of
        (neg, u) \<Rightarrow>
          (let ds = takeWhile is_digit u in
           if ds = [] then (0, s)
           else ((if neg then - int (digits_val ds) else int (digits_val ds)), dropWhile is_digit u)))"

definition INT_MAX :: int where
  "INT_MAX = 2 ^ 31 - 1"

definition INT_MIN :: int where
  "INT_MIN = - (2 ^ 31)"

text \<open>A value out of the range of \<open>long\<close> is out of the range of \<open>int\<close> too.\<close>

definition str2int :: "string \<Rightarrow> int option" where
  "str2int s =
     (case strtol10 s of
        (l, rest) \<Rightarrow>
          (if l > INT_MAX then None
           else if l < INT_MIN then None
           else if s = [] \<or> rest \<noteq> [] then None
           else Some l))"

section \<open>Command line\<close>

definition InitializeSysFlowConfig :: "int \<Rightarrow> SysFlowConfig" where
  "InitializeSysFlowConfig default_dim =
     \<lparr>filterContainers = False, rotateInterval = 300, exporterID = '''', nodeIP = '''', filePath = '''',
      socketPath = '''', scapInputPath = '''', falcoFilter = '''', samplingRatio = 1, criPath = '''', criTO = 30,
      enableStats = False, enableProcessFlow = True, fileOnly = True, fileReadMode = 2, dropMode = True,
      callback = False, debugMode = False, k8sAPIURL = '''', k8sAPICert = '''', moduleChecks = True,
      singleBufferDimension = default_dim, appName = ''sysflowlibs'', collectionMode = SFFlowMode,
      cpuBuffers = 0, driverType = NO_DRIVER\<rparr>"

text \<open>An option as \<open>getopt\<close> returns it, with its argument; \<open>?\<close> is an error, any other letter ends the loop.\<close>

type_synonym opt = "char \<times> string"

record cli =
  cli_config :: SysFlowConfig
  cli_driver :: DriverType
  cli_help :: bool
  cli_domainSocket :: bool
  cli_writeFile :: bool

datatype 'a cli_result = Go 'a | Exit int

definition to_lower :: "char \<Rightarrow> char" where
  "to_lower c = (if 65 \<le> (of_char c :: nat) \<and> (of_char c :: nat) \<le> 90 then char_of ((of_char c :: nat) + 32) else c)"

definition strcasecmp_eq :: "string \<Rightarrow> string \<Rightarrow> bool" where
  "strcasecmp_eq a b = (map to_lower a = map to_lower b)"

definition parse_mode :: "string \<Rightarrow> SFSysCallMode option" where
  "parse_mode a =
     (if a = ''consume'' then Some SFConsumerMode
      else if a = ''nofiles'' then Some SFNoFilesMode
      else if a = ''flow'' then Some SFFlowMode
      else None)"

definition parse_driver :: "string \<Rightarrow> DriverType option" where
  "parse_driver a =
     (if strcasecmp_eq a ''ebpf'' then Some EBPF
      else if strcasecmp_eq a ''ebpf-core'' then Some CORE_EBPF
      else if strcasecmp_eq a ''kmod'' then Some KMOD
      else None)"

definition upd_config :: "(SysFlowConfig \<Rightarrow> SysFlowConfig) \<Rightarrow> cli \<Rightarrow> cli" where
  "upd_config f c = c\<lparr>cli_config := f (cli_config c)\<rparr>"

definition known_opts :: string where
  "known_opts = ''mduerwGcsflhpktv?''"

definition parse_opt :: "opt \<Rightarrow> cli \<Rightarrow> cli cli_result" where
  "parse_opt opt c =
     (let a = snd opt; o1 = fst opt in
      if o1 = CHR ''m'' then
        (case parse_mode a of None \<Rightarrow> Exit 1 | Some m \<Rightarrow> Go (upd_config (collectionMode_update (\<lambda>_. m)) c))
      else if o1 = CHR ''d'' then Go (upd_config (enableStats_update (\<lambda>_. True)) c)
      else if o1 = CHR ''u'' then Go ((upd_config (socketPath_update (\<lambda>_. a)) c)\<lparr>cli_domainSocket := True\<rparr>)
      else if o1 = CHR ''e'' then Go (upd_config (exporterID_update (\<lambda>_. a)) c)
      else if o1 = CHR ''r'' then Go ((upd_config (scapInputPath_update (\<lambda>_. a)) c)\<lparr>cli_driver := NO_DRIVER\<rparr>)
      else if o1 = CHR ''w'' then Go ((upd_config (filePath_update (\<lambda>_. a)) c)\<lparr>cli_writeFile := True\<rparr>)
      else if o1 = CHR ''G'' then
        (case str2int a of
           None \<Rightarrow> Exit 1
         | Some i \<Rightarrow> (if i < 1 then Exit 1 else Go (upd_config (rotateInterval_update (\<lambda>_. i)) c)))
      else if o1 = CHR ''c'' then Go (upd_config (filterContainers_update (\<lambda>_. True)) c)
      else if o1 = CHR ''s'' then
        (case str2int a of None \<Rightarrow> Exit 1 | Some i \<Rightarrow> Go (upd_config (samplingRatio_update (\<lambda>_. i)) c))
      else if o1 = CHR ''f'' then Go (upd_config (falcoFilter_update (\<lambda>_. a)) c)
      else if o1 = CHR ''l'' then Go c
      else if o1 = CHR ''h'' then Go (c\<lparr>cli_help := True\<rparr>)
      else if o1 = CHR ''p'' then Go (upd_config (criPath_update (\<lambda>_. a)) c)
      else if o1 = CHR ''k'' then
        (case parse_driver a of None \<Rightarrow> Exit 1 | Some d \<Rightarrow> Go (c\<lparr>cli_driver := d\<rparr>))
      else if o1 = CHR ''t'' then
        (case str2int a of
           None \<Rightarrow> Exit 1
         | Some i \<Rightarrow> (if i < 1 then Exit 1 else Go (upd_config (criTO_update (\<lambda>_. i)) c)))
      else if o1 = CHR ''v'' then Exit 0
      else Exit 1)"

fun parse_opts :: "opt list \<Rightarrow> cli \<Rightarrow> cli cli_result" where
  "parse_opts [] c = Go c"
| "parse_opts (opt # opts) c =
     (if fst opt \<notin> set known_opts then Go c
      else (case parse_opt opt c of Exit n \<Rightarrow> Exit n | Go c1 \<Rightarrow> parse_opts opts c1))"

text \<open>\<open>main\<close> up to the construction of the driver: the configuration, or the exit code.\<close>

definition main_config :: "int \<Rightarrow> string \<Rightarrow> opt list \<Rightarrow> SysFlowConfig cli_result" where
  "main_config default_dim argv0 opts =
     (case parse_opts opts \<lparr>cli_config = InitializeSysFlowConfig default_dim, cli_driver = NO_DRIVER,
                            cli_help = False, cli_domainSocket = False, cli_writeFile = False\<rparr> of
        Exit n \<Rightarrow> Exit n
      | Go c \<Rightarrow>
          (if cli_help c then Exit 0
           else if scapInputPath (cli_config c) \<noteq> [] \<and> cli_driver c \<noteq> NO_DRIVER then Exit 1
           else if filePath (cli_config c) = [] \<and> cli_writeFile c then Exit 1
           else if socketPath (cli_config c) = [] \<and> cli_domainSocket c then Exit 1
           else Go ((cli_config c)\<lparr>driverType := cli_driver c, appName := argv0\<rparr>)))"

section \<open>Errors\<close>

datatype SysFlowError =
    LibsError | ProbeAccessDenied | ProbeNotExist | ErrorReadingFileSystem | NameTooLong
  | ProbeCheckError | ProbeNotLoaded | DriverLibsMismatch | EventParsingError
  | ProcResourceNotFound | OperationNotSupported

datatype scap_code =
    C_SCAP_SUCCESS | C_SCAP_FAILURE | C_SCAP_TIMEOUT | C_SCAP_EOF | C_SCAP_ILLEGAL_INPUT
  | C_SCAP_INPUT_TOO_SMALL | C_SCAP_UNEXPECTED_BLOCK | C_SCAP_NOTFOUND | C_SCAP_VERSION_MISMATCH
  | C_SCAP_NOT_SUPPORTED | C_SCAP_other

fun getErrorCodeFromScap :: "scap_code \<Rightarrow> SysFlowError" where
  "getErrorCodeFromScap C_SCAP_ILLEGAL_INPUT = EventParsingError"
| "getErrorCodeFromScap C_SCAP_INPUT_TOO_SMALL = EventParsingError"
| "getErrorCodeFromScap C_SCAP_UNEXPECTED_BLOCK = EventParsingError"
| "getErrorCodeFromScap C_SCAP_NOTFOUND = ProcResourceNotFound"
| "getErrorCodeFromScap C_SCAP_VERSION_MISMATCH = DriverLibsMismatch"
| "getErrorCodeFromScap C_SCAP_NOT_SUPPORTED = OperationNotSupported"
| "getErrorCodeFromScap _ = LibsError"

text \<open>\<open>std::string::find\<close>: whether a text occurs in another.\<close>

fun str_find :: "string \<Rightarrow> string \<Rightarrow> bool" where
  "str_find [] pat = (pat = [])"
| "str_find (c # cs) pat = (take (length pat) (c # cs) = pat \<or> str_find cs pat)"

definition setErrorCode :: "string \<Rightarrow> SysFlowError" where
  "setErrorCode message =
     (if str_find message ''Driver supports API version'' then DriverLibsMismatch
      else if str_find message ''missing api_version section'' then DriverLibsMismatch
      else if str_find message ''Make sure you have root credentials and that the falco module is loaded.''
      then ProbeAccessDenied
      else LibsError)"

section \<open>Driver\<close>

type_synonym env = "string \<Rightarrow> string option"

definition SF_PROBE_BPF_FILEPATH :: string where
  "SF_PROBE_BPF_FILEPATH = ''.falco/falco-bpf.o''"

text \<open>\<open>loadDriverInfo\<close>: the driver and the path of the probe.\<close>

definition loadDriverInfo :: "env \<Rightarrow> DriverType \<Rightarrow> DriverType \<times> string" where
  "loadDriverInfo env d =
     (if d = KMOD \<or> d = CORE_EBPF then (d, '''')
      else (case env ''FALCO_BPF_PROBE'' of
              Some driver \<Rightarrow>
                (EBPF,
                 if driver \<noteq> [] then driver
                 else (case env ''HOME'' of
                         None \<Rightarrow> ''''
                       | Some home \<Rightarrow> home @ ''/'' @ SF_PROBE_BPF_FILEPATH))
            | None \<Rightarrow> (KMOD, '''')))"

datatype errno = EACCES | EIO | ENOENT | ENOTDIR | errno_other

text \<open>
  \<open>rpath\<close> is the outcome of \<open>realpath\<close> on the probe, an error number or none; \<open>modules\<close> the lines
  of \<open>/proc/modules\<close> if the file can be opened.
\<close>

definition checkProbeExistsPermits :: "(string \<Rightarrow> errno option) \<Rightarrow> string \<Rightarrow> SysFlowError option" where
  "checkProbeExistsPermits rpath path =
     (case rpath path of
        None \<Rightarrow> None
      | Some EACCES \<Rightarrow> Some ProbeAccessDenied
      | Some EIO \<Rightarrow> Some ErrorReadingFileSystem
      | Some ENOENT \<Rightarrow> Some ProbeNotExist
      | Some ENOTDIR \<Rightarrow> Some ProbeCheckError
      | Some errno_other \<Rightarrow> None)"

definition FALCO_STR :: string where
  "FALCO_STR = ''falco ''"

fun find_module :: "string list \<Rightarrow> bool" where
  "find_module [] = False"
| "find_module (line # ls) = (if take (length FALCO_STR) line = FALCO_STR then True else find_module ls)"

definition checkForFalcoKernMod :: "string list option \<Rightarrow> SysFlowError option" where
  "checkForFalcoKernMod modules =
     (case modules of None \<Rightarrow> None | Some ls \<Rightarrow> (if find_module ls then None else Some ProbeNotLoaded))"

definition checkModule :: "(string \<Rightarrow> errno option) \<Rightarrow> string list option \<Rightarrow> SysFlowConfig \<Rightarrow> string \<Rightarrow> SysFlowError option" where
  "checkModule rpath modules c probe =
     (if \<not> moduleChecks c then None
      else (case driverType c of
              KMOD \<Rightarrow> checkForFalcoKernMod modules
            | EBPF \<Rightarrow> checkProbeExistsPermits rpath probe
            | _ \<Rightarrow> None))"

section \<open>Context\<close>

text \<open>A switch of the environment: \<open>1\<close> sets it, another value clears it, none leaves it.\<close>

definition env_switch :: "env \<Rightarrow> string \<Rightarrow> bool \<Rightarrow> bool" where
  "env_switch env name b = (case env name of None \<Rightarrow> b | Some v \<Rightarrow> v = ''1'')"

definition env_read_mode :: "env \<Rightarrow> SysFlowConfig \<Rightarrow> int" where
  "env_read_mode env c =
     (if collectionMode c = SFNoFilesMode then fileReadMode c
      else (case env ''FILE_READ_MODE'' of
              None \<Rightarrow> fileReadMode c
            | Some v \<Rightarrow> (if v = ''0'' then 0 else if v = ''1'' then FILE_READS_DISABLED
                        else if v = ''2'' then FILE_READS_SELECT else fileReadMode c)))"

definition env_node_ip :: "env \<Rightarrow> SysFlowConfig \<Rightarrow> string" where
  "env_node_ip env c =
     (case env ''NODE_IP'' of None \<Rightarrow> nodeIP c | Some ip \<Rightarrow> ip)"

text \<open>The number of ring buffers \<open>openInspector\<close> settles on for the CO-RE driver.\<close>

definition cpu_buffers :: "int \<Rightarrow> SysFlowConfig \<Rightarrow> int" where
  "cpu_buffers onlineCPUs c =
     (if driverType c = CORE_EBPF \<and> (cpuBuffers c > onlineCPUs \<or> cpuBuffers c = 0) then onlineCPUs
      else cpuBuffers c)"

text \<open>
  The constructor of the context: an error of the module checks, or the context. What it asks of the
  library is \<open>SysFlowContext_calls\<close> below.
\<close>

definition SysFlowContext_new ::
  "env \<Rightarrow> (string \<Rightarrow> errno option) \<Rightarrow> string list option \<Rightarrow> int \<Rightarrow> SysFlowConfig \<Rightarrow> SysFlowError + SysFlowContext" where
  "SysFlowContext_new env rpath modules onlineCPUs c =
     (let offline = (scapInputPath c \<noteq> []);
          (d, probe) = (if offline then (driverType c, '''') else loadDriverInfo env (driverType c));
          c1 = c\<lparr>driverType := d\<rparr>
      in case (if offline then None else checkModule rpath modules c1 probe) of
           Some e \<Rightarrow> Inl e
         | None \<Rightarrow>
             (let c2 = c1\<lparr>enableStats := (enableStats c1 \<or> env ''ENABLE_STATS'' = Some ''1''),
                         cpuBuffers := cpu_buffers onlineCPUs c1,
                         fileOnly := env_switch env ''FILE_ONLY'' (fileOnly c1),
                         enableProcessFlow := env_switch env ''ENABLE_PROC_FLOW'' (enableProcessFlow c1),
                         fileReadMode := env_read_mode env c1\<rparr>
              in Inr \<lparr>m_nfExportInterval = 30, m_nfExpireInterval = 60, m_offline = offline,
                      m_statsInterval = 30, m_nodeIP = env_node_ip env c2,
                      m_k8sEnabled = (env ''SF_K8S_API_URL'' \<noteq> None \<or> k8sAPIURL c2 \<noteq> []),
                      m_config = c2,
                      m_hasPrefix = (filePath c2 \<noteq> [] \<and> last (filePath c2) \<noteq> CHR ''/''),
                      m_ebpfProbe = probe\<rparr>))"

text \<open>The system calls each mode asks the driver for (\<open>sfmodes.h\<close>).\<close>

definition SF_FLOW_SC_SET :: "string list" where
  "SF_FLOW_SC_SET =
     [''PPM_SC_ACCEPT'', ''PPM_SC_ACCEPT4'', ''PPM_SC_BIND'', ''PPM_SC_CHMOD'', ''PPM_SC_CLONE'', ''PPM_SC_CLONE3'',
      ''PPM_SC_CLOSE'', ''PPM_SC_CONNECT'', ''PPM_SC_CREAT'', ''PPM_SC_EXECVE'', ''PPM_SC_EXECVEAT'', ''PPM_SC_FORK'',
      ''PPM_SC_LINK'', ''PPM_SC_LINKAT'', ''PPM_SC_LISTEN'', ''PPM_SC_MMAP'', ''PPM_SC_MMAP2'', ''PPM_SC_MKDIR'',
      ''PPM_SC_MKDIRAT'', ''PPM_SC_OPEN'', ''PPM_SC_OPENAT'', ''PPM_SC_OPENAT2'', ''PPM_SC_PREAD64'', ''PPM_SC_PREADV'',
      ''PPM_SC_PWRITEV'', ''PPM_SC_PWRITE64'', ''PPM_SC_READ'', ''PPM_SC_READV'', ''PPM_SC_RECVFROM'', ''PPM_SC_RECVMMSG'',
      ''PPM_SC_RECVMSG'', ''PPM_SC_RENAME'', ''PPM_SC_RENAMEAT'', ''PPM_SC_RENAMEAT2'', ''PPM_SC_RMDIR'', ''PPM_SC_SENDMMSG'',
      ''PPM_SC_SENDMSG'', ''PPM_SC_SENDTO'', ''PPM_SC_SETNS'', ''PPM_SC_SETRESUID'', ''PPM_SC_SETRESUID32'', ''PPM_SC_SETUID'',
      ''PPM_SC_SETUID32'', ''PPM_SC_SHUTDOWN'', ''PPM_SC_SOCKETPAIR'', ''PPM_SC_SYMLINK'', ''PPM_SC_SYMLINKAT'',
      ''PPM_SC_UNLINK'', ''PPM_SC_UNLINKAT'', ''PPM_SC_VFORK'', ''PPM_SC_WRITE'', ''PPM_SC_WRITEV'']"

definition SF_CONSUMER_SC_SET :: "string list" where
  "SF_CONSUMER_SC_SET =
     [''PPM_SC_ACCEPT'', ''PPM_SC_ACCEPT4'', ''PPM_SC_CHMOD'', ''PPM_SC_CLONE'', ''PPM_SC_CLONE3'', ''PPM_SC_CLOSE'',
      ''PPM_SC_CONNECT'', ''PPM_SC_CREAT'', ''PPM_SC_EXECVE'', ''PPM_SC_EXECVEAT'', ''PPM_SC_FORK'', ''PPM_SC_LINK'',
      ''PPM_SC_LINKAT'', ''PPM_SC_MKDIR'', ''PPM_SC_MKDIRAT'', ''PPM_SC_OPEN'', ''PPM_SC_OPENAT'', ''PPM_SC_OPENAT2'',
      ''PPM_SC_RECVFROM'', ''PPM_SC_RECVMMSG'', ''PPM_SC_RECVMSG'', ''PPM_SC_RENAME'', ''PPM_SC_RENAMEAT'',
      ''PPM_SC_RENAMEAT2'', ''PPM_SC_RMDIR'', ''PPM_SC_SENDMMSG'', ''PPM_SC_SENDMSG'', ''PPM_SC_SENDTO'',
      ''PPM_SC_SETRESUID'', ''PPM_SC_SETRESUID32'', ''PPM_SC_SETUID'', ''PPM_SC_SETUID32'', ''PPM_SC_SOCKETPAIR'',
      ''PPM_SC_SYMLINK'', ''PPM_SC_SYMLINKAT'', ''PPM_SC_UNLINK'', ''PPM_SC_UNLINKAT'', ''PPM_SC_VFORK'']"

definition SF_NO_FILES_SC_SET :: "string list" where
  "SF_NO_FILES_SC_SET =
     [''PPM_SC_ACCEPT'', ''PPM_SC_ACCEPT4'', ''PPM_SC_CLONE'', ''PPM_SC_CLONE3'', ''PPM_SC_CLOSE'', ''PPM_SC_CONNECT'',
      ''PPM_SC_CREAT'', ''PPM_SC_EXECVE'', ''PPM_SC_EXECVEAT'', ''PPM_SC_FORK'', ''PPM_SC_OPEN'', ''PPM_SC_OPENAT'',
      ''PPM_SC_OPENAT2'', ''PPM_SC_RECVFROM'', ''PPM_SC_RECVMMSG'', ''PPM_SC_RECVMSG'', ''PPM_SC_SENDMMSG'',
      ''PPM_SC_SENDMSG'', ''PPM_SC_SENDTO'', ''PPM_SC_SETRESUID'', ''PPM_SC_SETRESUID32'', ''PPM_SC_SETUID'',
      ''PPM_SC_SETUID32'', ''PPM_SC_SOCKETPAIR'', ''PPM_SC_VFORK'']"

definition mode_sc_set :: "SFSysCallMode \<Rightarrow> string list" where
  "mode_sc_set m =
     (case m of SFConsumerMode \<Rightarrow> SF_CONSUMER_SC_SET | SFNoFilesMode \<Rightarrow> SF_NO_FILES_SC_SET | SFFlowMode \<Rightarrow> SF_FLOW_SC_SET)"

text \<open>
  \<open>getSyscallSet\<close>. The union with the library's own set is a static variable: the first call decides
  it, and \<open>memo\<close> is what an earlier call left there.
\<close>

definition getSyscallSet :: "string set \<Rightarrow> string set \<Rightarrow> SFSysCallMode \<Rightarrow> string set option \<Rightarrow> string set \<times> string set option" where
  "getSyscallSet state_set ppmScSet m memo =
     (let finalSet = (case memo of None \<Rightarrow> set (mode_sc_set m) \<union> state_set | Some f \<Rightarrow> f)
      in (ppmScSet \<union> finalSet, Some finalSet))"

text \<open>
  The calls the constructor of the context makes on the library's \<open>sinsp\<close> object, with their
  arguments. \<open>openInspector\<close> also fixes the number of ring buffers in the configuration.
\<close>

datatype sinsp_call =
    set_buffer_format_normal
  | set_hostname_and_port_resolution_mode bool
  | set_filter string
  | set_cri_socket_path string
  | set_cri_timeout int
  | set_log_stderr
  | set_min_log_severity_debug
  | open_kmod int "string set"
  | open_bpf string int "string set"
  | open_modern_bpf int int bool "string set"
  | open_savefile string int
  | start_dropping_mode int
  | set_internal_events_mode bool
  | set_snaplen int

fun is_open :: "sinsp_call \<Rightarrow> bool" where
  "is_open (open_kmod dim sc) = True"
| "is_open (open_bpf probe dim sc) = True"
| "is_open (open_modern_bpf dim cpus online sc) = True"
| "is_open (open_savefile path fd) = True"
| "is_open _ = False"

definition openInspector :: "int \<Rightarrow> string \<Rightarrow> string set \<Rightarrow> SysFlowConfig \<Rightarrow> SysFlowConfig \<times> sinsp_call" where
  "openInspector onlineCPUs probe ppm_sc c =
     (case driverType c of
        KMOD \<Rightarrow> (c, open_kmod (singleBufferDimension c) ppm_sc)
      | EBPF \<Rightarrow> (c, open_bpf probe (singleBufferDimension c) ppm_sc)
      | CORE_EBPF \<Rightarrow>
          (let c1 = c\<lparr>cpuBuffers := cpu_buffers onlineCPUs c\<rparr>
           in (c1, open_modern_bpf (singleBufferDimension c1) (cpuBuffers c1) True ppm_sc))
      | NO_DRIVER \<Rightarrow> (c, open_savefile (scapInputPath c) 0))"

definition SysFlowContext_calls :: "env \<Rightarrow> int \<Rightarrow> string set \<Rightarrow> SysFlowConfig \<Rightarrow> sinsp_call list" where
  "SysFlowContext_calls env onlineCPUs state_set c =
     (let offline = (scapInputPath c \<noteq> []);
          (d, probe) = (if offline then (driverType c, '''') else loadDriverInfo env (driverType c));
          c1 = c\<lparr>driverType := d\<rparr>
      in [set_buffer_format_normal, set_hostname_and_port_resolution_mode False] @
         (if falcoFilter c1 \<noteq> [] then [set_filter (falcoFilter c1)] else []) @
         (if criPath c1 \<noteq> [] then [set_cri_socket_path (criPath c1)] else []) @
         (if criTO c1 > 0 then [set_cri_timeout (criTO c1)] else []) @
         (if env_switch env ''DRIVER_LOG'' (debugMode c1) then [set_log_stderr, set_min_log_severity_debug] else []) @
         [snd (openInspector onlineCPUs probe (fst (getSyscallSet state_set {} (collectionMode c1) None)) c1)] @
         (if \<not> offline \<and> env_switch env ''ENABLE_DROP_MODE'' (dropMode c1) then [start_dropping_mode (samplingRatio c1)] else []) @
         (if env ''SF_K8S_API_URL'' \<noteq> None \<or> k8sAPIURL c1 \<noteq> [] then [set_internal_events_mode True] else []) @
         (if \<not> offline then [set_snaplen 0] else []))"

text \<open>
  A call may throw an exception of the library, which ends the constructor. \<open>throws\<close> is the message
  of the last of the calls made so far, if it throws.
\<close>

fun first_throw :: "(sinsp_call list \<Rightarrow> string option) \<Rightarrow> sinsp_call list \<Rightarrow> sinsp_call list \<Rightarrow> string option" where
  "first_throw throws made [] = None"
| "first_throw throws made (c # cs) =
     (case throws (made @ [c]) of
        None \<Rightarrow> first_throw throws (made @ [c]) cs
      | Some msg \<Rightarrow> Some msg)"

lemma first_throw_None [simp]: "first_throw (\<lambda>_. None) made cs = None"
  by (induction cs arbitrary: made) simp_all

text \<open>What the opening leaves in the configuration is what the context keeps.\<close>

lemma openInspector_config: "fst (openInspector cpus probe sc c) = c\<lparr>cpuBuffers := cpu_buffers cpus c\<rparr>"
  by (simp add: openInspector_def cpu_buffers_def Let_def split: DriverType.split)

section \<open>A new processor\<close>

definition K8sEvent_empty :: K8sEvent where
  "K8sEvent_empty = \<lparr>ke_kind = K8S_NODES, ke_action = K8S_COMPONENT_ADDED, ke_ts = 0, ke_message = ''''\<rparr>"

definition SFHeader_empty :: SFHeader where
  "SFHeader_empty = \<lparr>h_version = 0, h_exporter = '''', h_ip = '''', h_filename = ''''\<rparr>"

text \<open>The memory before the components are built, with the writer, after \<open>n\<close> readings of the clock.\<close>

definition sf_init :: "SysFlowContext \<Rightarrow> nat \<Rightarrow> writer \<Rightarrow> sf" where
  "sf_init cxt n w =
     \<lparr>m_cxt = cxt, timeStamp = 0, reads = n, m_writer = w, trace = [], m_pods = [], m_containers = [], m_files = [],
      m_procs = [], m_delProcQue = [], m_delProcTime = 0, m_pfSet = [], heap = (\<lambda>_. None), nextref = 0, m_dfSet = [],
      df_lastCheck = 0, cf_lastCheck = 0, m_uid = '''', m_k8sEvt = K8sEvent_empty, m_statsTime = 0, m_exit = False,
      ccxt_live = False\<rparr>"

definition K8sContext_new :: "sf \<Rightarrow> sf" where
  "K8sContext_new s = s\<lparr>m_pods := []\<rparr>"

definition ContainerContext_new :: "sf \<Rightarrow> sf" where
  "ContainerContext_new s = s\<lparr>m_containers := [], ccxt_live := True\<rparr>"

definition FileContext_new :: "sf \<Rightarrow> sf" where
  "FileContext_new s = s\<lparr>m_files := []\<rparr>"

definition ProcessContext_new :: "inspector \<Rightarrow> sf \<Rightarrow> sf" where
  "ProcessContext_new I s =
     (case getCurrentTime I s of
        (t, s1) \<Rightarrow> s1\<lparr>m_procs := [], m_delProcQue := [], m_delProcTime := t, m_pfSet := []\<rparr>)"

definition DataFlowProcessor_new :: "sf \<Rightarrow> sf" where
  "DataFlowProcessor_new s = s\<lparr>m_dfSet := [], df_lastCheck := 0\<rparr>"

definition ControlFlowProcessor_new :: "sf \<Rightarrow> sf" where
  "ControlFlowProcessor_new s = s\<lparr>cf_lastCheck := 0\<rparr>"

text \<open>
  The constructor of the processor: the start of the first output, the writer, then the contexts and
  the flow processors, in the order of their dependencies.
\<close>

definition SysFlowProcessor_new :: "inspector \<Rightarrow> int \<Rightarrow> SysFlowContext \<Rightarrow> sf option" where
  "SysFlowProcessor_new I version cxt =
     (let rotates = (rotateInterval (m_config cxt) > 0);
          start = (if rotates \<and> \<not> m_offline cxt then clock I 0 else 0);
          n = (if rotates \<and> \<not> m_offline cxt then 1 else 0)
      in map_option
           (\<lambda>w. let s = sf_init cxt n w;
                    s = (if m_k8sEnabled cxt then K8sContext_new s else s);
                    s = ContainerContext_new s;
                    s = FileContext_new s;
                    s = ProcessContext_new I s;
                    s = DataFlowProcessor_new s
                in ControlFlowProcessor_new s)
           (choose_writer cxt version start SFHeader_empty))"

lemmas constructor_defs =
  sf_init_def K8sContext_new_def ContainerContext_new_def FileContext_new_def ProcessContext_new_def
  DataFlowProcessor_new_def ControlFlowProcessor_new_def


section \<open>Facts\<close>

lemma is_digit_space: "is_digit c \<Longrightarrow> \<not> is_space c"
  by (auto simp: is_digit_def is_space_def)

lemma takeWhile_digits: "list_all P xs \<Longrightarrow> takeWhile P xs = xs \<and> dropWhile P xs = []"
  by (induction xs) auto

lemma strtol10_digits: "strtol10 (nat_digits n) = (int n, [])" "strtol10 (CHR ''-'' # nat_digits n) = (- int n, [])"
proof -
  note d = nat_digits_digits [of n]
  then obtain c cs where c: "nat_digits n = c # cs" "is_digit c" by (cases "nat_digits n") auto
  have t: "takeWhile is_digit (nat_digits n) = nat_digits n" "dropWhile is_digit (nat_digits n) = []"
    using takeWhile_digits d by auto
  have "strtol_sign (dropWhile is_space (nat_digits n)) = (False, nat_digits n)"
    using c is_digit_space is_digit_not [of c] by (simp add: strtol_sign_def)
  then show "strtol10 (nat_digits n) = (int n, [])"
    using d by (simp add: strtol10_def Let_def t digits_val_nat_digits)
  have "strtol_sign (dropWhile is_space (CHR ''-'' # nat_digits n)) = (True, nat_digits n)"
    by (simp add: strtol_sign_def is_space_def)
  then show "strtol10 (CHR ''-'' # nat_digits n) = (- int n, [])"
    using d by (simp add: strtol10_def Let_def t digits_val_nat_digits)
qed

lemma str_find_iff: "str_find s pat \<longleftrightarrow> (\<exists>a b. s = a @ pat @ b)"
proof (induction s pat rule: str_find.induct)
  case (2 c cs pat)
  have "take (length pat) (c # cs) = pat \<longleftrightarrow> (\<exists>b. c # cs = pat @ b)"
    by (metis append_eq_conv_conj append_take_drop_id)
  then have "str_find (c # cs) pat \<longleftrightarrow> (\<exists>b. c # cs = pat @ b) \<or> (\<exists>a b. cs = a @ pat @ b)"
    using "2.IH" by (simp only: str_find.simps)
  also have "\<dots> \<longleftrightarrow> (\<exists>a b. c # cs = a @ pat @ b)"
  proof
    assume "(\<exists>b. c # cs = pat @ b) \<or> (\<exists>a b. cs = a @ pat @ b)"
    then show "\<exists>a b. c # cs = a @ pat @ b"
    proof (elim disjE exE)
      fix b assume "c # cs = pat @ b"
      then have "c # cs = [] @ pat @ b" by simp
      then show ?thesis by blast
    next
      fix a b assume "cs = a @ pat @ b"
      then have "c # cs = (c # a) @ pat @ b" by simp
      then show ?thesis by blast
    qed
  next
    assume "\<exists>a b. c # cs = a @ pat @ b"
    then obtain a b where ab: "c # cs = a @ pat @ b" by blast
    then show "(\<exists>b. c # cs = pat @ b) \<or> (\<exists>a b. cs = a @ pat @ b)"
      by (cases a) auto
  qed
  finally show ?case .
qed auto





lemma parse_opt_config:
  "parse_opt opt c = Go c1 \<Longrightarrow> singleBufferDimension (cli_config c1) = singleBufferDimension (cli_config c) \<and>
     cpuBuffers (cli_config c1) = cpuBuffers (cli_config c)"
  by (auto simp: parse_opt_def Let_def upd_config_def split: if_splits option.splits)

lemma parse_opts_config:
  "parse_opts opts c = Go c1 \<Longrightarrow> singleBufferDimension (cli_config c1) = singleBufferDimension (cli_config c) \<and>
     cpuBuffers (cli_config c1) = cpuBuffers (cli_config c)"
  by (induction opts c rule: parse_opts.induct) (auto split: if_splits cli_result.splits dest: parse_opt_config)

lemma main_config_driver:
  assumes "main_config dim argv0 opts = Go c"
  shows "scapInputPath c \<noteq> [] \<longrightarrow> driverType c = NO_DRIVER" "singleBufferDimension c = dim" "cpuBuffers c = 0"
  using assms by (auto simp: main_config_def InitializeSysFlowConfig_def split: cli_result.splits if_splits dest: parse_opts_config)

text \<open>A live capture always has a driver.\<close>

lemma loadDriverInfo_live: "fst (loadDriverInfo env d) \<noteq> NO_DRIVER"
  by (cases d) (auto simp: loadDriverInfo_def split: option.splits)

section \<open>Properties\<close>

text \<open>C33: The decimal text of every \<open>int\<close> is read back by \<open>str2int\<close> as that number.\<close>

theorem str2int_roundtrip:
  assumes "INT_MIN \<le> x" and "x \<le> INT_MAX"
  shows "str2int (to_string x) = Some x"
  using assms strtol10_digits(1) [of "nat x"] strtol10_digits(2) [of "nat (- x)"] nat_digits_digits [of "nat x"]
  by (auto simp: str2int_def to_string_def INT_MIN_def INT_MAX_def)

theorem str2int_roundtrip_witness: "str2int (to_string (-300)) = Some (-300)"
  by (rule str2int_roundtrip) (simp_all add: INT_MIN_def INT_MAX_def)



text \<open>C35: The check that \<open>-r\<close> and \<open>-k\<close> are not given together depends on their order: \<open>-r\<close> resets the driver,
  so \<open>-k\<close> before \<open>-r\<close> is accepted as a reading of the capture file, and \<open>-k\<close> after \<open>-r\<close> is refused.\<close>

theorem driver_option_order:
  assumes "parse_driver d = Some k" and "f \<noteq> []"
  shows "(\<exists>c. main_config dim argv0 [(CHR ''k'', d), (CHR ''r'', f)] = Go c \<and> scapInputPath c = f \<and> driverType c = NO_DRIVER) \<and>
    main_config dim argv0 [(CHR ''r'', f), (CHR ''k'', d)] = Exit 1"
proof -
  have "k \<noteq> NO_DRIVER" using assms(1) by (auto simp: parse_driver_def split: if_splits)
  then show ?thesis using assms
    by (simp add: main_config_def known_opts_def parse_opt_def upd_config_def InitializeSysFlowConfig_def)
qed

theorem driver_option_order_witness:
  "parse_driver ''KMOD'' = Some KMOD \<and>
   main_config 0 ''sysporter'' [(CHR ''r'', ''a.scap''), (CHR ''k'', ''KMOD'')] = Exit 1"
proof
  show d: "parse_driver ''KMOD'' = Some KMOD" by code_simp
  show "main_config 0 ''sysporter'' [(CHR ''r'', ''a.scap''), (CHR ''k'', ''KMOD'')] = Exit 1"
    using driver_option_order [OF d, of "''a.scap''" 0 "''sysporter''"] by simp
qed

text \<open>The consumer mode and the mode without files ask the driver for a part of the system calls of the flow
  mode, and every mode for those the library needs.\<close>

lemma mode_subsets:
  "fst (getSyscallSet state_set {} m None) \<subseteq> fst (getSyscallSet state_set {} SFFlowMode None) \<and>
   state_set \<subseteq> fst (getSyscallSet state_set {} m None)"
proof -
  have "set SF_CONSUMER_SC_SET \<subseteq> set SF_FLOW_SC_SET" "set SF_NO_FILES_SC_SET \<subseteq> set SF_FLOW_SC_SET" by code_simp+
  then show ?thesis by (cases m) (auto simp: getSyscallSet_def mode_sc_set_def Let_def)
qed

text \<open>The set of system calls is computed once in the life of the program: a later context gets the set of
  the first, whatever its own mode.\<close>

lemma syscall_set_of_first_mode:
  "fst (getSyscallSet state_set {} m2 (snd (getSyscallSet state_set {} m1 None))) = fst (getSyscallSet state_set {} m1 None)"
  by (simp add: getSyscallSet_def Let_def)



text \<open>C37: For an accepted command line the context opens exactly one source of events: the capture file if one
  is given, and then no sampling is started, or else the kernel driver the context has chosen, with the
  system calls of the mode and those the library needs, and for the CO-RE driver one buffer per
  processor.\<close>

theorem context_opens_source:
  assumes "main_config dim argv0 opts = Go c" and "SysFlowContext_new env rpath modules cpus c = Inr cxt"
  shows "filter is_open (SysFlowContext_calls env cpus state_set c) =
      [let sc = set (mode_sc_set (collectionMode c)) \<union> state_set in
       if scapInputPath c \<noteq> [] then open_savefile (scapInputPath c) 0
       else if driverType (m_config cxt) = KMOD then open_kmod dim sc
       else if driverType (m_config cxt) = EBPF then open_bpf (m_ebpfProbe cxt) dim sc
       else open_modern_bpf dim cpus True sc] \<and>
    ((\<exists>r. start_dropping_mode r \<in> set (SysFlowContext_calls env cpus state_set c)) \<longrightarrow> scapInputPath c = [])"
proof -
  have c: "scapInputPath c \<noteq> [] \<longrightarrow> driverType c = NO_DRIVER" "singleBufferDimension c = dim" "cpuBuffers c = 0"
    using main_config_driver [OF assms(1)] by auto
  obtain d probe where d: "loadDriverInfo env (driverType c) = (d, probe)" by fastforce
  have "d \<noteq> NO_DRIVER" using loadDriverInfo_live [of env "driverType c"] d by simp
  then show ?thesis using c d assms(2)
    by (auto simp: SysFlowContext_calls_def SysFlowContext_new_def openInspector_def cpu_buffers_def getSyscallSet_def Let_def
        split: DriverType.splits option.splits)
qed

theorem context_opens_source_witness:
  "\<exists>c cxt. main_config 8 ''sfcollector'' [(CHR ''m'', ''nofiles''), (CHR ''k'', ''ebpf-core'')] = Go c \<and>
     SysFlowContext_new (\<lambda>_. None) (\<lambda>_. None) None 4 c = Inr cxt \<and>
     filter is_open (SysFlowContext_calls (\<lambda>_. None) 4 {''PPM_SC_PRCTL''} c) =
       [open_modern_bpf 8 4 True (set SF_NO_FILES_SC_SET \<union> {''PPM_SC_PRCTL''})]"
proof -
  define r where "r = main_config 8 ''sfcollector'' [(CHR ''m'', ''nofiles''), (CHR ''k'', ''ebpf-core'')]"
  have "(case r of
           Go c \<Rightarrow> scapInputPath c = [] \<and> collectionMode c = SFNoFilesMode \<and>
             (case SysFlowContext_new (\<lambda>_. None) (\<lambda>_. None) None 4 c of
                Inr cxt \<Rightarrow> driverType (m_config cxt) = CORE_EBPF | Inl e \<Rightarrow> False)
         | Exit n \<Rightarrow> False)"
    unfolding r_def by code_simp
  then obtain c cxt where c: "r = Go c" "scapInputPath c = []" "collectionMode c = SFNoFilesMode"
    and x: "SysFlowContext_new (\<lambda>_. None) (\<lambda>_. None) None 4 c = Inr cxt" "driverType (m_config cxt) = CORE_EBPF"
    by (auto split: cli_result.splits sum.splits)
  show ?thesis using context_opens_source [OF c(1) [unfolded r_def] x(1), of "{''PPM_SC_PRCTL''}"] c x
    by (auto simp: r_def mode_sc_set_def)
qed

text \<open>A message of the library is classified by the texts it contains, wherever they stand in it; a message
  with none of them is a plain library error.\<close>

lemma setErrorCode_cases:
  "setErrorCode m =
     (if (\<exists>a b. m = a @ ''Driver supports API version'' @ b) \<or> (\<exists>a b. m = a @ ''missing api_version section'' @ b)
      then DriverLibsMismatch
      else if \<exists>a b. m = a @ ''Make sure you have root credentials and that the falco module is loaded.'' @ b
      then ProbeAccessDenied
      else LibsError)"
  unfolding setErrorCode_def str_find_iff by auto

end
