(* ===== verification/Log.thy ===== *)
theory Log
  imports Config
begin

text \<open>
  The integrity of the output: every flow and event that is written with its process and files
  comes after the records of that process and those files in the same output, and an object marked
  as written has its record in the current output. The theory goes through the components in the
  order of their calls and ends with the event loop.
\<close>

section \<open>What a log has to satisfy\<close>

definition logged_procs :: "wcall list \<Rightarrow> OID set" where
  "logged_procs tr = {proc_oid p | p. Write1 (R_Process p) \<in> set tr}"

definition logged_files :: "wcall list \<Rightarrow> FOID set" where
  "logged_files tr = {file_oid f | f. Write1 (R_File f) \<in> set tr}"

definition logged_conts :: "wcall list \<Rightarrow> string set" where
  "logged_conts tr = {cont_id c | c. Write1 (R_Container c) \<in> set tr}"

text \<open>The process a record names.\<close>

fun rec_oid :: "sfrec \<Rightarrow> OID option" where
  "rec_oid (R_ProcessEvent e) = Some (pe_procOID e)"
| "rec_oid (R_FileEvent e) = Some (fe_procOID e)"
| "rec_oid (R_NetworkFlow f) = Some (nf_procOID f)"
| "rec_oid (R_FileFlow f) = Some (ff_procOID f)"
| "rec_oid (R_ProcessFlow f) = Some (pf_procOID f)"
| "rec_oid _ = None"

text \<open>Events, which name one process and up to two files.\<close>

fun is_event :: "sfrec \<Rightarrow> bool" where
  "is_event (R_ProcessEvent e) = True"
| "is_event (R_FileEvent e) = True"
| "is_event _ = False"

fun rec_files :: "sfrec \<Rightarrow> FOID list" where
  "rec_files (R_FileEvent e) = fe_fileOID e # (case fe_newFileOID e of None \<Rightarrow> [] | Some f \<Rightarrow> [f])"
| "rec_files _ = []"

text \<open>
  A call of the writer after the calls \<open>tr\<close>: the process and the files it hands over are in the log,
  the record is one that names a process, and names that one, and an event always has its process and
  its files.
\<close>

fun covered :: "wcall list \<Rightarrow> wcall \<Rightarrow> bool" where
  "covered tr (Write1 r) = (rec_oid r = None)"
| "covered tr (Write4 r p f1 f2) =
     ((\<forall>q. p = Some q \<longrightarrow> proc_oid q \<in> logged_procs tr \<and> rec_oid r = Some (proc_oid q)) \<and>
      (\<forall>f. f1 = Some f \<or> f2 = Some f \<longrightarrow> file_oid f \<in> logged_files tr) \<and>
      rec_oid r \<noteq> None \<and> (is_event r \<longrightarrow> p \<noteq> None \<and> set (rec_files r) \<subseteq> logged_files tr))"

definition well_logged :: "wcall list \<Rightarrow> bool" where
  "well_logged tr = (\<forall>i < length tr. covered (take i tr) (tr ! i))"

text \<open>
  The same for the records of a file, as a reader sees them: the file starts with a header, and
  every event comes after the record of its process and the records of its files.
\<close>

definition event_ok :: "sfrec list \<Rightarrow> sfrec \<Rightarrow> bool" where
  "event_ok rs r =
     (is_event r \<longrightarrow> (\<exists>p. R_Process p \<in> set rs \<and> rec_oid r = Some (proc_oid p)) \<and>
        (\<forall>i \<in> set (rec_files r). \<exists>f. R_File f \<in> set rs \<and> file_oid f = i))"

definition file_ok :: "sfrec list \<Rightarrow> bool" where
  "file_ok rs = ((\<exists>h rs1. rs = R_SFHeader h # rs1) \<and> (\<forall>i < length rs. event_ok (take i rs) (rs ! i)))"

fun closed_files :: "writer \<Rightarrow> (string \<times> sfrec list) list" where
  "closed_files (FileW w) = fw_closed w"
| "closed_files (SockW w) = []"
| "closed_files (MultiW b k f) = fw_closed f"
| "closed_files (CallbackW w) = []"

text \<open>The writers that keep files.\<close>

fun has_file :: "writer \<Rightarrow> bool" where
  "has_file (FileW w) = True"
| "has_file (SockW w) = False"
| "has_file (MultiW b k f) = True"
| "has_file (CallbackW w) = False"

definition starts_header :: "wcall list \<Rightarrow> bool" where
  "starts_header tr = (\<exists>h tr1. tr = Write1 (R_SFHeader h) # tr1)"

text \<open>
  What a callback is handed: the header as it was constructed, a flow or an event, the process it
  names if any, and for an event always its process.
\<close>

definition call_ok :: "SFHeader \<times> Container option \<times> Process option \<times> SFFile option \<times> SFFile option \<times> sfrec \<Rightarrow> bool" where
  "call_ok x = (case x of (h, c, p, f1, f2, r) \<Rightarrow>
     h = SFHeader_empty \<and> rec_oid r \<noteq> None \<and> (is_event r \<longrightarrow> p \<noteq> None) \<and>
     (\<forall>q. p = Some q \<longrightarrow> rec_oid r = Some (proc_oid q)))"

fun callback_ok :: "writer \<Rightarrow> bool" where
  "callback_ok (CallbackW w) = (cb_header w = SFHeader_empty \<and> list_all call_ok (cb_calls w))"
| "callback_ok w = True"

definition log_ok :: "sf \<Rightarrow> bool" where
  "log_ok s = (well_logged (trace s) \<and> starts_header (trace s) \<and> w_sync (m_writer s) (trace s) \<and> callback_ok (m_writer s) \<and>
     (\<forall>rs \<in> snd ` set (closed_files (m_writer s)). file_ok rs))"

text \<open>The objects marked as written, and the flows the tables point to.\<close>

definition conts_logged :: "sf \<Rightarrow> bool" where
  "conts_logged s = (\<forall>cid c. find_cont s cid = Some c \<longrightarrow> c_written c \<longrightarrow> cont_id (c_cont c) \<in> logged_conts (trace s))"

definition files_logged :: "sf \<Rightarrow> bool" where
  "files_logged s = (\<forall>key f. find_file s key = Some f \<longrightarrow> f_written f \<longrightarrow> file_oid (f_file f) \<in> logged_files (trace s))"

definition flow_of :: "OID \<Rightarrow> DataFlow \<Rightarrow> bool \<Rightarrow> bool" where
  "flow_of oid d net =
     (case d of Net n \<Rightarrow> net \<and> nf_procOID (netflow n) = oid | Fil f \<Rightarrow> \<not> net \<and> ff_procOID (fileflow f) = oid)"

definition owns :: "sf \<Rightarrow> OID \<Rightarrow> bool \<Rightarrow> ref \<Rightarrow> bool" where
  "owns s oid net r = (r < nextref s \<and> (\<forall>d. heap s r = Some d \<longrightarrow> flow_of oid d net))"

definition proc_ok :: "sf \<Rightarrow> OID \<Rightarrow> ProcessObj \<Rightarrow> bool" where
  "proc_ok s oid p =
     (proc_oid (p_proc p) = oid \<and> (p_written p \<longrightarrow> oid \<in> logged_procs (trace s)) \<and>
      (\<forall>r \<in> snd ` set (netflows p). owns s oid True r) \<and> (\<forall>r \<in> snd ` set (fileflows p). owns s oid False r) \<and>
      (\<forall>f. pfo p = Some f \<longrightarrow> pf_procOID (procflow f) = oid))"

definition procs_logged :: "sf \<Rightarrow> bool" where
  "procs_logged s = (\<forall>oid p. find_proc s oid = Some p \<longrightarrow> proc_ok s oid p)"

definition linv :: "sf \<Rightarrow> bool" where
  "linv s = (log_ok s \<and> conts_logged s \<and> files_logged s \<and> procs_logged s \<and> tbl_ok (m_procs s))"

text \<open>The part of the state the containers, the files and the writer leave alone.\<close>

definition core :: "sf \<Rightarrow> sf" where
  "core s = s\<lparr>m_writer := undefined, reads := 0, trace := [], m_pods := [], m_containers := [], m_files := [], m_exit := False\<rparr>"

text \<open>The log grows at its end, in the same file.\<close>

definition ext :: "sf \<Rightarrow> sf \<Rightarrow> bool" where
  "ext s s1 = ((\<exists>cs. trace s1 = trace s @ cs) \<and> closed_files (m_writer s1) = closed_files (m_writer s) \<and>
     has_file (m_writer s1) = has_file (m_writer s))"

section \<open>Logs\<close>

lemma logged_append [simp]:
  "logged_procs (xs @ ys) = logged_procs xs \<union> logged_procs ys"
  "logged_files (xs @ ys) = logged_files xs \<union> logged_files ys"
  "logged_conts (xs @ ys) = logged_conts xs \<union> logged_conts ys"
  by (auto simp: logged_procs_def logged_files_def logged_conts_def)

lemma logged_single [simp]:
  "logged_procs [Write1 (R_Process p)] = {proc_oid p}" "logged_files [Write1 (R_File f)] = {file_oid f}"
  "logged_conts [Write1 (R_Container c)] = {cont_id c}"
  by (auto simp: logged_procs_def logged_files_def logged_conts_def)

lemma covered_mono: "covered tr c \<Longrightarrow> covered (tr @ cs) c"
  by (cases c) auto

lemma well_logged_snoc: "well_logged (tr @ [c]) \<longleftrightarrow> well_logged tr \<and> covered tr c"
  by (auto simp: well_logged_def nth_append less_Suc_eq)

lemma logged_wrec:
  "i \<in> logged_procs tr \<Longrightarrow> \<exists>p. R_Process p \<in> set (map wrec tr) \<and> proc_oid p = i"
  "j \<in> logged_files tr \<Longrightarrow> \<exists>f. R_File f \<in> set (map wrec tr) \<and> file_oid f = j"
  by (force simp: logged_procs_def logged_files_def)+

lemma wrec_covered: "covered tr c \<Longrightarrow> event_ok (map wrec tr) (wrec c)"
proof (cases c)
  case (Write1 r)
  moreover assume "covered tr c"
  ultimately show ?thesis by (cases r) (auto simp: event_ok_def)
next
  case (Write4 r p f1 f2)
  moreover assume "covered tr c"
  ultimately have c: "covered tr (Write4 r p f1 f2)" by simp
  then have p: "rec_oid r = Some (proc_oid q) \<and> proc_oid q \<in> logged_procs tr" if "p = Some q" for q
    using that by auto
  from c have e: "p \<noteq> None \<and> set (rec_files r) \<subseteq> logged_files tr" if "is_event r"
    using that by auto
  show ?thesis unfolding event_ok_def Write4 wcall.sel
  proof (intro impI conjI ballI)
    assume "is_event r"
    with e obtain q where "p = Some q" by auto
    with p logged_wrec(1) show "\<exists>p. R_Process p \<in> set (map wrec tr) \<and> rec_oid r = Some (proc_oid p)" by metis
  qed (use e logged_wrec(2) in blast)
qed

lemma well_logged_file_ok: "well_logged tr \<Longrightarrow> starts_header tr \<Longrightarrow> file_ok (map wrec tr)"
  using wrec_covered by (auto simp: well_logged_def file_ok_def starts_header_def take_map)

lemma starts_header_append: "starts_header tr \<Longrightarrow> starts_header (tr @ cs)"
  by (auto simp: starts_header_def)

lemma closed_files_emit [simp]: "closed_files (m_writer (emit I c s)) = closed_files (m_writer s)"
  by (cases "m_writer s") (auto simp: emit_def virtual_write_def file_write_def split: prod.splits)

lemma has_file_emit [simp]: "has_file (m_writer (emit I c s)) = has_file (m_writer s)"
  by (cases "m_writer s") (auto simp: emit_def virtual_write_def split: prod.splits)

lemma cb_write_ok:
  assumes "callback_ok (CallbackW w)" and "covered tr c"
  shows "callback_ok (CallbackW (cb_write s c w))"
  using assms by (cases c) (auto simp: call_ok_def split: sfrec.splits)

lemma callback_ok_emit:
  assumes "callback_ok (m_writer s)" and "covered tr c"
  shows "callback_ok (m_writer (emit I c s))"
proof (cases "m_writer s")
  case (CallbackW w)
  then have "callback_ok (CallbackW (w\<lparr>m_numRecs := m_numRecs w + 1\<rparr>))" using assms(1) by simp
  from cb_write_ok [OF this assms(2)] show ?thesis using CallbackW by (simp add: emit_def virtual_write_def)
qed (auto simp: emit_def virtual_write_def split: prod.splits)

lemma log_ok_emit: "log_ok s \<Longrightarrow> covered (trace s) c \<Longrightarrow> log_ok (emit I c s)"
  using w_sync_emit [of s I c] callback_ok_emit [of s "trace s" c I] by (auto simp: log_ok_def well_logged_snoc starts_header_append)

text \<open>A reset closes the current file of a writer that has one, and opens the next.\<close>

lemma log_ok_reset:
  assumes "log_ok s" and "w_reset I t ex s1 (m_writer s) = (w, n, h)"
  shows "(\<forall>rs \<in> snd ` set (closed_files w). file_ok rs) \<and> callback_ok w"
proof -
  have "file_ok (map wrec (trace s))" using assms(1) well_logged_file_ok by (simp add: log_ok_def)
  then show ?thesis using assms
    by (cases "m_writer s") (auto simp: log_ok_def file_reset_def file_open_def file_header_def file_write_def Let_def split: prod.splits)
qed

lemma ext_refl [simp, intro]: "ext s s"
  by (simp add: ext_def)

lemma ext_trans: "ext s s1 \<Longrightarrow> ext s1 s2 \<Longrightarrow> ext s s2"
  by (auto simp: ext_def)

lemma ext_emit [simp, intro]: "ext s (emit I c s)"
  by (simp add: ext_def)

lemma ext_logged:
  "ext s s1 \<Longrightarrow> x \<in> logged_procs (trace s) \<Longrightarrow> x \<in> logged_procs (trace s1)"
  "ext s s1 \<Longrightarrow> f \<in> logged_files (trace s) \<Longrightarrow> f \<in> logged_files (trace s1)"
  "ext s s1 \<Longrightarrow> c \<in> logged_conts (trace s) \<Longrightarrow> c \<in> logged_conts (trace s1)"
  by (auto simp: ext_def)

lemma core_emit [simp]: "core (emit I c s) = core s"
  by (auto simp: core_def emit_def virtual_write_def split: writer.splits prod.splits)

lemma core_fields:
  assumes "core s1 = core s"
  shows "m_cxt s1 = m_cxt s" "timeStamp s1 = timeStamp s" "m_procs s1 = m_procs s"
    "m_delProcQue s1 = m_delProcQue s" "m_delProcTime s1 = m_delProcTime s" "m_pfSet s1 = m_pfSet s"
    "heap s1 = heap s" "nextref s1 = nextref s" "m_dfSet s1 = m_dfSet s" "df_lastCheck s1 = df_lastCheck s"
    "cf_lastCheck s1 = cf_lastCheck s" "m_uid s1 = m_uid s" "m_k8sEvt s1 = m_k8sEvt s" "m_statsTime s1 = m_statsTime s"
proof -
  have f: "m_cxt (core s) = m_cxt s \<and> timeStamp (core s) = timeStamp s \<and> m_procs (core s) = m_procs s \<and>
    m_delProcQue (core s) = m_delProcQue s \<and> m_delProcTime (core s) = m_delProcTime s \<and> m_pfSet (core s) = m_pfSet s \<and>
    heap (core s) = heap s \<and> nextref (core s) = nextref s \<and> m_dfSet (core s) = m_dfSet s \<and>
    df_lastCheck (core s) = df_lastCheck s \<and> cf_lastCheck (core s) = cf_lastCheck s \<and> m_uid (core s) = m_uid s \<and>
    m_k8sEvt (core s) = m_k8sEvt s \<and> m_statsTime (core s) = m_statsTime s" for s
    by (simp add: core_def)
  show "m_cxt s1 = m_cxt s" "timeStamp s1 = timeStamp s" "m_procs s1 = m_procs s"
    "m_delProcQue s1 = m_delProcQue s" "m_delProcTime s1 = m_delProcTime s" "m_pfSet s1 = m_pfSet s"
    "heap s1 = heap s" "nextref s1 = nextref s" "m_dfSet s1 = m_dfSet s" "df_lastCheck s1 = df_lastCheck s"
    "cf_lastCheck s1 = cf_lastCheck s" "m_uid s1 = m_uid s" "m_k8sEvt s1 = m_k8sEvt s" "m_statsTime s1 = m_statsTime s"
    using f [of s] f [of s1] assms by auto
qed

lemma core_upd [simp]:
  "core (s\<lparr>m_pods := x1\<rparr>) = core s" "core (s\<lparr>m_containers := x2\<rparr>) = core s" "core (s\<lparr>m_files := x3\<rparr>) = core s"
  "core (s\<lparr>reads := n\<rparr>) = core s" "core (s\<lparr>trace := tr\<rparr>) = core s" "core (s\<lparr>m_exit := b\<rparr>) = core s"
  "core (s\<lparr>m_writer := w\<rparr>) = core s"
  by (simp_all add: core_def)

lemma procs_logged_core:
  assumes "core s1 = core s" "ext s s1" "procs_logged s"
  shows "procs_logged s1"
  using assms(3) core_fields [OF assms(1)] ext_logged(1) [OF assms(2)]
  by (simp add: procs_logged_def proc_ok_def owns_def)

section \<open>Containers and pods\<close>

text \<open>
  What an operation of the containers does to the rest: nothing but writing records, and the
  containers marked as written stay logged.
\<close>

definition cstep :: "sf \<Rightarrow> sf \<Rightarrow> bool" where
  "cstep s s1 = (core s1 = core s \<and> m_files s1 = m_files s \<and> ext s s1 \<and>
     (log_ok s \<longrightarrow> log_ok s1) \<and> (conts_logged s \<longrightarrow> conts_logged s1))"

lemma cstep_refl [simp, intro]: "cstep s s"
  by (simp add: cstep_def)

lemma cstep_trans: "cstep s s1 \<Longrightarrow> cstep s1 s2 \<Longrightarrow> cstep s s2"
  by (auto simp: cstep_def intro: ext_trans)

lemma log_ok_upd [simp]:
  "log_ok (s\<lparr>m_pods := x1\<rparr>) = log_ok s" "log_ok (s\<lparr>m_containers := x2\<rparr>) = log_ok s"
  "log_ok (s\<lparr>m_files := x3\<rparr>) = log_ok s" "log_ok (s\<lparr>m_procs := x4\<rparr>) = log_ok s"
  "log_ok (s\<lparr>reads := n\<rparr>) = log_ok s" "log_ok (s\<lparr>m_exit := b\<rparr>) = log_ok s"
  "log_ok (s\<lparr>heap := h\<rparr>) = log_ok s" "log_ok (s\<lparr>nextref := n\<rparr>) = log_ok s" "log_ok (s\<lparr>m_dfSet := q\<rparr>) = log_ok s"
  "log_ok (s\<lparr>m_pfSet := q1\<rparr>) = log_ok s" "log_ok (s\<lparr>m_delProcQue := q2\<rparr>) = log_ok s"
  by (simp_all add: log_ok_def)

lemma ext_upd [simp]:
  "ext s (s1\<lparr>m_pods := x1\<rparr>) = ext s s1" "ext s (s1\<lparr>m_containers := x2\<rparr>) = ext s s1"
  "ext s (s1\<lparr>m_files := x3\<rparr>) = ext s s1" "ext s (s1\<lparr>m_procs := x4\<rparr>) = ext s s1"
  "ext s (s1\<lparr>reads := n\<rparr>) = ext s s1" "ext s (s1\<lparr>heap := h\<rparr>) = ext s s1" "ext s (s1\<lparr>nextref := n\<rparr>) = ext s s1"
  "ext s (s1\<lparr>m_dfSet := q\<rparr>) = ext s s1" "ext s (s1\<lparr>m_pfSet := q1\<rparr>) = ext s s1"
  "ext s (s1\<lparr>m_delProcQue := q2\<rparr>) = ext s s1"
  by (simp_all add: ext_def)

lemma conts_logged_emit: "conts_logged s \<Longrightarrow> conts_logged (emit I c s)"
  by (auto simp: conts_logged_def)

lemma cstep_emit: "covered (trace s) c \<Longrightarrow> cstep s (emit I c s)"
  by (simp add: cstep_def log_ok_emit conts_logged_emit)

lemma conts_logged_pods [simp]: "conts_logged (s\<lparr>m_pods := x1\<rparr>) = conts_logged s"
  by (simp add: conts_logged_def)

lemma cstep_pods [simp]: "cstep s (s1\<lparr>m_pods := x1\<rparr>) = cstep s s1"
  by (simp add: cstep_def)

lemma cstep_cont_update:
  assumes "cstep s s1" and "c_written c \<Longrightarrow> cont_id (c_cont c) \<in> logged_conts (trace s1)"
  shows "cstep s (s1\<lparr>m_containers := AList.update cid c (m_containers s1)\<rparr>)"
  using assms by (auto simp: cstep_def conts_logged_def)

lemma cstep_write_cont:
  assumes "cstep s s1"
  shows "cstep s ((emit I (Write1 (R_Container (c_cont c))) s1)
    \<lparr>m_containers := AList.update cid (c\<lparr>c_written := True\<rparr>) (m_containers s1)\<rparr>)"
proof -
  let ?s2 = "emit I (Write1 (R_Container (c_cont c))) s1"
  have "cstep s ?s2" using assms cstep_emit [of s1 "Write1 (R_Container (c_cont c))" I] cstep_trans by simp
  then show ?thesis using cstep_cont_update [of s ?s2 "c\<lparr>c_written := True\<rparr>" cid] by simp
qed

lemma cstep_exportPod: "cstep s (snd (exportPod I p s))"
  by (auto simp: exportPod_def writePod_def Let_def cstep_emit split: option.splits)

lemma cstep_derefPod: "cstep s (snd (derefPod p s))"
  by (auto simp: derefPod_def Let_def split: option.splits)

lemma cstep_set_pod: "cstep s (snd (set_pod ti c s))"
  by (auto simp: set_pod_def pod_incr_def split: option.splits)

lemma cstep_reupPod: "cstep s (snd (reupPod ti c s))"
  using cstep_set_pod [of _ ti c]
  by (auto simp: reupPod_def Let_def split: option.splits intro!: cstep_trans [OF _ cstep_set_pod])

lemma cstep_createContainer: "cstep s (snd (createContainer I ti s))"
  using cstep_set_pod [of s ti]
  by (auto simp: createContainer_def Let_def split: option.splits prod.splits) (metis snd_conv)+

lemma cstep_store_container: "cstep s (snd (store_container I ct s))"
  by (simp add: store_container_def Let_def writeContainer_def cstep_write_cont)

lemma cstep_getContainer: "cstep s (snd (getContainer I ti s))"
proof -
  have 1: "cstep s (snd (store_container I ct s1))" if "cstep s s1" for ct s1
    using that cstep_store_container cstep_trans by blast
  have 2: "cstep s (snd (createContainer I ti s))" "cstep s (snd (reupPod ti ct s))" for ct
    by (rule cstep_createContainer cstep_reupPod)+
  show ?thesis
    using 1 2 by (auto simp: getContainer_def Let_def split: option.splits prod.splits) (metis snd_conv)+
qed

lemma cstep_exportContainer: "cstep s (snd (exportContainer I cid s))"
  by (auto simp: exportContainer_def Let_def writeContainer_def cstep_exportPod cstep_write_cont split: option.split)

lemma cstep_count:
  "find_cont s cid = Some c \<Longrightarrow> cstep s (s\<lparr>m_containers := AList.update cid (c\<lparr>c_refs := n\<rparr>) (m_containers s)\<rparr>)"
  by (auto simp: cstep_def conts_logged_def)

lemma cstep_counts:
  "cstep s (cont_incr cid s)" "cstep s (cont_decr cid s)" "cstep s (snd (derefContainer cid s))"
  by (auto simp: cont_incr_def cont_decr_def derefContainer_def Let_def cstep_count split: option.split)

section \<open>Files\<close>

text \<open>The same for the operations of the files, which may write containers too.\<close>

definition file_written :: "sf \<Rightarrow> string \<Rightarrow> bool" where
  "file_written s key = (\<exists>f. find_file s key = Some f \<and> f_written f)"

definition fstep :: "sf \<Rightarrow> sf \<Rightarrow> bool" where
  "fstep s s1 = (core s1 = core s \<and> ext s s1 \<and> (linv s \<longrightarrow> linv s1) \<and> (\<forall>k. file_written s k \<longrightarrow> file_written s1 k))"

lemma fstep_refl [simp, intro]: "fstep s s"
  by (simp add: fstep_def)

lemma fstep_trans: "fstep s s1 \<Longrightarrow> fstep s1 s2 \<Longrightarrow> fstep s s2"
  by (auto simp: fstep_def intro: ext_trans)

lemma files_logged_ext: "files_logged s \<Longrightarrow> m_files s1 = m_files s \<Longrightarrow> ext s s1 \<Longrightarrow> files_logged s1"
  by (auto simp: files_logged_def dest: ext_logged)

lemma cstep_fstep: "cstep s s1 \<Longrightarrow> fstep s s1"
  using core_fields(3) [of s1 s]
  by (auto simp: cstep_def fstep_def linv_def file_written_def intro: procs_logged_core files_logged_ext)

lemma fstep_emit: "covered (trace s) c \<Longrightarrow> fstep s (emit I c s)"
  by (rule cstep_fstep [OF cstep_emit])

lemma fstep_file_update:
  assumes "fstep s s1" and "f_written f" and "file_oid (f_file f) \<in> logged_files (trace s1)"
  shows "fstep s (s1\<lparr>m_files := AList.update key f (m_files s1)\<rparr>)"
proof -
  have "procs_logged (s1\<lparr>m_files := AList.update key f (m_files s1)\<rparr>)" if "procs_logged s1"
    using that by (rule procs_logged_core [rotated 2]) auto
  with assms show ?thesis
    by (auto simp: fstep_def linv_def files_logged_def conts_logged_def file_written_def)
qed

lemma fstep_write_file_obj: "fstep s (write_file_obj I key f s)"
proof -
  let ?s1 = "emit I (Write1 (R_File (f_file f))) s"
  have "fstep s ?s1" by (simp add: fstep_emit)
  then show ?thesis
    using fstep_file_update [of s ?s1 "f\<lparr>f_written := True\<rparr>" key]
    by (simp add: write_file_obj_def writeFile_def Let_def)
qed

lemma fstep_createFile: "createFile I ev ti path tc st key s = (f, s1) \<Longrightarrow> fstep s s1"
  using cstep_fstep [OF cstep_getContainer, of s I "main_thread_or_self I ti"]
  by (auto simp: createFile_def Let_def split: prod.splits)

lemma fstep_getFile: "fstep s (snd (getFile I ev ti path tc st s))"
  using fstep_write_file_obj
  by (auto simp: getFile_def Let_def split: option.split prod.split
      intro: fstep_trans [OF fstep_createFile fstep_write_file_obj])

lemma fstep_getFile_key: "fstep s (snd (getFile_key I key s))" "fstep s (snd (exportFile I key s))"
  using fstep_write_file_obj by (auto simp: getFile_key_def exportFile_def split: option.split)

lemma fstep_file_count:
  "fstep s (file_incr key s)" "fstep s (file_decr key s)"
proof -
  have "fstep s (s\<lparr>m_files := AList.update key (f\<lparr>f_refs := n\<rparr>) (m_files s)\<rparr>)" if "find_file s key = Some f" for f n
    using that by (auto simp: fstep_def linv_def files_logged_def conts_logged_def file_written_def intro: procs_logged_core [rotated 2])
  then show "fstep s (file_incr key s)" "fstep s (file_decr key s)"
    by (auto simp: file_incr_def file_decr_def split: option.split)
qed

text \<open>The file a lookup returns has its record in the log.\<close>

lemma getFile_written:
  "getFile I ev ti path tc st s = ((k, b), s1) \<Longrightarrow> file_written s1 k"
  by (auto simp: getFile_def Let_def write_file_obj_def file_written_def split: option.splits prod.splits if_splits)

lemma getFile_key_written:
  assumes "linv s"
  shows "getFile_key I key s = (Some f, s1) \<Longrightarrow> file_oid (f_file f) \<in> logged_files (trace s1)"
    and "exportFile I key s = (Some f, s1) \<Longrightarrow> file_oid (f_file f) \<in> logged_files (trace s1)"
  using assms by (auto simp: getFile_key_def exportFile_def write_file_obj_def writeFile_def Let_def linv_def
      files_logged_def file_reup_def split: option.splits if_splits)

section \<open>Processes\<close>

definition pcore :: "sf \<Rightarrow> sf" where
  "pcore s = core (s\<lparr>m_procs := []\<rparr>)"

definition proc_written :: "sf \<Rightarrow> OID \<Rightarrow> bool" where
  "proc_written s oid = (\<exists>p. find_proc s oid = Some p \<and> p_written p)"

text \<open>An operation on processes leaves the flows alone and unmarks no process.\<close>

definition pstep :: "sf \<Rightarrow> sf \<Rightarrow> bool" where
  "pstep s s1 = (pcore s1 = pcore s \<and> ext s s1 \<and> (linv s \<longrightarrow> linv s1) \<and>
     (\<forall>oid. proc_written s oid \<longrightarrow> proc_written s1 oid) \<and> (\<forall>k. file_written s k \<longrightarrow> file_written s1 k))"

lemma core_procs: "core (s\<lparr>m_procs := t\<rparr>) = (core s)\<lparr>m_procs := t\<rparr>"
  by (simp add: core_def)

lemma core_pcore: "core s1 = core s \<Longrightarrow> pcore s1 = pcore s"
  by (simp add: pcore_def core_procs)

lemma pstep_refl [simp, intro]: "pstep s s"
  by (simp add: pstep_def)

lemma pstep_trans: "pstep s s1 \<Longrightarrow> pstep s1 s2 \<Longrightarrow> pstep s s2"
  by (auto simp: pstep_def intro: ext_trans)

lemma pstep_written: "pstep s s1 \<Longrightarrow> proc_written s oid \<Longrightarrow> proc_written s1 oid"
  by (simp add: pstep_def)

lemma pstep_linv: "pstep s s1 \<Longrightarrow> linv s \<Longrightarrow> linv s1"
  by (simp add: pstep_def)

lemma fstep_pstep: "fstep s s1 \<Longrightarrow> pstep s s1"
  using core_fields(3) [of s1 s] by (auto simp: fstep_def pstep_def proc_written_def intro: core_pcore)

lemma pcore_put [simp]: "pcore (put_proc oid p s) = pcore s"
  by (simp add: pcore_def put_proc_def)

lemma put_proc_frame [simp]:
  "trace (put_proc oid p s) = trace s" "heap (put_proc oid p s) = heap s" "nextref (put_proc oid p s) = nextref s"
  "find_proc (put_proc oid p s) = (find_proc s)(oid \<mapsto> p)" "m_containers (put_proc oid p s) = m_containers s"
  "m_files (put_proc oid p s) = m_files s" "log_ok (put_proc oid p s) = log_ok s" "m_cxt (put_proc oid p s) = m_cxt s"
  "m_dfSet (put_proc oid p s) = m_dfSet s" "m_pfSet (put_proc oid p s) = m_pfSet s"
  "m_writer (put_proc oid p s) = m_writer s"
  by (simp_all add: put_proc_def)

lemma proc_ok_put [simp]: "owns (put_proc oid p s) = owns s" "proc_ok (put_proc oid p s) = proc_ok s"
  by (simp_all add: proc_ok_def owns_def fun_eq_iff)

lemma proc_ok_emit:
  "proc_ok (emit I c s) oid p \<longleftrightarrow> proc_oid (p_proc p) = oid \<and> (p_written p \<longrightarrow> oid \<in> logged_procs (trace s @ [c])) \<and>
     (\<forall>r \<in> snd ` set (netflows p). owns s oid True r) \<and> (\<forall>r \<in> snd ` set (fileflows p). owns s oid False r) \<and>
     (\<forall>f. pfo p = Some f \<longrightarrow> pf_procOID (procflow f) = oid)"
  by (simp add: proc_ok_def owns_def)

lemma tbl_ok_put [simp]: "tbl_ok (m_procs s) \<Longrightarrow> tbl_ok (m_procs (put_proc oid p s))"
  by (simp add: put_proc_def)

lemma linv_put:
  assumes "linv s" and "proc_ok s oid p"
  shows "linv (put_proc oid p s)"
  using assms by (auto simp: linv_def procs_logged_def conts_logged_def files_logged_def)

lemma pstep_put:
  assumes "pstep s s1" and "linv s1 \<Longrightarrow> proc_ok s1 oid p" and "proc_written s1 oid \<Longrightarrow> p_written p"
  shows "pstep s (put_proc oid p s1)"
  using assms by (auto simp: pstep_def linv_put proc_written_def file_written_def ext_def)

lemma linv_proc: "linv s \<Longrightarrow> find_proc s oid = Some p \<Longrightarrow> proc_ok s oid p"
  by (simp add: linv_def procs_logged_def)

text \<open>A process object that has no flows and was never written.\<close>

definition proc_new :: "ProcessObj \<Rightarrow> bool" where
  "proc_new p = (netflows p = [] \<and> fileflows p = [] \<and> pfo p = None \<and> \<not> p_written p)"

lemma createProcess_step:
  assumes "createProcess I ti ev st s = (p, s1)"
  shows "fstep s s1" "proc_new p" "proc_oid (p_proc p) = thread_oid (main_thread_or_self I ti)"
proof -
  obtain c s0 where c: "getContainer I ti s = (c, s0)" by fastforce
  then have "fstep s s0" using cstep_fstep [OF cstep_getContainer, of s I ti] by simp
  moreover have "fstep s0 (case c of None \<Rightarrow> s0 | Some c \<Rightarrow> cont_incr c s0)"
    by (auto split: option.split intro: cstep_fstep cstep_counts)
  ultimately show "fstep s s1" using assms c by (auto simp: createProcess_def Let_def intro: fstep_trans)
  show "proc_new p" "proc_oid (p_proc p) = thread_oid (main_thread_or_self I ti)"
    using assms c by (auto simp: createProcess_def Let_def proc_new_def ProcessObj_new_def)
qed

lemma reupContainer_step:
  assumes "reupContainer I ti p s = (p1, s1)"
  shows "fstep s s1" "netflows p1 = netflows p" "fileflows p1 = fileflows p" "pfo p1 = pfo p"
    "p_written p1 = p_written p" "proc_oid (p_proc p1) = proc_oid (p_proc p)" "children p1 = children p"
    "proc_poid (p_proc p1) = proc_poid (p_proc p)"
proof -
  let ?s1 = "if (case proc_containerId (p_proc p) of None \<Rightarrow> '''' | Some c \<Rightarrow> c) \<noteq> []
      then cont_decr (case proc_containerId (p_proc p) of None \<Rightarrow> '''' | Some c \<Rightarrow> c) s else s"
  obtain c s0 where c: "getContainer I ti ?s1 = (c, s0)" by fastforce
  have "fstep s ?s1" by (auto intro: cstep_fstep cstep_counts)
  moreover have "fstep ?s1 s0" using cstep_fstep [OF cstep_getContainer, of ?s1 I ti] c by (simp only: snd_conv)
  moreover have "fstep s0 (case c of None \<Rightarrow> s0 | Some c \<Rightarrow> cont_incr c s0)"
    by (auto split: option.split intro: cstep_fstep cstep_counts)
  ultimately have "fstep s (case c of None \<Rightarrow> s0 | Some c \<Rightarrow> cont_incr c s0)" by (meson fstep_trans)
  moreover have "p1 = p\<lparr>p_proc := (p_proc p)\<lparr>proc_containerId := c\<rparr>\<rparr>"
    and "s1 = (case c of None \<Rightarrow> s0 | Some c \<Rightarrow> cont_incr c s0)"
    using assms c by (auto simp: reupContainer_def Let_def)
  ultimately show "fstep s s1" "netflows p1 = netflows p" "fileflows p1 = fileflows p" "pfo p1 = pfo p"
    "p_written p1 = p_written p" "proc_oid (p_proc p1) = proc_oid (p_proc p)" "children p1 = children p"
    "proc_poid (p_proc p1) = proc_poid (p_proc p)"
    by simp_all
qed

text \<open>Two process objects that the invariant cannot tell apart.\<close>

definition same_flows :: "ProcessObj \<Rightarrow> ProcessObj \<Rightarrow> bool" where
  "same_flows p q = (netflows p = netflows q \<and> fileflows p = fileflows q \<and> pfo p = pfo q \<and>
     proc_oid (p_proc p) = proc_oid (p_proc q) \<and> p_written p = p_written q)"

lemma same_flows_simps [simp]:
  "same_flows p p" "same_flows (add_child o1 p) q = same_flows p q" "same_flows (proc_reup p) q = same_flows p q"
  "same_flows (erase_child o1 p) q = same_flows p q"
  by (auto simp: same_flows_def add_child_def proc_reup_def erase_child_def)

lemma proc_ok_same: "same_flows p1 p \<Longrightarrow> proc_ok s oid p1 = proc_ok s oid p"
  by (simp add: proc_ok_def same_flows_def)

lemma pstep_put_same:
  assumes "pstep s s1" and "find_proc s1 oid = Some p" and "same_flows p1 p"
  shows "pstep s (put_proc oid p1 s1)"
proof (rule pstep_put [OF assms(1)])
  show "proc_ok s1 oid p1" if "linv s1"
    using proc_ok_same [OF assms(3)] linv_proc [OF that assms(2)] by blast
  show "p_written p1" if "proc_written s1 oid"
    using that assms(2,3) by (simp add: proc_written_def same_flows_def)
qed

lemma core_find_proc: "core s1 = core s \<Longrightarrow> find_proc s1 = find_proc s"
  using core_fields(3) [of s1 s] by simp

lemma reup_step:
  assumes "find_proc s oid = Some p" and "reupContainer I ti (proc_reup p) s = (p1, s1)"
  shows "pstep s (put_proc oid p1 s1)" and "pstep s (put_proc oid (add_child o1 p1) s1)"
proof -
  note r = reupContainer_step [OF assms(2)]
  have "find_proc s1 oid = Some p" using r(1) assms(1) core_find_proc [of s1 s] by (simp add: fstep_def)
  moreover have "same_flows p1 p" using r by (auto simp: same_flows_def proc_reup_def)
  ultimately show "pstep s (put_proc oid p1 s1)" and "pstep s (put_proc oid (add_child o1 p1) s1)"
    using pstep_put_same fstep_pstep [OF r(1)] by auto
qed

definition news_ok :: "procref list \<Rightarrow> bool" where
  "news_ok ps = (\<forall>p. New p \<in> set ps \<longrightarrow> proc_new p)"

lemma news_ok_simps [simp]:
  "news_ok []" "news_ok (Old o1 # ps) = news_ok ps" "news_ok (New p # ps) = (proc_new p \<and> news_ok ps)"
  "news_ok (ps @ qs) = (news_ok ps \<and> news_ok qs)" "news_ok (rev ps) = news_ok ps"
  by (auto simp: news_ok_def)

lemma proc_new_child [simp]: "proc_new (add_child o1 p) = proc_new p"
  by (simp add: proc_new_def add_child_def)

lemmas ancestor_loop_induct [consumes 1, case_names step] = ancestor_loop.raw_induct [rotated]
lemmas pid_loop_induct [consumes 1, case_names step] = pid_loop.raw_induct [rotated]

lemma ancestor_loop_step:
  "ancestor_loop I ev ct mt ps s = Some y \<Longrightarrow>
     news_ok ps \<longrightarrow> pstep s (snd y) \<and> news_ok (snd (snd (fst y))) \<and> (\<exists>qs. snd (snd (fst y)) = ps @ qs)"
proof (induction rule: ancestor_loop_induct)
  case (step loop I ev ct mt ps s y)
  note IH = step(1) and eq = step(2)
  let ?goal = "pstep s (snd y) \<and> news_ok (snd (snd (fst y))) \<and> (\<exists>qs. snd (snd (fst y)) = ps @ qs)"
  show ?case
  proof
    assume new: "news_ok ps"
    have rec: ?goal if "loop I ev ct2 mt2 ps2 s2 = Some y" "pstep s s2" "ps2 = ps @ qs" "news_ok qs" for ct2 mt2 ps2 qs s2
      using IH [OF that(1)] that(2-) new by (auto intro: pstep_trans)
    have stop: ?goal if "Some ((ct2, mt2, ps), s) = Some y" for ct2 mt2
      using that new by auto
    show ?goal
    proof (cases mt)
      case None
      then show ?thesis using eq stop by simp
    next
      case (Some m0)
      define m where "m = to_main I m0"
      define key where "key = thread_oid m"
      have eq1: "(if ti_tid m0 = -1 then Some ((ct, Some m0, ps), s)
        else if ti_clone_ts m = 0 \<and> ti_pid m = 0 then loop I ev m (get_parent_thread I m) ps s
        else case find_proc s key of
          Some p \<Rightarrow> if p_written p then Some ((ct, Some m, ps), s)
            else (case reupContainer I m (proc_reup p) s of (p1, s1) \<Rightarrow>
              loop I ev m (get_parent_thread I m) (ps @ [Old key]) (put_proc key (add_child (ref_oid (last ps)) p1) s1))
        | None \<Rightarrow> (case createProcess I m ev REUP s of (p1, s1) \<Rightarrow>
              loop I ev m (get_parent_thread I m) (ps @ [New (add_child (ref_oid (last ps)) p1)]) s1)) = Some y"
        using eq unfolding Some option.case Let_def m_def key_def .
      show ?thesis
      proof (cases "ti_tid m0 = -1 \<or> (ti_clone_ts m = 0 \<and> ti_pid m = 0)")
        case True
        then show ?thesis using eq1 stop rec [of _ _ ps s "[]"] by (auto split: if_splits)
      next
        case False
        show ?thesis
        proof (cases "find_proc s key")
          case None
          obtain p1 s1 where c: "createProcess I m ev REUP s = (p1, s1)" by fastforce
          from createProcess_step [OF c] have "pstep s s1" "proc_new p1" by (auto intro: fstep_pstep)
          then show ?thesis using eq1 False None c rec by auto
        next
          case (Some p)
          obtain p1 s1 where c: "reupContainer I m (proc_reup p) s = (p1, s1)" by fastforce
          from reup_step(2) [OF Some c] show ?thesis using eq1 False Some c rec stop by (auto split: if_splits)
        qed
      qed
    qed
  qed
qed

lemma pid_loop_step:
  "pid_loop o1 prt ps s = Some y \<Longrightarrow>
     news_ok ps \<longrightarrow> pstep s (snd y) \<and> news_ok (fst y) \<and> (\<exists>qs. fst y = ps @ qs)"
proof (induction rule: pid_loop_induct)
  case (step loop o1 prt ps s y)
  note IH = step(1) and eq = step(2)
  show ?case
  proof (cases "\<exists>oid p. prt = Some oid \<and> find_proc s oid = Some p")
    case False
    then show ?thesis using eq by (auto split: option.splits)
  next
    case True
    then obtain oid p where o: "prt = Some oid" "find_proc s oid = Some p" by blast
    let ?ps = "if \<not> p_written p then ps @ [Old oid] else ps"
    let ?s = "put_proc oid (add_child o1 p) s"
    have st: "pstep s ?s" using o(2) by (intro pstep_put_same) auto
    have eq1: "(case proc_poid (p_proc p) of None \<Rightarrow> Some (?ps, ?s) | Some poid \<Rightarrow> loop oid (Some poid) ?ps ?s) = Some y"
      using eq o by (simp add: Let_def)
    show ?thesis
    proof (cases "proc_poid (p_proc p)")
      case None
      then show ?thesis using eq1 st by auto
    next
      case (Some poid)
      then have "loop oid (Some poid) ?ps ?s = Some y" using eq1 by simp
      from IH [OF this] show ?thesis using st by (cases "p_written p") (auto intro: pstep_trans)
    qed
  qed
qed

lemma write_procs_step:
  "write_procs I rs s = Some (u, s1) \<Longrightarrow> news_ok rs \<Longrightarrow>
     pstep s s1 \<and> (rs \<noteq> [] \<longrightarrow> proc_written s1 (ref_oid (last rs)))"
proof (induction rs arbitrary: s)
  case (Cons r rs)
  obtain p where p: "(case r of New p \<Rightarrow> Some p | Old oid \<Rightarrow> find_proc s oid) = Some p"
    using Cons.prems(1) by (cases "case r of New p \<Rightarrow> Some p | Old oid \<Rightarrow> find_proc s oid") auto
  let ?s1 = "emit I (Write1 (R_Process (p_proc p))) s"
  let ?s2 = "put_proc (ref_oid r) (p\<lparr>p_written := True\<rparr>) ?s1"
  have e: "pstep s ?s1" by (rule fstep_pstep [OF fstep_emit]) simp
  have ok: "proc_ok ?s1 (ref_oid r) (p\<lparr>p_written := True\<rparr>)" if "linv ?s1"
  proof (cases r)
    case (Old oid)
    then have "proc_ok ?s1 oid p" using p linv_proc [OF that, of oid p] by simp
    then show ?thesis using Old by (auto simp: proc_ok_def)
  next
    case (New q)
    then show ?thesis using p Cons.prems(2) by (auto simp: proc_ok_def proc_new_def)
  qed
  have st: "pstep s ?s2" by (rule pstep_put [OF e ok]) auto
  have w: "proc_written ?s2 (ref_oid r)" by (simp add: proc_written_def)
  have "write_procs I rs ?s2 = Some (u, s1)" using Cons.prems(1) p by (simp add: writeProcess_def)
  moreover have "news_ok rs" using Cons.prems(2) by (cases r) auto
  ultimately have "pstep ?s2 s1 \<and> (rs \<noteq> [] \<longrightarrow> proc_written s1 (ref_oid (last rs)))" using Cons.IH by blast
  then show ?case using st w pstep_written [OF _ w] by (auto intro: pstep_trans)
qed simp

lemma finish_process_step:
  assumes "finish_process I ev mt r s = Some (u, s1)" and "news_ok [r]"
  shows "pstep s s1 \<and> proc_written s1 (ref_oid r)"
proof -
  obtain ct mt1 ps s2 where a: "ancestor_loop I ev mt (get_parent_thread I mt) [r] s = Some ((ct, mt1, ps), s2)"
    and b: "Option.bind (if mt1 = None \<and> ti_ptid ct \<noteq> -1 then pid_loop (thread_oid ct) (getProcess_pid (ti_ptid ct) s2) ps s2
        else Some (ps, s2)) (\<lambda>(ps, s). write_procs I (rev ps) s) = Some (u, s1)"
    using assms(1) by (auto simp: finish_process_def split: bind_splits)
  from ancestor_loop_step [OF a] assms(2) obtain qs where ps: "pstep s s2" "news_ok ps" "ps = r # qs" by auto
  from b obtain ps2 s3 where c: "(if mt1 = None \<and> ti_ptid ct \<noteq> -1 then pid_loop (thread_oid ct) (getProcess_pid (ti_ptid ct) s2) ps s2
        else Some (ps, s2)) = Some (ps2, s3)" and d: "write_procs I (rev ps2) s3 = Some (u, s1)"
    by (auto split: bind_splits)
  have "pstep s2 s3 \<and> news_ok ps2 \<and> (\<exists>qs. ps2 = ps @ qs)"
    using c ps(2) pid_loop_step [of _ _ ps s2 "(ps2, s3)"] by (auto split: if_splits)
  then obtain qs2 where e: "pstep s2 s3" "news_ok ps2" "ps2 = r # qs2" using ps(3) by auto
  then have "news_ok qs2 \<and> news_ok [r]" by (auto simp: news_ok_def)
  with write_procs_step [OF d] e(3) have "pstep s3 s1 \<and> proc_written s1 (ref_oid r)" by simp
  with ps(1) e(1) show ?thesis by (blast intro: pstep_trans)
qed

lemma getProcess_step:
  assumes "getProcess I ev st s = Some ((oid, b), s1)"
  shows "pstep s s1 \<and> proc_written s1 oid"
proof -
  obtain ti where ti: "ev_tinfo ev = Some ti" using assms by (auto simp: getProcess_def split: option.splits)
  define mt where "mt = main_thread_or_self I ti"
  define key where "key = thread_oid mt"
  show ?thesis
  proof (cases "find_proc s key")
    case None
    obtain p1 s2 where c: "createProcess I ti ev st s = (p1, s2)" by fastforce
    note cp = createProcess_step [OF c]
    obtain s3 u where "finish_process I ev mt (New p1) s2 = Some (u, s3)" and r: "oid = proc_oid (p_proc p1)" "s1 = s3"
      using assms ti None c by (auto simp: getProcess_def Let_def mt_def key_def split: bind_splits)
    from finish_process_step [OF this(1)] cp fstep_pstep [OF cp(1)] r show ?thesis by (auto intro: pstep_trans)
  next
    case (Some p)
    show ?thesis
    proof (cases "p_written p")
      case True
      then show ?thesis using assms ti Some by (auto simp: getProcess_def Let_def mt_def key_def proc_written_def)
    next
      case False
      obtain p1 s2 where c: "reupContainer I ti (proc_reup p) s = (p1, s2)" by fastforce
      from reup_step(1) [OF Some c] have st: "pstep s (put_proc key p1 s2)" .
      obtain s3 u where "finish_process I ev mt (Old key) (put_proc key p1 s2) = Some (u, s3)" and r: "oid = key" "s1 = s3"
        using assms ti Some c False by (auto simp: getProcess_def Let_def mt_def key_def split: bind_splits)
      from finish_process_step [OF this(1)] st r show ?thesis by (auto intro: pstep_trans)
    qed
  qed
qed

lemma exportProcess_step:
  "exportProcess I oid s = (q, s1) \<Longrightarrow>
     pstep s s1 \<and> (\<forall>p. q = Some p \<longrightarrow> find_proc s1 oid = Some p \<and> p_written p)"
proof -
  assume a: "exportProcess I oid s = (q, s1)"
  show ?thesis
  proof (cases "find_proc s oid")
    case None
    then show ?thesis using a by (auto simp: exportProcess_def)
  next
    case (Some p)
    define s2 where "s2 = (case proc_containerId (p_proc p) of None \<Rightarrow> s | Some c \<Rightarrow> snd (exportContainer I c s))"
    have s2: "fstep s s2" by (auto simp: s2_def split: option.split intro: cstep_fstep cstep_exportContainer)
    then have f2: "find_proc s2 oid = Some p" using Some core_find_proc [of s2 s] by (simp add: fstep_def)
    let ?s3 = "emit I (Write1 (R_Process (p_proc p))) s2"
    have e: "pstep s ?s3" using fstep_trans [OF s2 fstep_emit] fstep_pstep by simp
    have ok: "proc_ok ?s3 oid (p\<lparr>p_written := True\<rparr>)" if "linv ?s3"
      using linv_proc [OF that, of oid p] f2 by (auto simp: proc_ok_def)
    have "pstep s (put_proc oid (p\<lparr>p_written := True\<rparr>) ?s3)" by (rule pstep_put [OF e ok]) auto
    then show ?thesis using a Some f2 fstep_pstep [OF s2]
      by (auto simp: exportProcess_def Let_def writeProcess_def simp flip: s2_def split: if_splits)
  qed
qed

section \<open>Flows\<close>

fun same_owner :: "DataFlow \<Rightarrow> DataFlow \<Rightarrow> bool" where
  "same_owner (Net a) (Net b) = (nf_procOID (netflow a) = nf_procOID (netflow b))"
| "same_owner (Fil a) (Fil b) = (ff_procOID (fileflow a) = ff_procOID (fileflow b))"
| "same_owner _ _ = False"

lemma same_owner_refl [simp]: "same_owner d d"
  by (cases d) auto

lemma same_owner_trans: "same_owner a b \<Longrightarrow> same_owner b c \<Longrightarrow> same_owner a c"
  by (cases a; cases b; cases c) auto

lemma same_owner_flow: "same_owner d d1 \<Longrightarrow> flow_of oid d net = flow_of oid d1 net"
  by (cases d; cases d1) (auto simp: flow_of_def)

text \<open>
  What every operation of the flow processors does: it keeps the invariant, extends the log, unmarks
  no process, and a flow that was allocated keeps its owner until it is freed.
\<close>

definition good :: "sf \<Rightarrow> sf \<Rightarrow> bool" where
  "good s s1 = (linv s1 \<and> ext s s1 \<and> (\<forall>oid. proc_written s oid \<longrightarrow> proc_written s1 oid) \<and>
     (\<forall>k. file_written s k \<longrightarrow> file_written s1 k) \<and> nextref s \<le> nextref s1 \<and>
     (\<forall>r d1. r < nextref s \<longrightarrow> heap s1 r = Some d1 \<longrightarrow> (\<exists>d. heap s r = Some d \<and> same_owner d d1)))"

lemma good_refl [simp]: "linv s \<Longrightarrow> good s s"
  by (auto simp: good_def)

lemma good_linv [simp]: "good s s1 \<Longrightarrow> linv s1"
  by (simp add: good_def)

lemma good_trans: "good s s1 \<Longrightarrow> good s1 s2 \<Longrightarrow> good s s2"
proof -
  assume a: "good s s1" "good s1 s2"
  have "\<exists>d. heap s r = Some d \<and> same_owner d d2" if r: "r < nextref s" "heap s2 r = Some d2" for r d2
  proof -
    from a r obtain d1 where d1: "heap s1 r = Some d1" "same_owner d1 d2"
      unfolding good_def by (meson order_less_le_trans)
    moreover from a(1) r(1) d1(1) obtain d where "heap s r = Some d" "same_owner d d1"
      unfolding good_def by blast
    ultimately show ?thesis using same_owner_trans by blast
  qed
  with a show ?thesis unfolding good_def by (auto intro: ext_trans)
qed

lemma good_bind:
  assumes "wlp m (\<lambda>r s1. good s s1 \<and> P r s1)"
    and "\<And>r s1. good s s1 \<Longrightarrow> P r s1 \<Longrightarrow> wlp (f (r, s1)) (\<lambda>r2 s2. good s1 s2 \<and> Q r2 s2)"
  shows "wlp (Option.bind m f) (\<lambda>r2 s2. good s s2 \<and> Q r2 s2)"
  using assms(1) unfolding wlp_bind
  by (rule wlp_conseq) (blast intro: wlp_conseq [OF assms(2)] good_trans)

lemma good_bind0:
  assumes "wlp m (\<lambda>r s1. good s s1)" and "\<And>r s1. good s s1 \<Longrightarrow> wlp (f (r, s1)) (\<lambda>r2 s2. good s1 s2)"
  shows "wlp (Option.bind m f) (\<lambda>r2 s2. good s s2)"
  using good_bind [of m s "\<lambda>_ _. True" f "\<lambda>_ _. True"] assms by simp

lemma pcore_fields:
  assumes "pcore s1 = pcore s"
  shows "heap s1 = heap s" "nextref s1 = nextref s" "m_dfSet s1 = m_dfSet s" "m_pfSet s1 = m_pfSet s" "m_cxt s1 = m_cxt s"
    "m_delProcQue s1 = m_delProcQue s" "timeStamp s1 = timeStamp s"
  using core_fields [OF assms [unfolded pcore_def]] by simp_all

lemma pstep_good: "pstep s s1 \<Longrightarrow> linv s \<Longrightarrow> good s s1"
  using pcore_fields [of s1 s] by (auto simp: good_def pstep_def)

lemma fstep_good: "fstep s s1 \<Longrightarrow> linv s \<Longrightarrow> good s s1"
  by (simp add: pstep_good fstep_pstep)

lemma proc_ok_upd [simp]:
  "proc_ok (s\<lparr>m_dfSet := q\<rparr>) = proc_ok s" "proc_ok (s\<lparr>m_pfSet := q1\<rparr>) = proc_ok s" "proc_ok (s\<lparr>reads := n\<rparr>) = proc_ok s"
  "proc_ok (s\<lparr>m_delProcQue := q2\<rparr>) = proc_ok s"
  by (simp_all add: proc_ok_def owns_def fun_eq_iff)

lemma linv_upd [simp]:
  "linv (s\<lparr>m_dfSet := q\<rparr>) = linv s" "linv (s\<lparr>m_pfSet := q1\<rparr>) = linv s" "linv (s\<lparr>reads := n\<rparr>) = linv s"
  "linv (s\<lparr>m_delProcQue := q2\<rparr>) = linv s"
  by (simp_all add: linv_def procs_logged_def conts_logged_def files_logged_def)

lemma proc_written_upd [simp]:
  "proc_written (s\<lparr>m_dfSet := q\<rparr>) = proc_written s" "proc_written (s\<lparr>heap := h\<rparr>) = proc_written s"
  "proc_written (s\<lparr>reads := n\<rparr>) = proc_written s" "proc_written (s\<lparr>nextref := n\<rparr>) = proc_written s"
  "proc_written (s\<lparr>m_pfSet := q1\<rparr>) = proc_written s" "proc_written (s\<lparr>m_delProcQue := q2\<rparr>) = proc_written s"
  by (simp_all add: proc_written_def fun_eq_iff)

lemma file_written_upd [simp]:
  "file_written (s\<lparr>m_dfSet := q\<rparr>) = file_written s" "file_written (s\<lparr>heap := h\<rparr>) = file_written s"
  "file_written (s\<lparr>reads := n\<rparr>) = file_written s" "file_written (s\<lparr>nextref := n\<rparr>) = file_written s"
  "file_written (s\<lparr>m_pfSet := q1\<rparr>) = file_written s" "file_written (s\<lparr>m_delProcQue := q2\<rparr>) = file_written s"
  by (simp_all add: file_written_def fun_eq_iff)

lemma good_upd [simp]:
  "good s (s1\<lparr>m_dfSet := q\<rparr>) = good s s1" "good s (s1\<lparr>m_pfSet := q1\<rparr>) = good s s1" "good s (s1\<lparr>reads := n\<rparr>) = good s s1"
  "good s (s1\<lparr>m_delProcQue := q2\<rparr>) = good s s1"
  by (simp_all add: good_def)

lemma owns_heap:
  assumes "owns s oid net r" and "nextref s \<le> nextref s1"
    and "\<And>r d1. r < nextref s \<Longrightarrow> heap s1 r = Some d1 \<Longrightarrow> \<exists>d. heap s r = Some d \<and> same_owner d d1"
  shows "owns s1 oid net r"
  unfolding owns_def
proof (intro conjI allI impI)
  show "r < nextref s1" using assms(1,2) by (simp add: owns_def)
  fix d1 assume "heap s1 r = Some d1"
  with assms(1) assms(3) [of r d1] obtain d where "heap s r = Some d" "same_owner d d1" by (auto simp: owns_def)
  with assms(1) show "flow_of oid d1 net" using same_owner_flow by (auto simp: owns_def)
qed

lemma proc_ok_heap:
  assumes "proc_ok s oid p" and "nextref s \<le> nextref s1" and "trace s1 = trace s"
    and "\<And>r d1. r < nextref s \<Longrightarrow> heap s1 r = Some d1 \<Longrightarrow> \<exists>d. heap s r = Some d \<and> same_owner d d1"
  shows "proc_ok s1 oid p"
  using assms(1,3) owns_heap [OF _ assms(2,4)] by (simp add: proc_ok_def)

lemma good_heap:
  assumes "linv s"
    and "\<And>r d1. r < nextref s \<Longrightarrow> h r = Some d1 \<Longrightarrow> \<exists>d. heap s r = Some d \<and> same_owner d d1" and "nextref s \<le> n"
  shows "good s (s\<lparr>heap := h, nextref := n\<rparr>)"
proof -
  have "proc_ok (s\<lparr>heap := h, nextref := n\<rparr>) oid p" if "proc_ok s oid p" for oid p
    using that by (rule proc_ok_heap) (use assms in auto)
  with assms show ?thesis
    by (auto simp: good_def linv_def procs_logged_def conts_logged_def files_logged_def proc_written_def)
qed

lemma good_put_flow:
  assumes "linv s" and "heap s r = Some d0" and "same_owner d0 d"
  shows "good s (put_flow r d s)"
proof -
  have "good s (s\<lparr>heap := (heap s)(r \<mapsto> d), nextref := nextref s\<rparr>)"
    by (rule good_heap [OF assms(1)]) (use assms in \<open>auto split: if_splits\<close>)
  then show ?thesis by (simp add: put_flow_def)
qed

lemma free_good: "linv s \<Longrightarrow> wlp (free r s) (\<lambda>u s1. good s s1)"
proof -
  assume "linv s"
  then have "good s (s\<lparr>heap := (heap s)(r := None), nextref := nextref s\<rparr>)"
    by (rule good_heap) (auto split: if_splits)
  then show ?thesis by (auto simp: free_def wlp_def split: option.splits)
qed

lemma alloc_good:
  assumes "linv s" and "alloc d s = (r, s1)"
  shows "good s s1" and "r = nextref s" and "heap s1 r = Some d" and "nextref s1 = Suc r" and "find_proc s1 = find_proc s"
    and "trace s1 = trace s"
  using good_heap [OF assms(1), of "(heap s)(nextref s \<mapsto> d)" "Suc (nextref s)"] assms(2)
  by (auto simp: alloc_def split: if_splits)

lemma clock_good:
  "linv s \<Longrightarrow> getCurrentTime I s = (t, s1) \<Longrightarrow> good s s1"
  "linv s \<Longrightarrow> getSinspTime I s = (t, s1) \<Longrightarrow> good s s1"
  by (auto simp: getCurrentTime_def getSinspTime_def split: if_splits)

lemma deref_good:
  "linv s \<Longrightarrow> wlp (deref_net r s) (\<lambda>n s1. good s s1 \<and> (s1 = s \<and> heap s r = Some (Net n)))"
  "linv s \<Longrightarrow> wlp (deref_file r s) (\<lambda>f s1. good s s1 \<and> (s1 = s \<and> heap s r = Some (Fil f)))"
  "linv s \<Longrightarrow> wlp (deref_proc oid s) (\<lambda>p s1. good s s1 \<and> (s1 = s \<and> find_proc s oid = Some p))"
  "linv s \<Longrightarrow> wlp (deref_fileobj k s) (\<lambda>f s1. good s s1 \<and> (s1 = s \<and> find_file s k = Some f))"
  by (auto simp: deref_net_def deref_file_def deref_proc_def deref_fileobj_def wlp_def split: option.splits DataFlow.splits)

text \<open>A write is covered when the process is logged and is the one the record names.\<close>

lemma write_flow_good:
  assumes "linv s"
  shows "(\<And>q. p = Some q \<Longrightarrow> proc_oid q = nf_procOID nf \<and> proc_oid q \<in> logged_procs (trace s)) \<Longrightarrow>
      good s (writeNetFlow I nf p s)"
    and "(\<And>q. p = Some q \<Longrightarrow> proc_oid q = ff_procOID ff \<and> proc_oid q \<in> logged_procs (trace s)) \<Longrightarrow>
      (\<And>g. f = Some g \<Longrightarrow> file_oid g \<in> logged_files (trace s)) \<Longrightarrow> good s (writeFileFlow I ff p f s)"
    and "(\<And>q. p = Some q \<Longrightarrow> proc_oid q = pf_procOID pf \<and> proc_oid q \<in> logged_procs (trace s)) \<Longrightarrow>
      good s (writeProcessFlow I pf p s)"
proof -
  have e: "good s (emit I c s)" if "covered (trace s) c" for c
    using fstep_good [OF fstep_emit [OF that] assms] .
  show "(\<And>q. p = Some q \<Longrightarrow> proc_oid q = nf_procOID nf \<and> proc_oid q \<in> logged_procs (trace s)) \<Longrightarrow>
      good s (writeNetFlow I nf p s)"
    using assms by (auto simp: writeNetFlow_def intro!: e)
  show "(\<And>q. p = Some q \<Longrightarrow> proc_oid q = ff_procOID ff \<and> proc_oid q \<in> logged_procs (trace s)) \<Longrightarrow>
      (\<And>g. f = Some g \<Longrightarrow> file_oid g \<in> logged_files (trace s)) \<Longrightarrow> good s (writeFileFlow I ff p f s)"
    using assms by (auto simp: writeFileFlow_def intro!: e)
  show "(\<And>q. p = Some q \<Longrightarrow> proc_oid q = pf_procOID pf \<and> proc_oid q \<in> logged_procs (trace s)) \<Longrightarrow>
      good s (writeProcessFlow I pf p s)"
    using assms by (auto simp: writeProcessFlow_def intro!: e)
qed

lemma linv_written: "linv s \<Longrightarrow> proc_written s oid \<Longrightarrow> oid \<in> logged_procs (trace s)"
  by (auto simp: proc_written_def dest!: linv_proc) (simp add: proc_ok_def)

lemma good_written: "good s s1 \<Longrightarrow> proc_written s oid \<Longrightarrow> proc_written s1 oid"
  by (simp add: good_def)

lemma good_file: "good s s1 \<Longrightarrow> file_written s k \<Longrightarrow> file_written s1 k"
  by (simp add: good_def)

lemma good_logged: "good s s1 \<Longrightarrow> oid \<in> logged_procs (trace s) \<Longrightarrow> oid \<in> logged_procs (trace s1)"
  by (auto simp: good_def dest: ext_logged)

lemma good_owns: "good s s1 \<Longrightarrow> owns s oid net r \<Longrightarrow> owns s1 oid net r"
  by (rule owns_heap) (auto simp: good_def)

lemma upd_proc_good:
  assumes "linv s" and "\<And>p. find_proc s oid = Some p \<Longrightarrow> proc_ok s oid p \<Longrightarrow> proc_ok s oid (f p) \<and> (p_written p \<longrightarrow> p_written (f p))"
  shows "wlp (upd_proc oid f s) (\<lambda>u s1. good s s1 \<and> (trace s1 = trace s \<and> heap s1 = heap s \<and> nextref s1 = nextref s))"
proof -
  have "good s (put_proc oid (f p) s)" if "find_proc s oid = Some p" for p
    using that assms linv_proc [OF assms(1) that]
    by (intro pstep_good pstep_put) (auto simp: proc_written_def)
  then show ?thesis by (auto simp: upd_proc_def wlp_def split: option.splits)
qed

lemma good_upd_left [simp]:
  "good (s\<lparr>m_dfSet := q\<rparr>) s1 = good s s1" "good (s\<lparr>m_pfSet := q1\<rparr>) s1 = good s s1" "good (s\<lparr>reads := n\<rparr>) s1 = good s s1"
  by (simp_all add: good_def ext_def)

lemma set_alist_delete: "set (AList.delete k t) \<subseteq> set t"
  by (auto simp: AList.delete_eq)

lemma set_alist_update: "set (AList.update k v t) \<subseteq> insert (k, v) (set t)"
  by (induction t) auto

lemma proc_ok_shrink:
  "proc_ok s oid p \<Longrightarrow> set t \<subseteq> set (netflows p) \<Longrightarrow> proc_ok s oid (p\<lparr>netflows := t\<rparr>)"
  "proc_ok s oid p \<Longrightarrow> set t2 \<subseteq> set (fileflows p) \<Longrightarrow> proc_ok s oid (p\<lparr>fileflows := t2\<rparr>)"
  by (auto simp: proc_ok_def)

lemma erase_flow_good:
  assumes "linv s"
  shows "wlp (upd_proc oid (\<lambda>p. p\<lparr>netflows := AList.delete k (netflows p)\<rparr>) s)
      (\<lambda>u s1. good s s1 \<and> (trace s1 = trace s \<and> heap s1 = heap s \<and> nextref s1 = nextref s))"
    and "wlp (upd_proc oid (\<lambda>p. p\<lparr>fileflows := AList.delete k2 (fileflows p)\<rparr>) s)
      (\<lambda>u s1. good s s1 \<and> (trace s1 = trace s \<and> heap s1 = heap s \<and> nextref s1 = nextref s))"
    and "wlp (upd_proc oid (\<lambda>p. p\<lparr>netflows := []\<rparr>) s)
      (\<lambda>u s1. good s s1 \<and> (trace s1 = trace s \<and> heap s1 = heap s \<and> nextref s1 = nextref s))"
    and "wlp (upd_proc oid (\<lambda>p. p\<lparr>fileflows := []\<rparr>) s)
      (\<lambda>u s1. good s s1 \<and> (trace s1 = trace s \<and> heap s1 = heap s \<and> nextref s1 = nextref s))"
  by (rule upd_proc_good [OF assms]; simp add: proc_ok_shrink set_alist_delete)+

lemma wlp_good: "wlp m (\<lambda>r s1. good s s1 \<and> P r s1) \<Longrightarrow> wlp m (\<lambda>r s1. good s s1)"
  by (erule wlp_conseq) simp

end
