(* ===== verification/LogFlows.thy ===== *)
theory LogFlows
  imports Log
begin

text \<open>
  The operations of the flow processors keep the integrity of the output: each network flow and
  file flow is written after the records of its process and file.
\<close>

section \<open>Network flows\<close>

lemma removeNetworkFlowFromSet_good: "linv s \<Longrightarrow> wlp (removeNetworkFlowFromSet r b s) (\<lambda>n s1. good s s1)"
  using free_good [of "s\<lparr>m_dfSet := q\<rparr>" r for q]
  by (auto simp: removeNetworkFlowFromSet_def split: prod.split intro: wlp_conseq)

lemma removeNetworkFlow_key_good: "linv s \<Longrightarrow> wlp (removeNetworkFlow_key oid r k s) (\<lambda>u s1. good s s1)"
  unfolding removeNetworkFlow_key_def
  by (rule good_bind0 [OF wlp_good [OF erase_flow_good(1)]]) (auto intro: free_good)

lemma deref_None_or:
  "deref_net r s = None \<or> (\<exists>n. heap s r = Some (Net n) \<and> deref_net r s = Some (n, s))"
  "deref_file r s = None \<or> (\<exists>f. heap s r = Some (Fil f) \<and> deref_file r s = Some (f, s))"
  "deref_proc oid s = None \<or> (\<exists>p. find_proc s oid = Some p \<and> deref_proc oid s = Some (p, s))"
  "deref_fileobj k s = None \<or> (\<exists>f. find_file s k = Some f \<and> deref_fileobj k s = Some (f, s))"
  by (auto simp: deref_net_def deref_file_def deref_proc_def deref_fileobj_def split: option.splits DataFlow.splits)

lemma write_related_nf_good:
  assumes "linv s" and "proc_oid P = oid" and "oid \<in> logged_procs (trace s)"
    and "\<And>r. r \<in> set rs \<Longrightarrow> owns s oid True r"
  shows "wlp (write_related_nf I P endTs rs s) (\<lambda>u s1. good s s1)"
  using assms(1,3,4)
proof (induction rs arbitrary: s)
  case (Cons r rs)
  note pre = Cons.prems
  show ?case
  proof (cases "deref_net r s = None")
    case False
    then obtain n where n: "heap s r = Some (Net n)" "deref_net r s = Some (n, s)" using deref_None_or(1) [of r s] by auto
    define nf where "nf = (netflow n)\<lparr>nf_endTs := endTs, nf_opFlags := or (nf_opFlags (netflow n)) (op_val OP_TRUNCATE)\<rparr>"
    define s1 where "s1 = put_flow r (Net (n\<lparr>netflow := nf\<rparr>)) s"
    define s2 where "s2 = writeNetFlow I nf (Some P) s1"
    have oid: "nf_procOID nf = oid" using pre(3) [of r] n(1) by (auto simp: nf_def flow_of_def owns_def)
    have g1: "good s s1" unfolding s1_def by (rule good_put_flow [OF pre(1) n(1)]) (simp add: nf_def)
    then have "good s1 s2" unfolding s2_def
      by (intro write_flow_good) (use oid assms(2) pre(2) in \<open>auto dest: good_logged\<close>)
    with g1 have g2: "good s s2" by (rule good_trans)
    have "wlp (removeNetworkFlowFromSet r True s2) (\<lambda>m s3. wlp (write_related_nf I P endTs rs s3) (\<lambda>u s4. good s s4))"
    proof (rule wlp_conseq [OF removeNetworkFlowFromSet_good])
      fix m s3 assume "good s2 s3"
      with g2 have g3: "good s s3" by (rule good_trans)
      have "wlp (write_related_nf I P endTs rs s3) (\<lambda>u s4. good s3 s4)"
        by (rule Cons.IH) (use g3 pre(2,3) in \<open>auto dest: good_logged intro: good_owns [OF g3]\<close>)
      then show "wlp (write_related_nf I P endTs rs s3) (\<lambda>u s4. good s s4)"
        by (rule wlp_conseq) (rule good_trans [OF g3])
    qed (use g2 in simp)
    then show ?thesis using n(2) by (simp add: Let_def nf_def s1_def s2_def)
  qed simp
qed simp

lemma collect_nf_result:
  "collect_nf s key t acc = Some (t1, rs) \<Longrightarrow> set t1 \<subseteq> set t \<and> set rs \<subseteq> set acc \<union> snd ` set t"
proof (induction t arbitrary: acc t1 rs)
  case (Cons e t)
  obtain k r where e: "e = (k, r)" by fastforce
  show ?case
  proof (cases "nf_related key k")
    case True
    then obtain acc1 where "collect_nf s key t acc1 = Some (t1, rs)" "set acc1 = insert r (set acc)"
      using Cons.prems e by (auto split: option.splits DataFlow.splits if_splits)
    from Cons.IH [OF this(1)] this(2) e show ?thesis by auto
  next
    case False
    then obtain t2 where "collect_nf s key t acc = Some (t2, rs)" "t1 = (k, r) # t2"
      using Cons.prems e by auto
    from Cons.IH [OF this(1)] this(2) e show ?thesis by auto
  qed
qed simp

lemma removeAndWriteRelatedNF_good:
  assumes "linv s" and "proc_written s oid"
  shows "wlp (removeAndWriteRelatedNF I oid key endTs s) (\<lambda>u s1. good s s1)"
proof -
  from assms(2) obtain p where p: "find_proc s oid = Some p" by (auto simp: proc_written_def)
  show ?thesis
  proof (cases "collect_nf s key (netflows p) []")
    case None
    then show ?thesis using p by (simp add: removeAndWriteRelatedNF_def deref_proc_def)
  next
    case (Some tr)
    obtain t rs where t: "tr = (t, rs)" by fastforce
    from collect_nf_result [OF Some [unfolded t]] have c: "set t \<subseteq> set (netflows p)" "set rs \<subseteq> snd ` set (netflows p)" by auto
    have ok: "proc_ok s oid p" by (rule linv_proc [OF assms(1) p])
    define s1 where "s1 = put_proc oid (p\<lparr>netflows := t\<rparr>) s"
    have g: "good s s1" unfolding s1_def
      by (rule pstep_good [OF pstep_put [OF pstep_refl]]) (use ok c p assms in \<open>auto simp: proc_ok_shrink proc_written_def\<close>)
    have "wlp (write_related_nf I (p_proc p) endTs rs s1) (\<lambda>u s2. good s1 s2)"
      by (rule write_related_nf_good) (use g ok assms linv_written c(2) in \<open>auto simp: proc_ok_def s1_def\<close>)
    then have "wlp (write_related_nf I (p_proc p) endTs rs s1) (\<lambda>u s2. good s s2)"
      by (rule wlp_conseq) (rule good_trans [OF g])
    then show ?thesis using p Some t by (simp add: removeAndWriteRelatedNF_def deref_proc_def s1_def)
  qed
qed

lemma table_owns:
  assumes "linv s" and "find_proc s oid = Some p"
  shows "map_of (netflows p) k = Some r \<Longrightarrow> owns s oid True r"
    and "map_of (fileflows p) k2 = Some r2 \<Longrightarrow> owns s oid False r2"
  using linv_proc [OF assms] by (auto simp: proc_ok_def dest!: map_of_SomeD)

lemma owns_flow:
  "owns s oid net r \<Longrightarrow> heap s r = Some (Net n) \<Longrightarrow> nf_procOID (netflow n) = oid"
  "owns s oid net r \<Longrightarrow> heap s r = Some (Fil f) \<Longrightarrow> ff_procOID (fileflow f) = oid"
  by (auto simp: owns_def flow_of_def)

lemma good_wlp: "good s s1 \<Longrightarrow> wlp m (\<lambda>r s2. good s1 s2) \<Longrightarrow> wlp m (\<lambda>r s2. good s s2)"
  by (erule wlp_conseq) (rule good_trans)

lemma removeAndWriteNetworkFlow_good:
  assumes "linv s" and "proc_written s oid" and "owns s oid True r"
  shows "wlp (removeAndWriteNetworkFlow I oid r key s) (\<lambda>u s1. good s s1)"
proof (cases "deref_net r s = None")
  case False
  then obtain n where n: "heap s r = Some (Net n)" "deref_net r s = Some (n, s)" using deref_None_or(1) [of r s] by auto
  obtain p where p: "find_proc s oid = Some p" using assms(2) by (auto simp: proc_written_def)
  then have oid: "proc_oid (p_proc p) = oid" using linv_proc [OF assms(1)] by (simp add: proc_ok_def)
  define s1 where "s1 = writeNetFlow I (netflow n) (Some (p_proc p)) s"
  have g: "good s s1" unfolding s1_def
    by (rule write_flow_good) (use assms oid linv_written owns_flow(1) [OF assms(3) n(1)] in auto)
  have "wlp (removeNetworkFlowFromSet r False s1) (\<lambda>m s2. wlp (removeNetworkFlow_key oid r key s2) (\<lambda>u s3. good s s3))"
  proof (rule wlp_conseq [OF removeNetworkFlowFromSet_good])
    fix m s2 assume g2: "good s1 s2"
    with removeNetworkFlow_key_good [of s2 oid r key] have "wlp (removeNetworkFlow_key oid r key s2) (\<lambda>u s3. good s2 s3)" by simp
    from good_wlp [OF good_trans [OF g g2] this] show "wlp (removeNetworkFlow_key oid r key s2) (\<lambda>u s3. good s s3)" .
  qed (use g in simp)
  then show ?thesis using n(2) p by (simp add: removeAndWriteNetworkFlow_def deref_proc_def s1_def)
qed (simp add: removeAndWriteNetworkFlow_def)

lemma updateNetFlow_result:
  assumes "updateNetFlow I flag ev nfo s = (nfo1, s1)"
  shows "nf_procOID (netflow nfo1) = nf_procOID (netflow nfo)" and "linv s \<Longrightarrow> good s s1"
    and "heap s1 = heap s" and "nextref s1 = nextref s" and "exportTime nfo1 = exportTime nfo"
  using assms clock_good(1) [of s I]
  by (auto simp: updateNetFlow_def getCurrentTime_def count_op_def Let_def split: prod.splits if_splits)

lemma clock_frame:
  assumes "getCurrentTime I s = (t, s1) \<or> getSinspTime I s = (t, s1)"
  shows "\<exists>n. s1 = s\<lparr>reads := n\<rparr>"
  using assms by (auto simp: getCurrentTime_def getSinspTime_def split: if_splits intro: exI [of _ "reads s"])

lemma insert_flow_good:
  assumes "linv s" and "alloc d s = (r, s1)" and "flow_of oid d net" and "proc_written s oid"
    and "upd = (if net then (\<lambda>p. p\<lparr>netflows := AList.update k r (netflows p)\<rparr>)
                else (\<lambda>p. p\<lparr>fileflows := AList.update k2 r (fileflows p)\<rparr>))"
  shows "wlp (upd_proc oid upd s1) (\<lambda>u s2. good s s2)"
proof -
  note a = alloc_good [OF assms(1,2)]
  have own: "owns s1 oid net r" using a assms(3) by (simp add: owns_def)
  have "wlp (upd_proc oid upd s1) (\<lambda>u s2. good s1 s2 \<and> (trace s2 = trace s1 \<and> heap s2 = heap s1 \<and> nextref s2 = nextref s1))"
  proof (rule upd_proc_good)
    show "linv s1" using a(1) by simp
    fix p assume "find_proc s1 oid = Some p" "proc_ok s1 oid p"
    then show "proc_ok s1 oid (upd p) \<and> (p_written p \<longrightarrow> p_written (upd p))"
      using own set_alist_update [of k r "netflows p"] set_alist_update [of k2 r "fileflows p"] assms(5)
      by (auto simp: proc_ok_def dest: subsetD split: if_splits)
  qed
  then show ?thesis by (intro good_wlp [OF a(1)] wlp_good)
qed

lemma dfset_insert_good: "linv s \<Longrightarrow> wlp (dfset_insert r s) (\<lambda>u s1. good s s1)"
  by (simp add: dfset_insert_def wlp_def)

lemma processNewNF_good:
  assumes "linv s" and "proc_written s oid"
  shows "wlp (processNewNF I ev ti fdinfo oid flag key s) (\<lambda>u s1. good s s1)"
proof -
  obtain t1 s1 where t1: "getCurrentTime I s = (t1, s1)" by fastforce
  obtain t2 s2 where t2: "getCurrentTime I s1 = (t2, s2)" by fastforce
  obtain nfo s3 where u: "updateNetFlow I flag ev
      \<lparr>exportTime = t1, lastUpdate = t2, netflow = populateNetFlow flag ev ti fdinfo oid\<rparr> s2 = (nfo, s3)" by fastforce
  have g1: "good s s1" by (rule clock_good(1) [OF assms(1) t1])
  have g2: "good s1 s2" by (rule clock_good(1) [OF good_linv [OF g1] t2])
  have g3: "good s s3" using good_trans [OF g1 g2] updateNetFlow_result(2) [OF u] good_trans good_linv by blast
  have oid: "nf_procOID (netflow nfo) = oid" using updateNetFlow_result(1) [OF u] by (simp add: populateNetFlow_def)
  have w3: "proc_written s3 oid" by (rule good_written [OF g3 assms(2)])
  show ?thesis
  proof (cases "flag = OP_CLOSE")
    case False
    obtain r s4 where a: "alloc (Net nfo) s3 = (r, s4)" by fastforce
    have "wlp (upd_proc oid (\<lambda>p. p\<lparr>netflows := AList.update key r (netflows p)\<rparr>) s4) (\<lambda>u s5. good s3 s5)"
      by (rule insert_flow_good [where net = True, OF good_linv [OF g3] a _ w3]) (use oid in \<open>auto simp: flow_of_def\<close>)
    then have "wlp (Option.bind (upd_proc oid (\<lambda>p. p\<lparr>netflows := AList.update key r (netflows p)\<rparr>) s4)
        (\<lambda>(u, s5). dfset_insert r s5)) (\<lambda>u s6. good s3 s6)"
      by (rule good_bind0) (auto intro: dfset_insert_good)
    from good_wlp [OF g3 this] show ?thesis using t1 t2 u a False by (simp add: processNewNF_def)
  next
    case True
    have r: "wlp (removeAndWriteRelatedNF I oid key (ev_ts ev) s3) (\<lambda>u s4. good s3 s4)"
      by (rule removeAndWriteRelatedNF_good [OF good_linv [OF g3] w3])
    have "wlp (Option.bind (deref_proc oid s4) (\<lambda>(p, s4). Some ((),
        writeNetFlow I ((netflow nfo)\<lparr>nf_endTs := ev_ts ev\<rparr>) (Some (p_proc p)) s4))) (\<lambda>u s5. good s s5)"
      if g4: "good s3 s4" for s4
    proof -
      have w4: "proc_written s4 oid" by (rule good_written [OF g4 w3])
      then obtain p where p: "find_proc s4 oid = Some p" by (auto simp: proc_written_def)
      have "good s4 (writeNetFlow I ((netflow nfo)\<lparr>nf_endTs := ev_ts ev\<rparr>) (Some (p_proc p)) s4)"
        using linv_proc [OF good_linv [OF g4] p] linv_written [OF good_linv [OF g4] w4] oid
        by (intro write_flow_good) (auto simp: proc_ok_def intro: good_linv [OF g4])
      then show ?thesis using p good_trans [OF good_trans [OF g3 g4]] by (simp add: deref_proc_def)
    qed
    then show ?thesis using t1 t2 u True wlp_conseq [OF r] by (simp add: processNewNF_def)
  qed
qed

lemma processExistingNF_good:
  assumes "linv s" and "proc_written s oid" and "owns s oid True r"
  shows "wlp (processExistingNF I ev oid flag key r s) (\<lambda>u s1. good s s1)"
proof (cases "deref_net r s = None")
  case False
  then obtain n where n: "heap s r = Some (Net n)" "deref_net r s = Some (n, s)" using deref_None_or(1) [of r s] by auto
  obtain n1 s1 where u: "updateNetFlow I flag ev n s = (n1, s1)" by fastforce
  note un = updateNetFlow_result [OF u]
  define s2 where "s2 = put_flow r (Net n1) s1"
  have "good s1 s2" unfolding s2_def by (rule good_put_flow) (use un n assms in auto)
  with un(2) [OF assms(1)] have g2: "good s s2" by (rule good_trans)
  show ?thesis
  proof (cases "flag = OP_CLOSE")
    case False
    then show ?thesis using n u g2 by (simp add: processExistingNF_def s2_def Let_def)
  next
    case True
    have rest: "wlp (Option.bind (deref_net r s3) (\<lambda>(n2, s3). removeAndWriteNetworkFlow I oid r key
             (put_flow r (Net (n2\<lparr>netflow := (netflow n2)\<lparr>nf_endTs := ev_ts ev\<rparr>\<rparr>)) s3))) (\<lambda>u s4. good s s4)"
      if g3: "good s2 s3" for s3
    proof (cases "deref_net r s3 = None")
      case False
      then obtain n2 where n2: "heap s3 r = Some (Net n2)" "deref_net r s3 = Some (n2, s3)"
        using deref_None_or(1) [of r s3] by auto
      define s4 where "s4 = put_flow r (Net (n2\<lparr>netflow := (netflow n2)\<lparr>nf_endTs := ev_ts ev\<rparr>\<rparr>)) s3"
      have "good s3 s4" unfolding s4_def by (rule good_put_flow [OF good_linv [OF g3] n2(1)]) simp
      with good_trans [OF g2 g3] have g4: "good s s4" by (rule good_trans)
      have "wlp (removeAndWriteNetworkFlow I oid r key s4) (\<lambda>u s5. good s4 s5)"
        by (rule removeAndWriteNetworkFlow_good [OF good_linv [OF g4] good_written [OF g4 assms(2)] good_owns [OF g4 assms(3)]])
      from good_wlp [OF g4 this] show ?thesis using n2 by (simp add: s4_def)
    qed simp
    have "wlp (removeAndWriteRelatedNF I oid key (ev_ts ev) s2) (\<lambda>u s3. good s2 s3)"
      by (rule removeAndWriteRelatedNF_good [OF good_linv [OF g2] good_written [OF g2 assms(2)]])
    from wlp_conseq [OF this rest] show ?thesis using n u True by (simp add: processExistingNF_def s2_def Let_def)
  qed
qed (simp add: processExistingNF_def)

lemma getProcess_good:
  "linv s \<Longrightarrow> wlp (getProcess I ev st s) (\<lambda>r s1. good s s1 \<and> proc_written s1 (fst r))"
  using getProcess_step pstep_good by (fastforce simp: wlp_def split: option.split)

lemma handleNetFlowEvent_good: "linv s \<Longrightarrow> wlp (handleNetFlowEvent I ev flag s) (\<lambda>n s1. good s s1)"
proof -
  assume inv: "linv s"
  have "wlp (case ev_tinfo ev of None \<Rightarrow> None | Some ti \<Rightarrow>
      (let key = canonicalizeKey_fd fdinfo (ti_tid ti) (ev_fdnum ev) in Option.bind (deref_proc oid s1) (\<lambda>(p, s).
         Option.bind (case map_of (netflows p) key of None \<Rightarrow> processNewNF I ev ti fdinfo oid flag key s
           | Some r \<Rightarrow> processExistingNF I ev oid flag key r s) (\<lambda>(u, s). Some (0, s))))) (\<lambda>n s2. good s1 s2)"
    if g: "good s s1" and w: "proc_written s1 oid" for oid s1 fdinfo
  proof -
    obtain p where p: "find_proc s1 oid = Some p" using w by (auto simp: proc_written_def)
    show ?thesis
      using processNewNF_good [OF good_linv [OF g] w] processExistingNF_good [OF good_linv [OF g] w]
        table_owns(1) [OF good_linv [OF g] p] p
      by (auto simp: deref_proc_def Let_def split: option.split)
  qed
  then have "wlp (Option.bind (getProcess I ev REUP s) (\<lambda>((oid, created), s). case ev_tinfo ev of None \<Rightarrow> None | Some ti \<Rightarrow>
      (let key = canonicalizeKey_fd fdinfo (ti_tid ti) (ev_fdnum ev) in Option.bind (deref_proc oid s) (\<lambda>(p, s).
         Option.bind (case map_of (netflows p) key of None \<Rightarrow> processNewNF I ev ti fdinfo oid flag key s
           | Some r \<Rightarrow> processExistingNF I ev oid flag key r s) (\<lambda>(u, s). Some (0, s)))))) (\<lambda>n s2. good s s2 \<and> True)" for fdinfo
    by (intro good_bind [OF getProcess_good [OF inv]]) (auto split: prod.split)
  then show ?thesis using inv by (auto simp: handleNetFlowEvent_def split: option.split)
qed

lemma removeNetworkFlow_good: "linv s \<Longrightarrow> wlp (removeNetworkFlow r s) (\<lambda>u s1. good s s1)"
  using deref_None_or(1) [of r s] removeNetworkFlow_key_good [of s]
  by (auto simp: removeNetworkFlow_def split: option.split)

lemma exportNetworkFlow_good:
  assumes "linv s"
  shows "wlp (exportNetworkFlow I r s) (\<lambda>u s1. good s s1)"
proof (cases "deref_net r s = None")
  case False
  then obtain n where n: "heap s r = Some (Net n)" "deref_net r s = Some (n, s)" using deref_None_or(1) [of r s] by auto
  obtain t s1 where t: "getSinspTime I s = (t, s1)" by fastforce
  define nf where "nf = (netflow n)\<lparr>nf_endTs := t\<rparr>"
  obtain q s2 where e: "exportProcess I (nf_procOID nf) s1 = (q, s2)" by fastforce
  define s3 where "s3 = writeNetFlow I nf (map_option p_proc q) s2"
  obtain t2 s4 where t2: "getSinspTime I s3 = (t2, s4)" by fastforce
  have g1: "good s s1" by (rule clock_good(2) [OF assms t])
  from exportProcess_step [OF e] have ex: "pstep s1 s2" "\<And>p. q = Some p \<Longrightarrow> find_proc s2 (nf_procOID nf) = Some p \<and> p_written p" by auto
  have g2: "good s1 s2" by (rule pstep_good [OF ex(1) good_linv [OF g1]])
  have "proc_oid (p_proc p) = nf_procOID nf \<and> proc_oid (p_proc p) \<in> logged_procs (trace s2)" if "q = Some p" for p
    using linv_proc [OF good_linv [OF g2]] ex(2) [OF that] by (auto simp: proc_ok_def)
  then have g3: "good s2 s3" unfolding s3_def by (intro write_flow_good(1) [OF good_linv [OF g2]]) auto
  have g4: "good s s4"
    using clock_good(2) [OF good_linv [OF g3] t2] g1 g2 g3 by (meson good_trans)
  have h: "heap s4 r = Some (Net n)"
    using clock_frame [of I s3 t2 s4] clock_frame [of I s t s1] t t2 n(1) pcore_fields(1) [of s2 s1] ex(1)
    by (auto simp: s3_def writeNetFlow_def pstep_def)
  have "good s4 (put_flow r (Net (n\<lparr>netflow := nf_reup t2 nf\<rparr>)) s4)"
    by (rule good_put_flow [OF good_linv [OF g4] h]) (simp add: nf_reup_def nf_def)
  with g4 have "good s (put_flow r (Net (n\<lparr>netflow := nf_reup t2 nf\<rparr>)) s4)" by (rule good_trans)
  then show ?thesis using n(2) t e t2 by (simp add: exportNetworkFlow_def Let_def nf_def s3_def)
qed (simp add: exportNetworkFlow_def)

text \<open>The end of one iteration over the flows of a process: write, take out of the table and the set.\<close>

lemma end_netflow_good:
  assumes "linv s" and "proc_oid P = oid" and "oid \<in> logged_procs (trace s)" and "owns s oid True r" and "heap s r = Some (Net n)"
    and "nf_procOID nf = nf_procOID (netflow n)"
  shows "wlp (Option.bind (upd_proc oid (\<lambda>p. p\<lparr>netflows := AList.delete k (netflows p)\<rparr>)
      (writeNetFlow I nf (Some P) (put_flow r (Net (n\<lparr>netflow := nf\<rparr>)) s))) (\<lambda>(u, s). removeNetworkFlowFromSet r True s))
      (\<lambda>n s1. good s s1)"
proof -
  let ?s1 = "put_flow r (Net (n\<lparr>netflow := nf\<rparr>)) s"
  let ?s2 = "writeNetFlow I nf (Some P) ?s1"
  have oid: "nf_procOID nf = oid" using owns_flow(1) [OF assms(4,5)] assms(6) by simp
  have g1: "good s ?s1" by (rule good_put_flow [OF assms(1,5)]) (simp add: assms(6))
  have "good ?s1 ?s2" by (rule write_flow_good(1) [OF good_linv [OF g1]]) (use oid assms(2,3) good_logged [OF g1] in auto)
  with g1 have g2: "good s ?s2" by (rule good_trans)
  show ?thesis
    by (rule good_wlp [OF g2], rule good_bind0 [OF wlp_good [OF erase_flow_good(1) [OF good_linv [OF g2]]]])
      (auto intro: removeNetworkFlowFromSet_good)
qed

lemma nf_from_proc_loop_good:
  "linv s \<Longrightarrow> proc_written s oid \<Longrightarrow> wlp (nf_from_proc_loop I oid tid ks deleted s) (\<lambda>n s1. good s s1)"
proof (induction ks arbitrary: deleted s)
  case (Cons k ks)
  obtain p where p: "find_proc s oid = Some p" using Cons.prems(2) by (auto simp: proc_written_def)
  note inv = Cons.prems(1)
  have oid: "proc_oid (p_proc p) = oid" using linv_proc [OF inv p] by (simp add: proc_ok_def)
  have cont: "wlp (nf_from_proc_loop I oid tid ks d s1) (\<lambda>n s2. good s s2)" if "good s s1" for d s1
    using good_wlp [OF that Cons.IH [OF good_linv [OF that] good_written [OF that Cons.prems(2)]]] .
  show ?case
  proof (cases "map_of (netflows p) k")
    case None
    then show ?thesis using p cont [of s] inv by (simp add: deref_proc_def)
  next
    case (Some r)
    have own: "owns s oid True r" by (rule table_owns(1) [OF inv p Some])
    show ?thesis
    proof (cases "deref_net r s = None")
      case False
      then obtain n where n: "heap s r = Some (Net n)" "deref_net r s = Some (n, s)" using deref_None_or(1) [of r s] by auto
      show ?thesis
      proof (cases "tid = -1 \<or> tid = nf_tid (netflow n)")
        case False
        then show ?thesis using p Some n cont [of s] inv by (simp add: deref_proc_def)
      next
        case True
        obtain t s1 where t: "getSinspTime I s = (t, s1)" by fastforce
        define s2 where "s2 = put_flow r (Net (n\<lparr>netflow := (netflow n)\<lparr>nf_endTs := t\<rparr>\<rparr>)) s1"
        have g1: "good s s1" by (rule clock_good(2) [OF inv t])
        have h1: "heap s1 r = Some (Net n)" using clock_frame [of I s t s1] t n(1) by auto
        have "good s1 s2" unfolding s2_def by (rule good_put_flow [OF good_linv [OF g1] h1]) simp
        with g1 have g2: "good s s2" by (rule good_trans)
        have rel: "wlp (if tid \<noteq> -1 then removeAndWriteRelatedNF I oid (canonicalizeKey (netflow n)) t s2 else Some ((), s2))
            (\<lambda>u s3. good s s3)"
          using good_wlp [OF g2 removeAndWriteRelatedNF_good [OF good_linv [OF g2] good_written [OF g2 Cons.prems(2)]]] g2
          by (auto simp: wlp_def)
        have fin: "wlp (Option.bind (deref_net r s3) (\<lambda>(n, s). let nf = (netflow n)\<lparr>nf_opFlags := or (nf_opFlags (netflow n)) (op_val OP_TRUNCATE)\<rparr> in
             Option.bind (upd_proc oid (\<lambda>p. p\<lparr>netflows := AList.delete k (netflows p)\<rparr>)
                (writeNetFlow I nf (Some (p_proc p)) (put_flow r (Net (n\<lparr>netflow := nf\<rparr>)) s)))
              (\<lambda>(u, s). Option.bind (removeNetworkFlowFromSet r True s) (\<lambda>(m, s). nf_from_proc_loop I oid tid ks (deleted + m) s))))
            (\<lambda>n s4. good s s4)" if g3: "good s s3" for s3
        proof (cases "deref_net r s3 = None")
          case False
          then obtain n3 where n3: "heap s3 r = Some (Net n3)" "deref_net r s3 = Some (n3, s3)" using deref_None_or(1) [of r s3] by auto
          define nf where "nf = (netflow n3)\<lparr>nf_opFlags := or (nf_opFlags (netflow n3)) (op_val OP_TRUNCATE)\<rparr>"
          have "wlp (Option.bind (upd_proc oid (\<lambda>p. p\<lparr>netflows := AList.delete k (netflows p)\<rparr>)
              (writeNetFlow I nf (Some (p_proc p)) (put_flow r (Net (n3\<lparr>netflow := nf\<rparr>)) s3))) (\<lambda>(u, s). removeNetworkFlowFromSet r True s))
              (\<lambda>n s1. good s3 s1)"
            by (rule end_netflow_good [OF good_linv [OF g3] oid _ good_owns [OF g3 own] n3(1)])
              (use good_logged [OF g3] linv_written [OF inv Cons.prems(2)] in \<open>auto simp: nf_def\<close>)
          then have "wlp (Option.bind (upd_proc oid (\<lambda>p. p\<lparr>netflows := AList.delete k (netflows p)\<rparr>)
              (writeNetFlow I nf (Some (p_proc p)) (put_flow r (Net (n3\<lparr>netflow := nf\<rparr>)) s3))) (\<lambda>(u, s). removeNetworkFlowFromSet r True s))
              (\<lambda>m s4. wlp (nf_from_proc_loop I oid tid ks (deleted + m) s4) (\<lambda>n s5. good s s5))"
            by (rule wlp_conseq) (rule cont, rule good_trans [OF g3])
          then show ?thesis using n3(2) by (simp add: nf_def Let_def split_def)
        qed simp
        from wlp_conseq [OF rel fin] show ?thesis
          using p Some n True t by (cases "tid = -1") (simp_all add: deref_proc_def s2_def split_def)
      qed
    qed (use p Some in \<open>simp add: deref_proc_def\<close>)
  qed
qed simp

lemma removeAndWriteNFFromProc_good:
  assumes "linv s" and "proc_written s oid"
  shows "wlp (removeAndWriteNFFromProc I oid tid s) (\<lambda>n s1. good s s1)"
proof -
  obtain p where p: "find_proc s oid = Some p" using assms(2) by (auto simp: proc_written_def)
  have "wlp (nf_from_proc_loop I oid tid (tbl_keys (netflows p)) 0 s) (\<lambda>n s1. wlp
      (if tid = -1 then upd_proc oid (\<lambda>p. p\<lparr>netflows := []\<rparr>) s1 else Some ((), s1)) (\<lambda>u s2. good s s2))"
  proof (rule wlp_conseq [OF nf_from_proc_loop_good [OF assms]])
    fix n s1 assume g: "good s s1"
    show "wlp (if tid = -1 then upd_proc oid (\<lambda>p. p\<lparr>netflows := []\<rparr>) s1 else Some ((), s1)) (\<lambda>u s2. good s s2)"
      using good_wlp [OF g wlp_good [OF erase_flow_good(3) [OF good_linv [OF g]]]] g by auto
  qed
  then show ?thesis using p by (cases "tid = -1") (simp_all add: removeAndWriteNFFromProc_def deref_proc_def split_def)
qed

section \<open>File flows\<close>

lemma file_logged: "linv s \<Longrightarrow> file_written s k \<Longrightarrow> find_file s k = Some f \<Longrightarrow> file_oid (f_file f) \<in> logged_files (trace s)"
  by (simp add: linv_def files_logged_def file_written_def)

lemma SHOULD_WRITE_good:
  assumes "linv s"
    and "\<And>q. p = Some q \<Longrightarrow> proc_oid q = ff_procOID (fileflow ffo) \<and> proc_oid q \<in> logged_procs (trace s)"
    and "\<And>g. f = Some g \<Longrightarrow> file_oid g \<in> logged_files (trace s)"
  shows "good s (SHOULD_WRITE I ffo p f s)"
  using write_flow_good(2) [OF assms] assms(1) by (simp add: SHOULD_WRITE_def)

lemma SHOULD_WRITE_frame [simp]:
  "heap (SHOULD_WRITE I ffo p f s) = heap s" "m_procs (SHOULD_WRITE I ffo p f s) = m_procs s"
  "m_dfSet (SHOULD_WRITE I ffo p f s) = m_dfSet s" "nextref (SHOULD_WRITE I ffo p f s) = nextref s"
  "m_files (SHOULD_WRITE I ffo p f s) = m_files s" "m_cxt (SHOULD_WRITE I ffo p f s) = m_cxt s"
  by (simp_all add: SHOULD_WRITE_def writeFileFlow_def)

lemma removeFileFlowFromSet_good:
  assumes "linv s"
  shows "wlp (removeFileFlowFromSet I r b s) (\<lambda>n s1. good s s1)"
proof (cases "deref_file r s = None")
  case False
  then obtain f where f: "heap s r = Some (Fil f)" "deref_file r s = Some (f, s)" using deref_None_or(2) [of r s] by auto
  have g: "good s (if c then snd (getFile_key I k (s\<lparr>m_dfSet := q\<rparr>)) else s\<lparr>m_dfSet := q\<rparr>)" for c k q
    using fstep_good [OF fstep_getFile_key(1), of "s\<lparr>m_dfSet := q\<rparr>" I k] assms by simp
  have "wlp (free r (if c then snd (getFile_key I k (s\<lparr>m_dfSet := q\<rparr>)) else s\<lparr>m_dfSet := q\<rparr>)) (\<lambda>u s1. good s s1)" for c k q
    by (rule good_wlp [OF g free_good [OF good_linv [OF g]]])
  then show ?thesis using f g by (auto simp: removeFileFlowFromSet_def Let_def split: prod.split)
qed (simp add: removeFileFlowFromSet_def)

lemma removeFileFlow_key_good:
  assumes "linv s"
  shows "wlp (removeFileFlow_key oid fk r k s) (\<lambda>u s1. good s s1)"
proof -
  have "good s1 (case fk of None \<Rightarrow> s1 | Some k \<Rightarrow> file_decr k s1)" if "linv s1" for s1
    using that by (auto split: option.split intro: fstep_good fstep_file_count)
  then show ?thesis unfolding removeFileFlow_key_def
    by (intro good_bind0 [OF wlp_good [OF erase_flow_good(2) [OF assms]]])
      (auto intro!: wlp_conseq [OF free_good] intro: good_trans)
qed

lemma write_related_ff_good:
  assumes "linv s" and "proc_oid P = oid" and "oid \<in> logged_procs (trace s)"
    and "\<And>r. r \<in> set rs \<Longrightarrow> owns s oid False r"
  shows "wlp (write_related_ff I P endTs rs s) (\<lambda>u s1. good s s1)"
  using assms(1,3,4)
proof (induction rs arbitrary: s)
  case (Cons r rs)
  note pre = Cons.prems
  show ?case
  proof (cases "deref_file r s = None")
    case False
    then obtain f where f: "heap s r = Some (Fil f)" "deref_file r s = Some (f, s)" using deref_None_or(2) [of r s] by auto
    define f1 where "f1 = f\<lparr>fileflow := (fileflow f)\<lparr>ff_endTs := endTs, ff_opFlags := or (ff_opFlags (fileflow f)) (op_val OP_TRUNCATE)\<rparr>\<rparr>"
    define s1 where "s1 = put_flow r (Fil f1) s"
    obtain g0 s2 where k: "getFile_key I (filekey f1) s1 = (g0, s2)" by fastforce
    define s3 where "s3 = SHOULD_WRITE I f1 (Some P) (map_option f_file g0) s2"
    have oid: "ff_procOID (fileflow f1) = oid" using owns_flow(2) [OF pre(3) [of r] f(1)] by (simp add: f1_def)
    have g1: "good s s1" unfolding s1_def by (rule good_put_flow [OF pre(1) f(1)]) (simp add: f1_def)
    have "good s1 s2" using fstep_good [OF fstep_getFile_key(1) good_linv [OF g1], of I "filekey f1"] k by simp
    with g1 have g2: "good s s2" by (rule good_trans)
    have "good s2 s3" unfolding s3_def
      by (rule SHOULD_WRITE_good [OF good_linv [OF g2]])
        (use oid assms(2) good_logged [OF g2 pre(2)] getFile_key_written(1) [OF good_linv [OF g1]] k in auto)
    with g2 have g3: "good s s3" by (rule good_trans)
    have "wlp (removeFileFlowFromSet I r True s3) (\<lambda>m s4. wlp (write_related_ff I P endTs rs s4) (\<lambda>u s5. good s s5))"
    proof (rule wlp_conseq [OF removeFileFlowFromSet_good])
      fix m s4 assume "good s3 s4"
      with g3 have g4: "good s s4" by (rule good_trans)
      have "wlp (write_related_ff I P endTs rs s4) (\<lambda>u s5. good s4 s5)"
        by (rule Cons.IH) (use g4 pre(2,3) in \<open>auto dest: good_logged intro: good_owns [OF g4]\<close>)
      then show "wlp (write_related_ff I P endTs rs s4) (\<lambda>u s5. good s s5)"
        by (rule wlp_conseq) (rule good_trans [OF g4])
    qed (use g3 in simp)
    then show ?thesis using f(2) k by (simp add: Let_def f1_def s1_def s3_def)
  qed simp
qed simp

lemma collect_ff_result:
  "collect_ff s ffo t acc = Some (t1, rs) \<Longrightarrow> set t1 \<subseteq> set t \<and> set rs \<subseteq> set acc \<union> snd ` set t"
proof (induction t arbitrary: acc t1 rs)
  case (Cons e t)
  obtain k r where e: "e = (k, r)" by fastforce
  obtain f where f: "heap s r = Some (Fil f)" using Cons.prems e by (auto split: option.splits DataFlow.splits)
  show ?case
  proof (cases "ff_related ffo f")
    case True
    then obtain acc1 where "collect_ff s ffo t acc1 = Some (t1, rs)" "set acc1 = insert r (set acc)"
      using Cons.prems e f by (auto split: if_splits)
    from Cons.IH [OF this(1)] this(2) e show ?thesis by auto
  next
    case False
    then obtain t2 where "collect_ff s ffo t acc = Some (t2, rs)" "t1 = (k, r) # t2"
      using Cons.prems e f by auto
    from Cons.IH [OF this(1)] this(2) e show ?thesis by auto
  qed
qed simp

lemma removeAndWriteRelatedFF_good:
  assumes "linv s" and "proc_written s oid"
  shows "wlp (removeAndWriteRelatedFF I oid ffo endTs s) (\<lambda>u s1. good s s1)"
proof -
  from assms(2) obtain p where p: "find_proc s oid = Some p" by (auto simp: proc_written_def)
  show ?thesis
  proof (cases "collect_ff s ffo (fileflows p) []")
    case None
    then show ?thesis using p by (simp add: removeAndWriteRelatedFF_def deref_proc_def)
  next
    case (Some tr)
    obtain t rs where t: "tr = (t, rs)" by fastforce
    from collect_ff_result [OF Some [unfolded t]] have c: "set t \<subseteq> set (fileflows p)" "set rs \<subseteq> snd ` set (fileflows p)" by auto
    have ok: "proc_ok s oid p" by (rule linv_proc [OF assms(1) p])
    define s1 where "s1 = put_proc oid (p\<lparr>fileflows := t\<rparr>) s"
    have g: "good s s1" unfolding s1_def
      by (rule pstep_good [OF pstep_put [OF pstep_refl]]) (use ok c p assms in \<open>auto simp: proc_ok_shrink proc_written_def\<close>)
    have "wlp (write_related_ff I (p_proc p) endTs rs s1) (\<lambda>u s2. good s1 s2)"
      by (rule write_related_ff_good) (use g ok assms linv_written c(2) in \<open>auto simp: proc_ok_def s1_def\<close>)
    then have "wlp (write_related_ff I (p_proc p) endTs rs s1) (\<lambda>u s2. good s s2)"
      by (rule wlp_conseq) (rule good_trans [OF g])
    then show ?thesis using p Some t by (simp add: removeAndWriteRelatedFF_def deref_proc_def s1_def)
  qed
qed

text \<open>A flow written with the process and the file of the handler.\<close>

lemma handler_write_good:
  assumes "linv s" and "proc_written s oid" and "file_written s fk" and "ff_procOID (fileflow ffo) = oid"
    and "find_proc s oid = Some p" and "find_file s fk = Some f"
  shows "good s (SHOULD_WRITE I ffo (Some (p_proc p)) (Some (f_file f)) s)"
  by (rule SHOULD_WRITE_good [OF assms(1)])
    (use assms linv_proc [OF assms(1,5)] linv_written file_logged in \<open>auto simp: proc_ok_def\<close>)

lemma removeAndWriteFileFlow_good:
  assumes "linv s" and "proc_written s oid" and "file_written s fk" and "owns s oid False r"
  shows "wlp (removeAndWriteFileFlow I oid fk r k s) (\<lambda>u s1. good s s1)"
proof (cases "deref_file r s = None")
  case False
  then obtain n where n: "heap s r = Some (Fil n)" "deref_file r s = Some (n, s)" using deref_None_or(2) [of r s] by auto
  obtain p where p: "find_proc s oid = Some p" using assms(2) by (auto simp: proc_written_def)
  obtain f where f: "find_file s fk = Some f" using assms(3) by (auto simp: file_written_def)
  define s1 where "s1 = SHOULD_WRITE I n (Some (p_proc p)) (Some (f_file f)) s"
  have g: "good s s1" unfolding s1_def
    by (rule handler_write_good [OF assms(1-3) owns_flow(2) [OF assms(4) n(1)] p f])
  have "wlp (removeFileFlowFromSet I r False s1) (\<lambda>m s2. wlp (removeFileFlow_key oid (Some fk) r k s2) (\<lambda>u s3. good s s3))"
  proof (rule wlp_conseq [OF removeFileFlowFromSet_good])
    fix m s2 assume g2: "good s1 s2"
    with removeFileFlow_key_good [of s2 oid "Some fk" r k] have "wlp (removeFileFlow_key oid (Some fk) r k s2) (\<lambda>u s3. good s2 s3)" by simp
    from good_wlp [OF good_trans [OF g g2] this] show "wlp (removeFileFlow_key oid (Some fk) r k s2) (\<lambda>u s3. good s s3)" .
  qed (use g in simp)
  then show ?thesis using n(2) p f by (simp add: removeAndWriteFileFlow_def deref_proc_def deref_fileobj_def s1_def)
qed (simp add: removeAndWriteFileFlow_def)

lemma updateFileFlow_result:
  assumes "updateFileFlow I flag ev fdinfo ffo s = (ffo1, s1)"
  shows "ff_procOID (fileflow ffo1) = ff_procOID (fileflow ffo)" and "linv s \<Longrightarrow> good s s1"
    and "heap s1 = heap s" and "nextref s1 = nextref s"
  using assms clock_good(1) [of s I]
  by (auto simp: updateFileFlow_def getCurrentTime_def ff_count_op_def Let_def split: prod.splits if_splits)

lemma populateFileFlow_oid [simp]: "ff_procOID (fileflow (populateFileFlow c flag ev ti oid f k fdinfo fd ffo)) = oid"
  by (simp add: populateFileFlow_def Let_def)

lemma processNewFF_good:
  assumes "linv s" and "proc_written s oid" and "file_written s fk"
  shows "wlp (processNewFF I ev ti oid fk flag fkey fdinfo fd s) (\<lambda>u s1. good s s1)"
proof -
  obtain t1 s1 where t1: "getCurrentTime I s = (t1, s1)" by fastforce
  obtain t2 s2 where t2: "getCurrentTime I s1 = (t2, s2)" by fastforce
  have g1: "good s s1" by (rule clock_good(1) [OF assms(1) t1])
  have "good s1 s2" by (rule clock_good(1) [OF good_linv [OF g1] t2])
  with g1 have g2: "good s s2" by (rule good_trans)
  obtain f where f: "find_file s2 fk = Some f" using good_file [OF g2 assms(3)] by (auto simp: file_written_def)
  define ffo0 where "ffo0 = populateFileFlow (m_cxt s2) flag ev ti oid f fkey fdinfo fd (FileFlowObj_new\<lparr>exportTime := t1, lastUpdate := t2\<rparr>)"
  obtain ffo s3 where u: "updateFileFlow I flag ev fdinfo ffo0 s2 = (ffo, s3)" by fastforce
  note un = updateFileFlow_result [OF u]
  have g3: "good s s3" by (rule good_trans [OF g2 un(2) [OF good_linv [OF g2]]])
  have oid: "ff_procOID (fileflow ffo) = oid" using un(1) by (simp add: ffo0_def)
  have w3: "proc_written s3 oid" "file_written s3 fk" using good_written [OF g3 assms(2)] good_file [OF g3 assms(3)] by auto
  show ?thesis
  proof (cases "flag = OP_CLOSE")
    case False
    obtain r s4 where a: "alloc (Fil ffo) s3 = (r, s4)" by fastforce
    have ins: "wlp (upd_proc oid (\<lambda>p. p\<lparr>fileflows := AList.update (flowkey ffo) r (fileflows p)\<rparr>) s4) (\<lambda>u s5. good s3 s5)"
      by (rule insert_flow_good [where net = False, OF good_linv [OF g3] a _ w3(1)]) (use oid in \<open>auto simp: flow_of_def\<close>)
    have "wlp (dfset_insert r (file_incr fk s5)) (\<lambda>u s6. good s s6)" if g5: "good s3 s5" for s5
    proof -
      have "good s5 (file_incr fk s5)" by (rule fstep_good [OF fstep_file_count(1) good_linv [OF g5]])
      with good_trans [OF g3 g5] have g6: "good s (file_incr fk s5)" by (rule good_trans)
      show ?thesis by (rule good_wlp [OF g6 dfset_insert_good [OF good_linv [OF g6]]])
    qed
    from wlp_conseq [OF ins this] show ?thesis
      using t1 t2 f u a False by (simp add: processNewFF_def deref_fileobj_def ffo0_def)
  next
    case True
    have rel: "wlp (removeAndWriteRelatedFF I oid ffo (ev_ts ev) s3) (\<lambda>u s4. good s3 s4)"
      by (rule removeAndWriteRelatedFF_good [OF good_linv [OF g3] w3(1)])
    have "wlp (Option.bind (deref_proc oid s4) (\<lambda>(p, s4). Option.bind (deref_fileobj fk s4) (\<lambda>(f, s4). Some ((),
        SHOULD_WRITE I (ffo\<lparr>fileflow := (fileflow ffo)\<lparr>ff_endTs := ev_ts ev\<rparr>\<rparr>) (Some (p_proc p)) (Some (f_file f)) s4))))
        (\<lambda>u s5. good s s5)" if g4: "good s3 s4" for s4
    proof -
      have w4: "proc_written s4 oid" "file_written s4 fk" using good_written [OF g4 w3(1)] good_file [OF g4 w3(2)] by auto
      then obtain p f where pf: "find_proc s4 oid = Some p" "find_file s4 fk = Some f"
        by (auto simp: proc_written_def file_written_def)
      have "good s4 (SHOULD_WRITE I (ffo\<lparr>fileflow := (fileflow ffo)\<lparr>ff_endTs := ev_ts ev\<rparr>\<rparr>) (Some (p_proc p)) (Some (f_file f)) s4)"
        by (rule handler_write_good [OF good_linv [OF g4] w4 _ pf]) (simp add: oid)
      then show ?thesis using pf good_trans [OF good_trans [OF g3 g4]] by (simp add: deref_proc_def deref_fileobj_def)
    qed
    from wlp_conseq [OF rel this] show ?thesis
      using t1 t2 f u True by (simp add: processNewFF_def deref_fileobj_def ffo0_def)
  qed
qed

lemma createConsumerRecord_good:
  assumes "linv s" and "proc_written s oid" and "file_written s fk"
  shows "wlp (createConsumerRecord I ev ti oid fk flag fdinfo fd s) (\<lambda>n s1. good s s1)"
proof -
  obtain p f where pf: "find_proc s oid = Some p" "find_file s fk = Some f"
    using assms by (auto simp: proc_written_def file_written_def)
  show ?thesis
    using assms(1) pf handler_write_good [OF assms _ pf]
    by (auto simp: createConsumerRecord_def deref_proc_def deref_fileobj_def Let_def)
qed

lemma processExistingFF_good:
  assumes "linv s" and "proc_written s oid" and "file_written s fk" and "owns s oid False r"
  shows "wlp (processExistingFF I ev oid fk flag fkey r fdinfo s) (\<lambda>u s1. good s s1)"
proof (cases "deref_file r s = None")
  case False
  then obtain n where n: "heap s r = Some (Fil n)" "deref_file r s = Some (n, s)" using deref_None_or(2) [of r s] by auto
  obtain n1 s1 where u: "updateFileFlow I flag ev fdinfo n s = (n1, s1)" by fastforce
  note un = updateFileFlow_result [OF u]
  define s2 where "s2 = put_flow r (Fil n1) s1"
  have "good s1 s2" unfolding s2_def by (rule good_put_flow) (use un n assms in auto)
  with un(2) [OF assms(1)] have g2: "good s s2" by (rule good_trans)
  show ?thesis
  proof (cases "flag = OP_CLOSE")
    case False
    then show ?thesis using n u g2 by (simp add: processExistingFF_def s2_def Let_def)
  next
    case True
    have rest: "wlp (Option.bind (deref_file r s3) (\<lambda>(n2, s3). removeAndWriteFileFlow I oid fk r fkey
             (put_flow r (Fil (n2\<lparr>fileflow := (fileflow n2)\<lparr>ff_endTs := ev_ts ev\<rparr>\<rparr>)) s3))) (\<lambda>u s4. good s s4)"
      if g3: "good s2 s3" for s3
    proof (cases "deref_file r s3 = None")
      case False
      then obtain n2 where n2: "heap s3 r = Some (Fil n2)" "deref_file r s3 = Some (n2, s3)"
        using deref_None_or(2) [of r s3] by auto
      define s4 where "s4 = put_flow r (Fil (n2\<lparr>fileflow := (fileflow n2)\<lparr>ff_endTs := ev_ts ev\<rparr>\<rparr>)) s3"
      have "good s3 s4" unfolding s4_def by (rule good_put_flow [OF good_linv [OF g3] n2(1)]) simp
      with good_trans [OF g2 g3] have g4: "good s s4" by (rule good_trans)
      have "wlp (removeAndWriteFileFlow I oid fk r fkey s4) (\<lambda>u s5. good s4 s5)"
        by (rule removeAndWriteFileFlow_good [OF good_linv [OF g4] good_written [OF g4 assms(2)]
              good_file [OF g4 assms(3)] good_owns [OF g4 assms(4)]])
      from good_wlp [OF g4 this] show ?thesis using n2 by (simp add: s4_def)
    qed simp
    have "wlp (removeAndWriteRelatedFF I oid n1 (ev_ts ev) s2) (\<lambda>u s3. good s2 s3)"
      by (rule removeAndWriteRelatedFF_good [OF good_linv [OF g2] good_written [OF g2 assms(2)]])
    from wlp_conseq [OF this rest] show ?thesis using n u True by (simp add: processExistingFF_def s2_def Let_def)
  qed
qed (simp add: processExistingFF_def)

lemma getFile_good:
  assumes "linv s" and "getFile I ev ti path tc st s = ((k, b), s1)"
  shows "good s s1" and "file_written s1 k"
  using fstep_good [OF fstep_getFile assms(1), of I ev ti path tc st] getFile_written [OF assms(2)] assms(2) by auto

text \<open>The part of the handler after the process and the file are known.\<close>

definition file_flow_body :: "inspector \<Rightarrow> sinsp_evt \<Rightarrow> OpFlags \<Rightarrow> sinsp_fdinfo \<Rightarrow> int \<Rightarrow> OID \<Rightarrow> sf \<Rightarrow> (int \<times> sf) option" where
  "file_flow_body I ev flag fdinfo fd oid s =
     (case ev_tinfo ev of
        None \<Rightarrow> None
      | Some ti \<Rightarrow>
          (case getFile I ev ti (fd_name fdinfo) (fd_typechar fdinfo) REUP s of
             ((fk, created2), s) \<Rightarrow>
               (if isConsumerMode (m_cxt s) then createConsumerRecord I ev ti oid fk flag fdinfo fd s
                else do {
                  fkey \<leftarrow> file_flow_key fdinfo ti fd;
                  (p, s) \<leftarrow> deref_proc oid s;
                  (u, s) \<leftarrow> (case map_of (fileflows p) fkey of
                               None \<Rightarrow> processNewFF I ev ti oid fk flag fkey fdinfo fd s
                             | Some r \<Rightarrow> processExistingFF I ev oid fk flag fkey r fdinfo s);
                  Some (0, s)
                })))"

lemma handleFileFlowEvent_body:
  "handleFileFlowEvent I ev flag s = do {
     (fdi, fd) \<leftarrow> find_fdinfo I ev flag;
     (case fdi of
        None \<Rightarrow> Some (1, s)
      | Some fdinfo \<Rightarrow>
          (if fd_is_ipv4 fdinfo \<or> fd_is_ipv6 fdinfo then Some (1, s)
           else if fileOnly (config s) \<and> \<not> fd_is_file fdinfo then Some (1, s)
           else if fd_typechar fdinfo \<notin> set (map file_type_char [SF_FILE, SF_DIR, SF_UNIX, SF_PIPE]) then Some (1, s)
           else do {
             ((oid, created), s) \<leftarrow> getProcess I ev REUP s;
             file_flow_body I ev flag fdinfo fd oid s
           }))
   }"
  unfolding handleFileFlowEvent_def file_flow_body_def ..

lemma file_flow_body_good:
  assumes "linv s" and "proc_written s oid"
  shows "wlp (file_flow_body I ev flag fdinfo fd oid s) (\<lambda>n s1. good s s1)"
proof (cases "ev_tinfo ev")
  case (Some ti)
  obtain fk b s1 where gf: "getFile I ev ti (fd_name fdinfo) (fd_typechar fdinfo) REUP s = ((fk, b), s1)"
    by (metis surj_pair)
  note g = getFile_good [OF assms(1) gf]
  note inv1 = good_linv [OF g(1)] and w1 = good_written [OF g(1) assms(2)]
  obtain p where p: "find_proc s1 oid = Some p" using w1 by (auto simp: proc_written_def)
  have "wlp (createConsumerRecord I ev ti oid fk flag fdinfo fd s1) (\<lambda>n s2. good s s2)"
    by (rule good_wlp [OF g(1) createConsumerRecord_good [OF inv1 w1 g(2)]])
  moreover have "wlp (processNewFF I ev ti oid fk flag fkey fdinfo fd s1) (\<lambda>u s2. good s s2)" for fkey
    by (rule good_wlp [OF g(1) processNewFF_good [OF inv1 w1 g(2)]])
  moreover have "wlp (processExistingFF I ev oid fk flag fkey r fdinfo s1) (\<lambda>u s2. good s s2)"
    if "map_of (fileflows p) fkey = Some r" for fkey r
    by (rule good_wlp [OF g(1) processExistingFF_good [OF inv1 w1 g(2) table_owns(2) [OF inv1 p that]]])
  ultimately show ?thesis
    using Some gf p by (cases "file_flow_key fdinfo ti fd") (auto simp: file_flow_body_def deref_proc_def split: option.split)
qed (simp add: file_flow_body_def)

lemma handleFileFlowEvent_good: "linv s \<Longrightarrow> wlp (handleFileFlowEvent I ev flag s) (\<lambda>n s1. good s s1)"
proof -
  assume inv: "linv s"
  have "wlp (Option.bind (getProcess I ev REUP s) (\<lambda>((oid, created), s). file_flow_body I ev flag fdinfo fd oid s)) (\<lambda>n s1. good s s1 \<and> True)" for fdinfo fd
    by (rule good_bind [OF getProcess_good [OF inv]]) (auto split: prod.split intro: file_flow_body_good)
  then show ?thesis using inv
    by (cases "find_fdinfo I ev flag") (auto simp: handleFileFlowEvent_body split: option.split)
qed

lemma removeFileFlow_good:
  assumes "linv s"
  shows "wlp (removeFileFlow I r s) (\<lambda>u s1. good s s1)"
proof (cases "deref_file r s = None")
  case False
  then obtain f where f: "heap s r = Some (Fil f)" "deref_file r s = Some (f, s)" using deref_None_or(2) [of r s] by auto
  obtain g0 s1 where k: "getFile_key I (filekey f) s = (g0, s1)" by fastforce
  have g: "good s s1" using fstep_good [OF fstep_getFile_key(1) assms, of I "filekey f"] k by simp
  show ?thesis using f k assms good_wlp [OF g removeFileFlow_key_good [OF good_linv [OF g]]]
    by (auto simp: removeFileFlow_def split: option.split)
qed (simp add: removeFileFlow_def)

lemma exportFileFlow_good:
  assumes "linv s"
  shows "wlp (exportFileFlow I r s) (\<lambda>u s1. good s s1)"
proof (cases "deref_file r s = None")
  case False
  then obtain n where n: "heap s r = Some (Fil n)" "deref_file r s = Some (n, s)" using deref_None_or(2) [of r s] by auto
  obtain t s1 where t: "getSinspTime I s = (t, s1)" by fastforce
  define ff where "ff = (fileflow n)\<lparr>ff_endTs := t\<rparr>"
  obtain q s2 where e: "exportProcess I (ff_procOID ff) s1 = (q, s2)" by fastforce
  obtain g0 s3 where k: "exportFile I (filekey n) s2 = (g0, s3)" by fastforce
  define s4 where "s4 = SHOULD_WRITE I (n\<lparr>fileflow := ff\<rparr>) (map_option p_proc q) (map_option f_file g0) s3"
  obtain t2 s5 where t2: "getSinspTime I s4 = (t2, s5)" by fastforce
  have g1: "good s s1" by (rule clock_good(2) [OF assms t])
  from exportProcess_step [OF e] have ex: "pstep s1 s2" "\<And>p. q = Some p \<Longrightarrow> find_proc s2 (ff_procOID ff) = Some p \<and> p_written p" by auto
  have g2: "good s1 s2" by (rule pstep_good [OF ex(1) good_linv [OF g1]])
  have fs: "fstep s2 s3" using fstep_getFile_key(2) [of s2 I "filekey n"] k by simp
  have g3: "good s2 s3" by (rule fstep_good [OF fs good_linv [OF g2]])
  have "proc_oid (p_proc p) = ff_procOID ff \<and> proc_oid (p_proc p) \<in> logged_procs (trace s3)" if "q = Some p" for p
    using linv_proc [OF good_linv [OF g2]] ex(2) [OF that] good_logged [OF g3] by (auto simp: proc_ok_def)
  then have g4: "good s3 s4" unfolding s4_def
    by (intro SHOULD_WRITE_good [OF good_linv [OF g3]]) (use getFile_key_written(2) [OF good_linv [OF g2]] k in auto)
  have g5: "good s s5"
    using clock_good(2) [OF good_linv [OF g4] t2] g1 g2 g3 g4 by (meson good_trans)
  have "heap s3 = heap s1" using fs ex(1) core_fields(7) [of s3 s2] pcore_fields(1) [of s2 s1] by (simp add: fstep_def pstep_def)
  then have h: "heap s5 r = Some (Fil n)"
    using clock_frame [of I s4 t2 s5] clock_frame [of I s t s1] t t2 n(1) by (auto simp: s4_def)
  have "good s5 (put_flow r (Fil (n\<lparr>fileflow := ff_reup t2 ff\<rparr>)) s5)"
    by (rule good_put_flow [OF good_linv [OF g5] h]) (simp add: ff_reup_def ff_def)
  with g5 have "good s (put_flow r (Fil (n\<lparr>fileflow := ff_reup t2 ff\<rparr>)) s5)" by (rule good_trans)
  then show ?thesis using n(2) t e k t2 by (simp add: exportFileFlow_def Let_def ff_def s4_def)
qed (simp add: exportFileFlow_def)

lemma end_fileflow_good:
  assumes "linv s" and "proc_oid P = oid" and "oid \<in> logged_procs (trace s)" and "owns s oid False r" and "heap s r = Some (Fil n)"
    and "ff_procOID (fileflow ffo) = ff_procOID (fileflow n)" and "file_oid F \<in> logged_files (trace s)"
  shows "wlp (Option.bind (upd_proc oid (\<lambda>p. p\<lparr>fileflows := AList.delete k (fileflows p)\<rparr>)
      (SHOULD_WRITE I ffo (Some P) (Some F) (put_flow r (Fil ffo) s)))
      (\<lambda>(u, s). Option.bind (removeFileFlowFromSet I r True s) (\<lambda>(m, s). Some (m, file_decr fk s)))) (\<lambda>n s1. good s s1)"
proof -
  let ?s1 = "put_flow r (Fil ffo) s"
  let ?s2 = "SHOULD_WRITE I ffo (Some P) (Some F) ?s1"
  have oid: "ff_procOID (fileflow ffo) = oid" using owns_flow(2) [OF assms(4,5)] assms(6) by simp
  have g1: "good s ?s1" by (rule good_put_flow [OF assms(1,5)]) (simp add: assms(6))
  have tr: "trace ?s1 = trace s" by (simp add: put_flow_def)
  have "good ?s1 ?s2" by (rule SHOULD_WRITE_good [OF good_linv [OF g1]]) (use oid assms(2,3,7) tr in auto)
  with g1 have g2: "good s ?s2" by (rule good_trans)
  have "wlp (Option.bind (removeFileFlowFromSet I r True s3) (\<lambda>(m, s). Some (m, file_decr fk s))) (\<lambda>n s4. good s3 s4)" if "linv s3" for s3
    by (rule good_bind0 [OF removeFileFlowFromSet_good [OF that]]) (auto intro: fstep_good fstep_file_count)
  then show ?thesis
    by (intro good_wlp [OF g2] good_bind0 [OF wlp_good [OF erase_flow_good(2) [OF good_linv [OF g2]]]]) auto
qed

lemma ff_from_proc_loop_good:
  "linv s \<Longrightarrow> proc_written s oid \<Longrightarrow> wlp (ff_from_proc_loop I oid tid ks deleted s) (\<lambda>n s1. good s s1)"
proof (induction ks arbitrary: deleted s)
  case (Cons k ks)
  obtain p where p: "find_proc s oid = Some p" using Cons.prems(2) by (auto simp: proc_written_def)
  note inv = Cons.prems(1)
  have oid: "proc_oid (p_proc p) = oid" using linv_proc [OF inv p] by (simp add: proc_ok_def)
  have cont: "wlp (ff_from_proc_loop I oid tid ks d s1) (\<lambda>n s2. good s s2)" if "good s s1" for d s1
    using good_wlp [OF that Cons.IH [OF good_linv [OF that] good_written [OF that Cons.prems(2)]]] .
  show ?case
  proof (cases "map_of (fileflows p) k")
    case None
    then show ?thesis using p cont [of s] inv by (simp add: deref_proc_def)
  next
    case (Some r)
    have own: "owns s oid False r" by (rule table_owns(2) [OF inv p Some])
    show ?thesis
    proof (cases "deref_file r s = None")
      case False
      then obtain n where n: "heap s r = Some (Fil n)" "deref_file r s = Some (n, s)" using deref_None_or(2) [of r s] by auto
      obtain g0 s0 where k0: "getFile_key I (filekey n) s = (g0, s0)" by fastforce
      have fs: "fstep s s0" using fstep_getFile_key(1) [of s I "filekey n"] k0 by simp
      have g0: "good s s0" by (rule fstep_good [OF fs inv])
      show ?thesis
      proof (cases "(tid = -1 \<or> tid = ff_tid (fileflow n)) \<and> g0 \<noteq> None")
        case False
        then show ?thesis using p Some n k0 cont [of s] inv by (auto simp: deref_proc_def split: option.splits)
      next
        case True
        then obtain F where F: "g0 = Some F" by auto
        obtain t s1 where t: "getSinspTime I s0 = (t, s1)" by fastforce
        define n1 where "n1 = n\<lparr>fileflow := (fileflow n)\<lparr>ff_endTs := t\<rparr>\<rparr>"
        define s2 where "s2 = put_flow r (Fil n1) s1"
        have fl: "file_oid (f_file F) \<in> logged_files (trace s0)" using getFile_key_written(1) [OF inv] k0 F by simp
        have "good s0 s1" by (rule clock_good(2) [OF good_linv [OF g0] t])
        with g0 have g1: "good s s1" by (rule good_trans)
        have h1: "heap s1 r = Some (Fil n)"
          using clock_frame [of I s0 t s1] t n(1) fs core_fields(7) [of s0 s] by (auto simp: fstep_def)
        have "good s1 s2" unfolding s2_def by (rule good_put_flow [OF good_linv [OF g1] h1]) (simp add: n1_def)
        with \<open>good s0 s1\<close> g1 have g2: "good s s2" "good s0 s2" by (blast intro: good_trans)+
        have rel: "wlp (if tid \<noteq> -1 then removeAndWriteRelatedFF I oid n1 t s2 else Some ((), s2)) (\<lambda>u s3. good s s3 \<and> good s2 s3)"
          using removeAndWriteRelatedFF_good [OF good_linv [OF g2(1)] good_written [OF g2(1) Cons.prems(2)], of I n1 t] g2(1)
          by (auto simp: wlp_def split: option.splits intro: good_trans)
        have fin: "wlp (Option.bind (deref_file r s3) (\<lambda>(n, s). let f1 = n\<lparr>fileflow := (fileflow n)
                 \<lparr>ff_opFlags := or (ff_opFlags (fileflow n)) (op_val OP_TRUNCATE)\<rparr>\<rparr> in
             Option.bind (upd_proc oid (\<lambda>p. p\<lparr>fileflows := AList.delete k (fileflows p)\<rparr>)
                (SHOULD_WRITE I f1 (Some (p_proc p)) (Some (f_file F)) (put_flow r (Fil f1) s)))
              (\<lambda>(u, s). Option.bind (removeFileFlowFromSet I r True s) (\<lambda>(m, s). ff_from_proc_loop I oid tid ks (deleted + m) (file_decr (filekey f1) s)))))
            (\<lambda>n s4. good s s4)" if g3: "good s s3 \<and> good s2 s3" for s3
        proof (cases "deref_file r s3 = None")
          case False
          then obtain n3 where n3: "heap s3 r = Some (Fil n3)" "deref_file r s3 = Some (n3, s3)" using deref_None_or(2) [of r s3] by auto
          define f1 where "f1 = n3\<lparr>fileflow := (fileflow n3)\<lparr>ff_opFlags := or (ff_opFlags (fileflow n3)) (op_val OP_TRUNCATE)\<rparr>\<rparr>"
          have g3': "good s s3" "good s0 s3" using g3 g2(2) by (auto intro: good_trans)
          have "ext s0 s3" using g3'(2) by (simp add: good_def)
          then have "wlp (Option.bind (upd_proc oid (\<lambda>p. p\<lparr>fileflows := AList.delete k (fileflows p)\<rparr>)
              (SHOULD_WRITE I f1 (Some (p_proc p)) (Some (f_file F)) (put_flow r (Fil f1) s3)))
              (\<lambda>(u, s). Option.bind (removeFileFlowFromSet I r True s) (\<lambda>(m, s). Some (m, file_decr (filekey f1) s)))) (\<lambda>n s1. good s3 s1)"
            by (intro end_fileflow_good [OF good_linv [OF g3'(1)] oid _ good_owns [OF g3'(1) own] n3(1)])
              (use good_logged [OF g3'(1)] linv_written [OF inv Cons.prems(2)] ext_logged(2) fl in \<open>auto simp: f1_def\<close>)
          then have "wlp (Option.bind (upd_proc oid (\<lambda>p. p\<lparr>fileflows := AList.delete k (fileflows p)\<rparr>)
              (SHOULD_WRITE I f1 (Some (p_proc p)) (Some (f_file F)) (put_flow r (Fil f1) s3)))
              (\<lambda>(u, s). Option.bind (removeFileFlowFromSet I r True s) (\<lambda>(m, s). Some (m, file_decr (filekey f1) s))))
              (\<lambda>m s4. wlp (ff_from_proc_loop I oid tid ks (deleted + m) s4) (\<lambda>n s5. good s s5))"
            by (rule wlp_conseq) (rule cont, rule good_trans [OF g3'(1)])
          then show ?thesis using n3(2) by (simp add: f1_def Let_def split_def)
        qed simp
        from wlp_conseq [OF rel fin] show ?thesis
          using p Some n True t k0 F by (cases "tid = -1") (simp_all add: deref_proc_def s2_def n1_def split_def)
      qed
    qed (use p Some in \<open>simp add: deref_proc_def\<close>)
  qed
qed simp

lemma removeAndWriteFFFromProc_good:
  assumes "linv s" and "proc_written s oid"
  shows "wlp (removeAndWriteFFFromProc I oid tid s) (\<lambda>n s1. good s s1)"
proof -
  obtain p where p: "find_proc s oid = Some p" using assms(2) by (auto simp: proc_written_def)
  have "wlp (ff_from_proc_loop I oid tid (tbl_keys (fileflows p)) 0 s) (\<lambda>n s1. wlp
      (if tid = -1 then upd_proc oid (\<lambda>p. p\<lparr>fileflows := []\<rparr>) s1 else Some ((), s1)) (\<lambda>u s2. good s s2))"
  proof (rule wlp_conseq [OF ff_from_proc_loop_good [OF assms]])
    fix n s1 assume g: "good s s1"
    show "wlp (if tid = -1 then upd_proc oid (\<lambda>p. p\<lparr>fileflows := []\<rparr>) s1 else Some ((), s1)) (\<lambda>u s2. good s s2)"
      using good_wlp [OF g wlp_good [OF erase_flow_good(4) [OF good_linv [OF g]]]] g by auto
  qed
  then show ?thesis using p by (cases "tid = -1") (simp_all add: removeAndWriteFFFromProc_def deref_proc_def split_def)
qed

end
