(* ===== verification/LogEvents.thy ===== *)
theory LogEvents
  imports LogFlows
begin

text \<open>
  The integrity of the output through the handlers of events: file events, data events, process
  events and process flows, Kubernetes events, the export of expired flows, and the dispatch.
\<close>

section \<open>File events\<close>

lemma deref_wlp [simp]:
  "wlp (deref_proc oid s) P = (\<forall>p. find_proc s oid = Some p \<longrightarrow> P p s)"
  "wlp (deref_fileobj k s) Q = (\<forall>f. find_file s k = Some f \<longrightarrow> Q f s)"
  by (auto simp: deref_proc_def deref_fileobj_def wlp_def split: option.splits)

lemma upd_wlp: "wlp (upd_proc oid f s) P = (\<forall>p. find_proc s oid = Some p \<longrightarrow> P () (put_proc oid (f p) s))"
  by (auto simp: upd_proc_def wlp_def split: option.splits)

lemma wlp_pure: "wlp (Option.bind m f) Q = (\<forall>x. m = Some x \<longrightarrow> wlp (f x) Q)"
  by (cases m) auto

lemma write_event_good:
  assumes "linv s" and "proc_written s oid" and "find_proc s oid = Some p"
    and "rec_oid r = Some oid" and "set (rec_files r) \<subseteq> logged_files (trace s)" and "\<And>f. f1 = Some f \<or> f2 = Some f \<Longrightarrow> file_oid f \<in> logged_files (trace s)"
  shows "good s (emit I (Write4 r (Some (p_proc p)) f1 f2) s)"
proof -
  have "proc_oid (p_proc p) = oid" using linv_proc [OF assms(1,3)] by (simp add: proc_ok_def)
  then have "covered (trace s) (Write4 r (Some (p_proc p)) f1 f2)"
    using linv_written [OF assms(1,2)] assms(4-) by auto
  then show ?thesis using fstep_good [OF fstep_emit assms(1)] by blast
qed

lemma writeLinkEvent_good: "linv s \<Longrightarrow> wlp (writeLinkEvent I ev flag s) (\<lambda>n s1. good s s1)"
proof -
  assume inv: "linv s"
  have "wlp (Option.bind (ev_tinfo ev) (\<lambda>ti. let (path1, path2) = link_paths I ev ti flag in
      case getFile I ev ti path1 (file_type_char SF_UNK) REUP s1 of ((k1, created1), s1) \<Rightarrow>
      (case getFile I ev ti path2 (file_type_char SF_UNK) CREATED s1 of ((k2, created2), s2) \<Rightarrow> do {
         (p, s2) \<leftarrow> deref_proc oid s2; (f1, s2) \<leftarrow> deref_fileobj k1 s2; (f2, s2) \<leftarrow> deref_fileobj k2 s2;
         (let fe = mk_file_event ev ti flag oid (file_oid (f_file f1)) (Some (file_oid (f_file f2))) in
          Some (0, writeFileEvent2 I fe (p_proc p) (f_file f1) (f_file f2) s2))}))) (\<lambda>n s2. good s1 s2 \<and> True)"
    if g: "good s s1" and w: "proc_written s1 oid" for oid s1
  proof (cases "ev_tinfo ev")
    case (Some ti)
    obtain p1 p2 where lp: "link_paths I ev ti flag = (p1, p2)" by fastforce
    obtain k1 b1 s2 where f1: "getFile I ev ti p1 (file_type_char SF_UNK) REUP s1 = ((k1, b1), s2)" by (metis surj_pair)
    obtain k2 b2 s3 where f2: "getFile I ev ti p2 (file_type_char SF_UNK) CREATED s2 = ((k2, b2), s3)" by (metis surj_pair)
    note g1 = getFile_good [OF good_linv [OF g] f1]
    note g2 = getFile_good [OF good_linv [OF g1(1)] f2]
    note inv3 = good_linv [OF g2(1)]
    have gg: "good s1 s3" using g1(1) g2(1) by (rule good_trans)
    have w3: "proc_written s3 oid" "file_written s3 k1" "file_written s3 k2"
      using good_written [OF gg w] good_file [OF g2(1) g1(2)] g2(2) by auto
    have "good s3 (writeFileEvent2 I (mk_file_event ev ti flag oid (file_oid (f_file a)) (Some (file_oid (f_file b)))) (p_proc p) (f_file a) (f_file b) s3)"
      if "find_proc s3 oid = Some p" "find_file s3 k1 = Some a" "find_file s3 k2 = Some b" for p a b
      unfolding writeFileEvent2_def by (rule write_event_good [OF inv3 w3(1) that(1)])
        (use file_logged [OF inv3 w3(2) that(2)] file_logged [OF inv3 w3(3) that(3)] in \<open>auto simp: mk_file_event_def\<close>)
    then show ?thesis using good_trans [OF gg] Some lp f1 f2
      by (simp add: Let_def)
  qed simp
  then have "wlp (writeLinkEvent I ev flag s) (\<lambda>n s2. good s s2 \<and> True)"
    unfolding writeLinkEvent_def by (intro good_bind [OF getProcess_good [OF inv]]) (auto split: prod.split)
  then show ?thesis by simp
qed


lemma writeFileEvent_good: "linv s \<Longrightarrow> wlp (writeFileEvent I ev flag s) (\<lambda>n s1. good s s1)"
proof -
  assume inv: "linv s"
  have main: "wlp (case getFile I ev ti path tc CREATED s1 of ((k, created1), s1) \<Rightarrow> do {
      (p, s1) \<leftarrow> deref_proc oid s1; (f, s1) \<leftarrow> deref_fileobj k s1;
      (let fe = mk_file_event ev ti flag oid (file_oid (f_file f)) None in
       Some (0, writeFileEvent1 I fe (p_proc p) (f_file f) s1))}) (\<lambda>n s2. good s1 s2)"
    if g: "good s s1" and w: "proc_written s1 oid" for oid s1 ti path tc
  proof -
    obtain k b s2 where f1: "getFile I ev ti path tc CREATED s1 = ((k, b), s2)" by (metis surj_pair)
    note g1 = getFile_good [OF good_linv [OF g] f1]
    note inv2 = good_linv [OF g1(1)]
    have "good s2 (writeFileEvent1 I (mk_file_event ev ti flag oid (file_oid (f_file a)) None) (p_proc p) (f_file a) s2)"
      if "find_proc s2 oid = Some p" "find_file s2 k = Some a" for p a
      unfolding writeFileEvent1_def by (rule write_event_good [OF inv2 good_written [OF g1(1) w] that(1)])
        (use file_logged [OF inv2 g1(2) that(2)] in \<open>auto simp: mk_file_event_def\<close>)
    then show ?thesis using good_trans [OF g1(1)] f1 by (simp add: Let_def)
  qed
  have "wlp (Option.bind (ev_tinfo ev) (\<lambda>ti. Option.bind (pt ti) (\<lambda>(path, tc). case getFile I ev ti path tc CREATED s1 of
      ((k, created1), s1) \<Rightarrow> do {
        (p, s1) \<leftarrow> deref_proc oid s1; (f, s1) \<leftarrow> deref_fileobj k s1;
        (let fe = mk_file_event ev ti flag oid (file_oid (f_file f)) None in
         Some (0, writeFileEvent1 I fe (p_proc p) (f_file f) s1))}))) (\<lambda>n s2. good s1 s2 \<and> True)"
    if "good s s1" and "proc_written s1 oid" for oid s1 pt
    using main [OF that] by (cases "ev_tinfo ev"; cases "pt (the (ev_tinfo ev))") (auto simp del: wlp_bind)
  then have "wlp (writeFileEvent I ev flag s) (\<lambda>n s2. good s s2 \<and> True)"
    unfolding writeFileEvent_def by (intro good_bind [OF getProcess_good [OF inv]]) (auto split: prod.split simp del: wlp_bind)
  then show ?thesis by simp
qed

lemma handleFileEvent_good: "linv s \<Longrightarrow> wlp (handleFileEvent I ev flag s) (\<lambda>n s1. good s s1)"
  by (auto simp: handleFileEvent_def writeFileEvent_good writeLinkEvent_good)

section \<open>Data events\<close>

lemma handleDataEvent_good: "linv s \<Longrightarrow> wlp (handleDataEvent I ev flag s) (\<lambda>n s1. good s s1)"
  by (auto simp: handleDataEvent_def handleFileEvent_good handleFileFlowEvent_good handleNetFlowEvent_good split: option.split)

lemma removeAndWriteDFFromProc_good:
  "linv s \<Longrightarrow> proc_written s oid \<Longrightarrow> wlp (removeAndWriteDFFromProc I oid tid s) (\<lambda>n s1. good s s1)"
  unfolding removeAndWriteDFFromProc_def
  by (rule good_bind0 [OF removeAndWriteFFFromProc_good])
    (auto intro: removeAndWriteNFFromProc_good good_written)

section \<open>Expired flows\<close>

text \<open>The fields of the state the invariant does not look at.\<close>

lemma good_view:
  assumes "trace s1 = trace s2" "m_writer s1 = m_writer s2" "m_containers s1 = m_containers s2" "m_files s1 = m_files s2"
    "m_procs s1 = m_procs s2" "heap s1 = heap s2" "nextref s1 = nextref s2"
  shows "good s s1 = good s s2" and "linv s1 = linv s2"
proof -
  have "owns s1 = owns s2" using assms by (simp add: owns_def fun_eq_iff)
  then show "linv s1 = linv s2"
    using assms by (simp add: linv_def log_ok_def conts_logged_def files_logged_def procs_logged_def proc_ok_def)
  then show "good s s1 = good s s2"
    using assms by (simp add: good_def ext_def proc_written_def file_written_def)
qed

lemma good_bookkeeping [simp]:
  "good s (s1\<lparr>df_lastCheck := x1\<rparr>) = good s s1" "good s (s1\<lparr>cf_lastCheck := x2\<rparr>) = good s s1"
  "good s (s1\<lparr>m_delProcTime := x3\<rparr>) = good s s1" "good s (s1\<lparr>m_uid := x4\<rparr>) = good s s1"
  "good s (s1\<lparr>m_k8sEvt := x5\<rparr>) = good s s1" "good s (s1\<lparr>m_statsTime := x6\<rparr>) = good s s1"
  "good s (s1\<lparr>m_exit := x7\<rparr>) = good s s1" "good s (s1\<lparr>timeStamp := x8\<rparr>) = good s s1"
  by (rule good_view(1); simp)+

lemma linv_bookkeeping [simp]:
  "linv (s1\<lparr>df_lastCheck := x1\<rparr>) = linv s1" "linv (s1\<lparr>cf_lastCheck := x2\<rparr>) = linv s1"
  "linv (s1\<lparr>m_delProcTime := x3\<rparr>) = linv s1" "linv (s1\<lparr>m_uid := x4\<rparr>) = linv s1"
  "linv (s1\<lparr>m_k8sEvt := x5\<rparr>) = linv s1" "linv (s1\<lparr>m_statsTime := x6\<rparr>) = linv s1"
  "linv (s1\<lparr>m_exit := x7\<rparr>) = linv s1" "linv (s1\<lparr>timeStamp := x8\<rparr>) = linv s1"
  by (rule good_view(2); simp)+

lemma removeFlow_good: "linv s \<Longrightarrow> wlp (removeFlow I r d s) (\<lambda>u s1. good s s1)"
  by (simp add: removeFlow_def removeNetworkFlow_good removeFileFlow_good)

lemma exportFlow_good: "linv s \<Longrightarrow> wlp (exportFlow I r d s) (\<lambda>u s1. good s s1)"
  by (simp add: exportFlow_def exportNetworkFlow_good exportFileFlow_good)

lemma same_owner_exportTime [simp]: "same_owner d (df_set_exportTime t d)"
  by (cases d) auto

lemma reinsertFlow_good:
  assumes "linv s"
  shows "wlp (reinsertFlow I i r s) (\<lambda>j s1. good s s1)"
proof -
  obtain t s1 where t: "getCurrentTime I (s\<lparr>m_dfSet := erase_at i (m_dfSet s)\<rparr>) = (t, s1)" by fastforce
  then have g: "good s s1" using clock_good(1) [of "s\<lparr>m_dfSet := erase_at i (m_dfSet s)\<rparr>"] assms by auto
  have "wlp (dfset_insert r (put_flow r (df_set_exportTime t d) s1)) (\<lambda>u s2. good s s2)" if "heap s1 r = Some d" for d
  proof -
    have "good s1 (put_flow r (df_set_exportTime t d) s1)" by (rule good_put_flow [OF good_linv [OF g] that]) simp
    with g have "good s (put_flow r (df_set_exportTime t d) s1)" by (rule good_trans)
    then show ?thesis using good_wlp dfset_insert_good good_linv by blast
  qed
  then show ?thesis using t by (cases "heap s1 r") (auto simp: reinsertFlow_def deref_def Let_def)
qed

lemmas expire_loop_induct [consumes 1, case_names step] = expire_loop.raw_induct [rotated]

lemma expire_loop_good:
  "expire_loop I now i n s = Some y \<Longrightarrow> linv s \<longrightarrow> good s (snd y)"
proof (induction rule: expire_loop_induct)
  case (step loop I now i n s y)
  note IH = step(1) and eq = step(2)
  show ?case
  proof
    assume inv: "linv s"
    have rec: "good s (snd y)" if "loop I now j m s2 = Some y" "good s s2" for j m s2
      using IH [OF that(1)] good_linv [OF that(2)] good_trans [OF that(2)] by blast
    show "good s (snd y)"
    proof (cases "i < length (m_dfSet s) \<and> heap s (m_dfSet s ! i) \<noteq> None")
      case False
      then show ?thesis using eq inv by (auto simp: Let_def split: if_splits)
    next
      case True
      then obtain d where d: "heap s (m_dfSet s ! i) = Some d" and i: "i < length (m_dfSet s)" by auto
      let ?r = "m_dfSet s ! i"
      have rm: "good s s1" if "removeFlow I ?r d s = Some (u, s1)" for u s1
        using wlpD [OF removeFlow_good [OF inv] that] .
      have ex: "good s s2" if "exportFlow I ?r d s = Some (u, s1)" "reinsertFlow I i ?r s1 = Some (j, s2)" for u s1 j s2
        using wlpD [OF exportFlow_good [OF inv] that(1)] wlpD [OF reinsertFlow_good that(2)] good_linv good_trans by blast
      show ?thesis
        using eq d i rm ex rec inv by (auto simp: Let_def split: if_splits option.splits prod.splits)
    qed
  qed
qed

lemma df_checkForExpiredRecords_good: "linv s \<Longrightarrow> wlp (df_checkForExpiredRecords I s) (\<lambda>n s1. good s s1)"
proof -
  assume inv: "linv s"
  obtain t s1 where t: "getCurrentTime I s = (t, s1)" by fastforce
  have g: "good s s1" by (rule clock_good(1) [OF inv t])
  have "wlp (expire_loop I t 0 0 (s1\<lparr>df_lastCheck := t\<rparr>)) (\<lambda>n s2. good s s2)"
    using expire_loop_good good_linv [OF g] good_trans [of s "s1\<lparr>df_lastCheck := t\<rparr>"] g by (fastforce intro!: wlpI)
  then show ?thesis using t g by (auto simp: df_checkForExpiredRecords_def)
qed

section \<open>Process events and process flows\<close>

lemma put_pfo_good:
  assumes "linv s" and "find_proc s oid = Some p" and "\<And>f. x = Some f \<Longrightarrow> pf_procOID (procflow f) = oid"
  shows "good s (put_proc oid (p\<lparr>pfo := x\<rparr>) s)"
proof (rule pstep_good [OF pstep_put assms(1)])
  show "proc_ok s oid (p\<lparr>pfo := x\<rparr>)" using linv_proc [OF assms(1,2)] assms(3) by (simp add: proc_ok_def)
  show "p_written (p\<lparr>pfo := x\<rparr>)" if "proc_written s oid" using that assms(2) by (simp add: proc_written_def)
qed simp

lemma upd_pfo_good:
  assumes "linv s" and "\<And>f. x = Some f \<Longrightarrow> pf_procOID (procflow f) = oid"
  shows "wlp (upd_proc oid (\<lambda>p. p\<lparr>pfo := x\<rparr>) s) (\<lambda>u s1. good s s1)"
  unfolding upd_wlp by (intro allI impI put_pfo_good [OF assms(1) _ assms(2)])

lemma pfset_insert_good: "linv s \<Longrightarrow> wlp (pfset_insert oid s) (\<lambda>u s1. good s s1)"
  by (simp add: pfset_insert_def)

lemma removeProcessFromSet_good: "linv s \<Longrightarrow> wlp (removeProcessFromSet oid s) (\<lambda>n s1. good s s1)"
proof -
  assume inv: "linv s"
  have "good s (put_proc oid (p\<lparr>pfo := None\<rparr>) (s\<lparr>m_pfSet := q\<rparr>))" if "find_proc s oid = Some p" for p q
    using put_pfo_good [of "s\<lparr>m_pfSet := q\<rparr>" oid p None] inv that by simp
  then show ?thesis by (auto simp: removeProcessFromSet_def split: option.split prod.split)
qed

lemma pf_oid_simps [simp]:
  "pf_procOID (pf_count flag ev pf) = pf_procOID pf" "pf_procOID (populateProcFlow flag ev oid) = oid"
  "pf_procOID (pf_reup t pf) = pf_procOID pf"
  by (simp_all add: pf_count_def Let_def populateProcFlow_def pf_reup_def)

lemma updateProcFlow_good:
  assumes "linv s" and "updateProcFlow I flag ev f s = (f1, s1)"
  shows "good s s1" and "pf_procOID (procflow f1) = pf_procOID (procflow f)"
  using assms clock_good(1) [OF assms(1)] by (auto simp: updateProcFlow_def split: prod.splits)

lemma processNewPF_good:
  assumes "linv s"
  shows "wlp (processNewPF I ev oid flag s) (\<lambda>u s1. good s s1)"
proof -
  obtain t1 s1 where t1: "getCurrentTime I s = (t1, s1)" by fastforce
  obtain t2 s2 where t2: "getCurrentTime I s1 = (t2, s2)" by fastforce
  obtain f s3 where u: "updateProcFlow I flag ev
      \<lparr>exportTime = t1, lastUpdate = t2, procflow = populateProcFlow flag ev oid\<rparr> s2 = (f, s3)" by fastforce
  have g1: "good s s1" by (rule clock_good(1) [OF assms t1])
  have g2: "good s1 s2" by (rule clock_good(1) [OF good_linv [OF g1] t2])
  note g3 = updateProcFlow_good [OF good_linv [OF g2] u]
  have g: "good s s3" using g1 g2 g3(1) by (meson good_trans)
  have oid: "pf_procOID (procflow f) = oid" using g3(2) by simp
  have "wlp (Option.bind (upd_proc oid (\<lambda>p. p\<lparr>pfo := Some f\<rparr>) s3) (\<lambda>(u, s4). pfset_insert oid s4)) (\<lambda>u s4. good s3 s4)"
    by (rule good_bind0 [OF upd_pfo_good [OF good_linv [OF g]]]) (use oid in \<open>auto intro: pfset_insert_good\<close>)
  from good_wlp [OF g this] show ?thesis using t1 t2 u by (simp add: processNewPF_def)
qed

lemma getProcess_then:
  assumes "linv s" and "\<And>oid b s1. good s s1 \<Longrightarrow> proc_written s1 oid \<Longrightarrow> wlp (f oid b s1) (\<lambda>r s2. good s1 s2)"
  shows "wlp (Option.bind (getProcess I ev st s) (\<lambda>((oid, b), s). f oid b s)) (\<lambda>r s2. good s s2)"
proof -
  have "wlp (Option.bind (getProcess I ev st s) (\<lambda>((oid, b), s). f oid b s)) (\<lambda>r s2. good s s2 \<and> True)"
    by (rule good_bind [OF getProcess_good [OF assms(1)]]) (use assms(2) in \<open>auto split: prod.split\<close>)
  then show ?thesis by simp
qed

lemma processFlow_good:
  assumes "linv s"
  shows "wlp (processFlow I ev flag s) (\<lambda>u s1. good s s1)"
proof -
  have "wlp (case pfo p of None \<Rightarrow> processNewPF I ev oid flag s1
      | Some f \<Rightarrow> (case updateProcFlow I flag ev f s1 of (f1, s2) \<Rightarrow> upd_proc oid (\<lambda>p. p\<lparr>pfo := Some f1\<rparr>) s2)) (\<lambda>u s2. good s1 s2)"
    if g: "good s s1" and p: "find_proc s1 oid = Some p" for oid s1 p
  proof (cases "pfo p")
    case (Some f)
    obtain f1 s2 where u: "updateProcFlow I flag ev f s1 = (f1, s2)" by fastforce
    note g2 = updateProcFlow_good [OF good_linv [OF g] u]
    have "pf_procOID (procflow f1) = oid" using linv_proc [OF good_linv [OF g] p] Some g2(2) by (simp add: proc_ok_def)
    then have "wlp (upd_proc oid (\<lambda>p. p\<lparr>pfo := Some f1\<rparr>) s2) (\<lambda>u s3. good s2 s3)"
      by (intro upd_pfo_good [OF good_linv [OF g2(1)]]) auto
    from good_wlp [OF g2(1) this] show ?thesis using Some u by simp
  qed (use processNewPF_good [OF good_linv [OF g]] in simp)
  then show ?thesis unfolding processFlow_def by (intro getProcess_then [OF assms]) auto
qed

lemma removeAndWriteProcessFlow_good:
  assumes "linv s" and "proc_written s oid"
  shows "wlp (removeAndWriteProcessFlow I oid s) (\<lambda>u s1. good s s1)"
proof -
  have "wlp (Option.bind (removeProcessFromSet oid (writeProcessFlow I (procflow f) (Some (p_proc p)) s))
      (\<lambda>(n, s). upd_proc oid (\<lambda>p. p\<lparr>pfo := None\<rparr>) s)) (\<lambda>u s1. good s s1)"
    if p: "find_proc s oid = Some p" and f: "pfo p = Some f" for p f
  proof -
    let ?s1 = "writeProcessFlow I (procflow f) (Some (p_proc p)) s"
    have "proc_oid (p_proc p) = oid" "pf_procOID (procflow f) = oid" using linv_proc [OF assms(1) p] f by (auto simp: proc_ok_def)
    then have g: "good s ?s1" by (intro write_flow_good(3) [OF assms(1)]) (use linv_written [OF assms] in auto)
    have "wlp (Option.bind (removeProcessFromSet oid ?s1) (\<lambda>(n, s). upd_proc oid (\<lambda>p. p\<lparr>pfo := None\<rparr>) s)) (\<lambda>u s2. good ?s1 s2)"
      by (rule good_bind0 [OF removeProcessFromSet_good [OF good_linv [OF g]]]) (auto intro: upd_pfo_good)
    then show ?thesis by (rule good_wlp [OF g])
  qed
  then show ?thesis by (auto simp: removeAndWriteProcessFlow_def deref_proc_def wlp_pure simp del: wlp_bind)
qed

lemma write_proc_event_good:
  assumes "linv s" and "proc_written s oid" and "find_proc s oid = Some p"
  shows "good s (writeProcessEvent I (mk_proc_event ev ti flag oid args) (p_proc p) s)"
  unfolding writeProcessEvent_def
  by (rule write_event_good [OF assms]) (auto simp: mk_proc_event_def)

lemma writeCloneEvent_good: "linv s \<Longrightarrow> wlp (writeCloneEvent I ev ti s) (\<lambda>u s1. good s s1)"
  unfolding writeCloneEvent_def by (rule getProcess_then) (auto intro: write_proc_event_good)

lemma updateProcess_oid [simp]: "proc_oid (updateProcess I ti ev st p) = proc_oid p"
  by (simp add: updateProcess_def Let_def)

lemma rewrite_process_good:
  assumes "linv s" and "proc_written s oid"
  shows "wlp (rewrite_process I ev ti oid created s) (\<lambda>u s1. good s s1 \<and> proc_written s1 oid)"
proof -
  have "good s (put_proc oid (p1\<lparr>p_written := True\<rparr>) (writeProcess I (p_proc p1) s))"
    if p: "find_proc s oid = Some p" and p1: "p1 = p\<lparr>p_proc := updateProcess I ti ev MODIFIED (p_proc p)\<rparr>" for p p1
  proof -
    let ?s1 = "writeProcess I (p_proc p1) s"
    have e: "fstep s ?s1" by (simp add: writeProcess_def fstep_emit)
    have ok: "proc_ok ?s1 oid (p1\<lparr>p_written := True\<rparr>)" if "linv ?s1"
      using linv_proc [OF assms(1) p] p1 by (auto simp: proc_ok_def writeProcess_def owns_def)
    show ?thesis by (rule pstep_good [OF pstep_put [OF fstep_pstep [OF e] ok] assms(1)]) auto
  qed
  then show ?thesis using assms by (auto simp: rewrite_process_def Let_def proc_written_def)
qed

lemma write_after_rewrite_good:
  assumes "linv s" and "proc_written s oid"
  shows "wlp (Option.bind (rewrite_process I ev ti oid created s) (\<lambda>(u, s). Option.bind (deref_proc oid s)
      (\<lambda>(p, s). Some ((), writeProcessEvent I (mk_proc_event ev ti flag oid (args s)) (p_proc p) s)))) (\<lambda>u s1. good s s1)"
proof -
  have "wlp (Option.bind (rewrite_process I ev ti oid created s) (\<lambda>(u, s). Option.bind (deref_proc oid s)
      (\<lambda>(p, s). Some ((), writeProcessEvent I (mk_proc_event ev ti flag oid (args s)) (p_proc p) s)))) (\<lambda>u s1. good s s1 \<and> True)"
    by (rule good_bind [OF rewrite_process_good [OF assms]]) (auto intro: write_proc_event_good)
  then show ?thesis by simp
qed

lemma writeSetUIDEvent_good: "linv s \<Longrightarrow> wlp (writeSetUIDEvent I ev ti s) (\<lambda>u s1. good s s1)"
  unfolding writeSetUIDEvent_def
  by (rule getProcess_then, assumption) (rule write_after_rewrite_good; simp)

lemma writeExecEvent_good: "linv s \<Longrightarrow> wlp (writeExecEvent I ev ti s) (\<lambda>u s1. good s s1)"
  unfolding writeExecEvent_def
  by (rule getProcess_then, assumption) (rule write_after_rewrite_good; simp)

lemma markForDeletion_good: "linv s \<Longrightarrow> good s (markForDeletion I oid s)"
  using clock_good(1) [of s I] by (auto simp: markForDeletion_def split: prod.split)

lemma writeExitEvent_good: "linv s \<Longrightarrow> wlp (writeExitEvent I ev ti s) (\<lambda>u s1. good s s1)"
  unfolding writeExitEvent_def
proof (rule getProcess_then, assumption)
  fix oid b s1
  assume g: "good s s1" and w: "proc_written s1 oid"
  have "good s2 (if ti_is_main ti then markForDeletion I oid s3 else s3)"
    if "good s1 s2" "find_proc s2 oid = Some p"
      "s3 = writeProcessEvent I (mk_proc_event ev ti OP_EXIT oid []) (p_proc p) s2" for s2 s3 p
  proof -
    have "good s2 s3" unfolding that(3) by (rule write_proc_event_good [OF good_linv [OF that(1)] good_written [OF that(1) w] that(2)])
    then show ?thesis using markForDeletion_good [OF good_linv] good_trans by auto
  qed
  then show "wlp (Option.bind (removeAndWriteDFFromProc I oid (if \<not> ti_is_main ti then ti_tid ti else -1) s1) (\<lambda>(n, s).
      Option.bind (deref_proc oid s) (\<lambda>(p, s). let s1 = writeProcessEvent I (mk_proc_event ev ti OP_EXIT oid []) (p_proc p) s
        in Some ((), if ti_is_main ti then markForDeletion I oid s1 else s1)))) (\<lambda>u s2. good s1 s2)"
    by (intro good_bind0 [OF removeAndWriteDFFromProc_good [OF good_linv [OF g] w]]) (auto simp: Let_def)
qed

lemma end_procflow_good:
  assumes "linv s" and "proc_written s oid" and "find_proc s oid = Some p" and "pfo p = Some f"
  shows "wlp (Option.bind (upd_proc oid (\<lambda>p. p\<lparr>pfo := Some (f\<lparr>procflow := (procflow f)\<lparr>pf_endTs := t\<rparr>\<rparr>)\<rparr>) s)
      (\<lambda>(u, s). removeAndWriteProcessFlow I oid s)) (\<lambda>u s1. good s s1)"
proof (rule good_bind0)
  have "pf_procOID (procflow f) = oid" using linv_proc [OF assms(1,3)] assms(4) by (simp add: proc_ok_def)
  then show "wlp (upd_proc oid (\<lambda>p. p\<lparr>pfo := Some (f\<lparr>procflow := (procflow f)\<lparr>pf_endTs := t\<rparr>\<rparr>)\<rparr>) s) (\<lambda>r s1. good s s1)"
    by (intro upd_pfo_good [OF assms(1)]) auto
qed (use removeAndWriteProcessFlow_good good_linv good_written assms(2) in auto)

lemma handleExit_good: "linv s \<Longrightarrow> wlp (handleExit I ev ti s) (\<lambda>u s1. good s s1)"
proof -
  assume inv: "linv s"
  have flow: "wlp (Option.bind (getProcess I ev REUP s1) (\<lambda>((oid, created), s). Option.bind (deref_proc oid s) (\<lambda>(p, s).
      (case pfo p of None \<Rightarrow> Some ((), s) | Some f \<Rightarrow> Option.bind
         (upd_proc oid (\<lambda>p. p\<lparr>pfo := Some (f\<lparr>procflow := (procflow f)\<lparr>pf_endTs := ev_ts ev\<rparr>\<rparr>)\<rparr>) s)
         (\<lambda>(u, s). removeAndWriteProcessFlow I oid s))))) (\<lambda>u s2. good s1 s2)" if inv1: "linv s1" for s1
  proof (rule getProcess_then [OF inv1])
    fix oid and b :: bool and s2
    assume g: "good s1 s2" and w: "proc_written s2 oid"
    show "wlp (Option.bind (deref_proc oid s2) (\<lambda>(p, s). (case pfo p of None \<Rightarrow> Some ((), s) | Some f \<Rightarrow> Option.bind
         (upd_proc oid (\<lambda>p. p\<lparr>pfo := Some (f\<lparr>procflow := (procflow f)\<lparr>pf_endTs := ev_ts ev\<rparr>\<rparr>)\<rparr>) s)
         (\<lambda>(u, s). removeAndWriteProcessFlow I oid s)))) (\<lambda>r s3. good s2 s3)"
      using end_procflow_good [OF good_linv [OF g] w] good_linv [OF g]
      by (auto simp: deref_proc_def wlp_pure simp del: wlp_bind split: option.split)
  qed
  have exit: "wlp (Option.bind m (\<lambda>(u, s). writeExitEvent I ev ti s)) (\<lambda>u s2. good s1 s2)"
    if "wlp (m :: (unit \<times> sf) option) (\<lambda>u s2. good s1 s2)" for m s1
    by (rule good_bind0 [OF that]) (auto intro: writeExitEvent_good)
  show ?thesis
    unfolding handleExit_def
  proof (rule good_bind0)
    show "wlp (if enableProcessFlow (config s) \<and> \<not> ti_is_main ti then processFlow I ev OP_EXIT s else Some ((), s)) (\<lambda>r s1. good s s1)"
      using inv processFlow_good by simp
  qed (use flow exit in \<open>auto simp del: wlp_bind\<close>)
qed

lemma handleClone_good: "linv s \<Longrightarrow> wlp (handleClone I ev ti s) (\<lambda>u s1. good s s1)"
  by (auto simp: handleClone_def Let_def writeCloneEvent_good processFlow_good split: option.split)

lemma handleProcEvent_good: "linv s \<Longrightarrow> wlp (handleProcEvent I ev flag s) (\<lambda>n s1. good s s1)"
  by (cases flag) (auto simp: handleProcEvent_def handleExit_good writeExecEvent_good writeSetUIDEvent_good handleClone_good
      split: option.split)

lemma exportProcessFlow_good:
  assumes "linv s" and "pf_procOID (procflow f) = oid"
  shows "wlp (exportProcessFlow I oid f s) (\<lambda>u s1. good s s1)"
proof -
  obtain t s1 where t: "getSinspTime I s = (t, s1)" by fastforce
  define pf where "pf = (procflow f)\<lparr>pf_endTs := t\<rparr>"
  obtain q s2 where e: "exportProcess I (pf_procOID pf) s1 = (q, s2)" by fastforce
  define s3 where "s3 = writeProcessFlow I pf (map_option p_proc q) s2"
  obtain t2 s4 where t2: "getSinspTime I s3 = (t2, s4)" by fastforce
  have g1: "good s s1" by (rule clock_good(2) [OF assms(1) t])
  from exportProcess_step [OF e] have ex: "pstep s1 s2" "\<And>p. q = Some p \<Longrightarrow> find_proc s2 (pf_procOID pf) = Some p \<and> p_written p" by auto
  have g2: "good s1 s2" by (rule pstep_good [OF ex(1) good_linv [OF g1]])
  have "proc_oid (p_proc p) = pf_procOID pf \<and> proc_oid (p_proc p) \<in> logged_procs (trace s2)" if "q = Some p" for p
    using linv_proc [OF good_linv [OF g2]] ex(2) [OF that] by (auto simp: proc_ok_def)
  then have g3: "good s2 s3" unfolding s3_def by (intro write_flow_good(3) [OF good_linv [OF g2]]) auto
  have g4: "good s s4"
    using clock_good(2) [OF good_linv [OF g3] t2] g1 g2 g3 by (meson good_trans)
  have "wlp (upd_proc oid (\<lambda>p. p\<lparr>pfo := Some (f\<lparr>procflow := pf_reup t2 pf\<rparr>)\<rparr>) s4) (\<lambda>u s5. good s4 s5)"
    by (rule upd_pfo_good [OF good_linv [OF g4]]) (use assms(2) in \<open>auto simp: pf_def\<close>)
  from good_wlp [OF g4 this] show ?thesis using t e t2 by (simp add: exportProcessFlow_def Let_def pf_def s3_def)
qed

lemma reinsertPF_good:
  assumes "linv s"
  shows "wlp (reinsertPF I i oid s) (\<lambda>j s1. good s s1)"
proof -
  obtain t s1 where t: "getCurrentTime I (s\<lparr>m_pfSet := erase_at i (m_pfSet s)\<rparr>) = (t, s1)" by fastforce
  then have g: "good s s1" using clock_good(1) [of "s\<lparr>m_pfSet := erase_at i (m_pfSet s)\<rparr>"] assms by auto
  have "wlp (pfset_insert oid (put_proc oid (p\<lparr>pfo := Some (f\<lparr>exportTime := t\<rparr>)\<rparr>) s1)) (\<lambda>u s2. good s s2)"
    if p: "find_proc s1 oid = Some p" "pfo p = Some f" for p f
  proof -
    have "pf_procOID (procflow f) = oid" using linv_proc [OF good_linv [OF g] p(1)] p(2) by (simp add: proc_ok_def)
    then have "good s1 (put_proc oid (p\<lparr>pfo := Some (f\<lparr>exportTime := t\<rparr>)\<rparr>) s1)"
      by (intro put_pfo_good [OF good_linv [OF g] p(1)]) auto
    with g have "good s (put_proc oid (p\<lparr>pfo := Some (f\<lparr>exportTime := t\<rparr>)\<rparr>) s1)" by (rule good_trans)
    then show ?thesis using good_wlp pfset_insert_good good_linv by blast
  qed
  then have "wlp (Option.bind (pfset_insert oid (put_proc oid (p\<lparr>pfo := Some (f\<lparr>exportTime := t\<rparr>)\<rparr>) s1))
      (\<lambda>(u, s3). Some (g s3, s3))) (\<lambda>u s2. good s s2)"
    if "find_proc s1 oid = Some p" "pfo p = Some f" for p f and g :: "sf \<Rightarrow> nat" using that by simp
  then show ?thesis using t by (auto simp: reinsertPF_def deref_proc_def Let_def wlp_pure simp del: wlp_bind)
qed

lemmas pf_expire_loop_induct [consumes 1, case_names step] = pf_expire_loop.raw_induct [rotated]

lemma pf_expire_loop_good:
  "pf_expire_loop I now i n s = Some y \<Longrightarrow> linv s \<longrightarrow> good s (snd y)"
proof (induction rule: pf_expire_loop_induct)
  case (step loop I now i n s y)
  note IH = step(1) and eq = step(2)
  show ?case
  proof
    assume inv: "linv s"
    have rec: "good s (snd y)" if "loop I now j m s2 = Some y" "good s s2" for j m s2
      using IH [OF that(1)] good_linv [OF that(2)] good_trans [OF that(2)] by blast
    let ?oid = "m_pfSet s ! i"
    show "good s (snd y)"
    proof (cases "i < length (m_pfSet s) \<and> (\<exists>p f. find_proc s ?oid = Some p \<and> pfo p = Some f)")
      case False
      then show ?thesis using eq inv by (auto simp: Let_def split: if_splits option.splits)
    next
      case True
      then obtain p f where p: "find_proc s ?oid = Some p" "pfo p = Some f" and i: "i < length (m_pfSet s)" by auto
      have oid: "pf_procOID (procflow f) = ?oid" using linv_proc [OF inv p(1)] p(2) by (simp add: proc_ok_def)
      have rm: "good s (put_proc ?oid (p\<lparr>pfo := None\<rparr>) s)" by (rule put_pfo_good [OF inv p(1)]) simp
      have ex: "good s s2" if "exportProcessFlow I ?oid f s = Some (u, s1)" "reinsertPF I i ?oid s1 = Some (j, s2)" for u s1 j s2
        using wlpD [OF exportProcessFlow_good [OF inv oid] that(1)] wlpD [OF reinsertPF_good that(2)] good_linv good_trans by blast
      show ?thesis
        using eq p i rm ex rec inv by (auto simp: Let_def split: if_splits option.splits prod.splits)
    qed
  qed
qed

lemma cf_checkForExpiredRecords_good: "linv s \<Longrightarrow> wlp (cf_checkForExpiredRecords I s) (\<lambda>n s1. good s s1)"
proof -
  assume inv: "linv s"
  obtain t s1 where t: "getCurrentTime I s = (t, s1)" by fastforce
  have g: "good s s1" by (rule clock_good(1) [OF inv t])
  have "wlp (pf_expire_loop I t 0 0 (s1\<lparr>cf_lastCheck := t\<rparr>)) (\<lambda>n s2. good s s2)"
    using pf_expire_loop_good good_linv [OF g] good_trans [of s "s1\<lparr>cf_lastCheck := t\<rparr>"] g by (fastforce intro!: wlpI)
  then show ?thesis using t g by (auto simp: cf_checkForExpiredRecords_def)
qed

section \<open>Kubernetes events and the dispatch\<close>

lemma updateCompState_same: "updateCompState I a k root s = Some (u, s1) \<Longrightarrow> s1 = s"
proof -
  have "updateCompState_loop I k js s = Some (u, s1) \<Longrightarrow> s1 = s" for js s u s1
    by (induction js arbitrary: s) (auto simp: updateAndWritePodState_def split: option.splits if_splits bind_splits)
  then show "updateCompState I a k root s = Some (u, s1) \<Longrightarrow> s1 = s"
    by (auto simp: updateCompState_def split: option.splits if_splits bind_splits)
qed

lemma handleK8sEvent_good: "linv s \<Longrightarrow> wlp (handleK8sEvent I ev s) (\<lambda>n s1. good s s1)"
proof -
  assume inv: "linv s"
  have w: "good s (writeK8sEvent I k (s\<lparr>m_k8sEvt := k1\<rparr>))" for k k1
    using fstep_good [OF fstep_emit, of "s\<lparr>m_k8sEvt := k1\<rparr>" "Write1 (R_K8sEvent k)" I] inv
      good_trans [of s "s\<lparr>m_k8sEvt := k1\<rparr>"] by (simp add: writeK8sEvent_def)
  show ?thesis
    by (auto simp: handleK8sEvent_def Let_def w split: option.split list.split intro!: wlpI dest!: updateCompState_same)
qed

lemma dispatch_good: "linv s \<Longrightarrow> wlp (dispatch I ev s) (\<lambda>u s1. good s s1)"
proof -
  assume inv: "linv s"
  have m: "wlp (map_option (\<lambda>(n, s). ((), s)) x) (\<lambda>u s1. good s s1)" if "wlp x (\<lambda>n s1. good s s1)" for x :: "(int \<times> sf) option"
    using that by (cases x) auto
  show ?thesis using inv
    by (auto simp: dispatch_def setUID_def m handleProcEvent_good handleDataEvent_good handleK8sEvent_good split: evt_class.split)
qed

lemma handle_event_good: "linv s \<Longrightarrow> wlp (handle_event I ev s) (\<lambda>u s1. good s s1)"
  by (auto simp: handle_event_def dispatch_good split: option.split)

end
