(* ===== verification/LogRun.thy ===== *)
theory LogRun
  imports LogEvents
begin

text \<open>
  The integrity of the output through the deletion of processes, the rotation with its purge of the
  tables, the event loop, and the flush of the pending flows at the end.
\<close>

section \<open>Deletion of processes\<close>

lemma wlp_good_linv: "wlp m (\<lambda>r s1. good s s1) \<Longrightarrow> wlp m (\<lambda>r s1. linv s1)"
  by (erule wlp_conseq) simp

lemma linv_delete: "linv s \<Longrightarrow> linv (s\<lparr>m_procs := AList.delete oid (m_procs s)\<rparr>)"
  by (auto simp: linv_def procs_logged_def conts_logged_def files_logged_def proc_ok_def owns_def split: if_splits)

text \<open>What the operations outside a rotation do to the log: they only add to it.\<close>

definition grows :: "sf \<Rightarrow> sf \<Rightarrow> bool" where
  "grows s s1 = (linv s1 \<and> ext s s1)"

lemma grows_refl [simp]: "linv s \<Longrightarrow> grows s s"
  by (simp add: grows_def)

lemma grows_trans: "grows s s1 \<Longrightarrow> grows s1 s2 \<Longrightarrow> grows s s2"
  by (auto simp: grows_def intro: ext_trans)

lemma good_grows: "good s s1 \<Longrightarrow> grows s s1"
  by (simp add: grows_def good_def)

lemma wlp_grows: "grows s s1 \<Longrightarrow> wlp m (\<lambda>r s2. grows s1 s2) \<Longrightarrow> wlp m (\<lambda>r s2. grows s s2)"
  by (erule wlp_conseq) (rule grows_trans)

lemma clock_grows: "linv s \<Longrightarrow> getCurrentTime I s = (t, s1) \<Longrightarrow> grows s s1"
  by (rule good_grows, rule clock_good(1))

lemma deleteProcess_grows: "linv s \<Longrightarrow> wlp (deleteProcess oid s) (\<lambda>u s1. grows s s1)"
proof -
  assume inv: "linv s"
  show ?thesis
  proof (cases "find_proc s oid")
    case (Some p)
    define s1 where "s1 = (case proc_poid (p_proc p) of None \<Rightarrow> s | Some key \<Rightarrow>
        (case find_proc s key of None \<Rightarrow> s | Some q \<Rightarrow> put_proc key (erase_child oid q) s))"
    define s2 where "s2 = (case proc_containerId (p_proc p) of None \<Rightarrow> s1 | Some c \<Rightarrow> snd (derefContainer c s1))"
    have "pstep s s1" by (auto simp: s1_def split: option.split intro: pstep_put_same)
    moreover have "fstep s1 s2" by (auto simp: s2_def split: option.split intro: cstep_fstep cstep_counts)
    ultimately have "pstep s s2" using fstep_pstep pstep_trans by blast
    from pstep_good [OF this inv] have g2: "grows s s2" and inv2: "linv s2" by (auto intro: good_grows)
    have d: "grows s (s3\<lparr>m_procs := AList.delete oid (m_procs s3)\<rparr>)" if "grows s2 s3" for s3
      using grows_trans [OF g2 that] by (simp add: grows_def linv_delete)
    have "wlp (removeProcessFromSet oid s2) (\<lambda>n s3. grows s (s3\<lparr>m_procs := AList.delete oid (m_procs s3)\<rparr>))"
      by (rule wlp_conseq [OF removeProcessFromSet_good [OF inv2]]) (rule d [OF good_grows])
    then show ?thesis using Some d [of s2] inv2 by (simp add: deleteProcess_def Let_def flip: s1_def s2_def)
  qed (simp add: deleteProcess_def)
qed

lemma del_loop_grows: "linv s \<Longrightarrow> wlp (del_loop t i s) (\<lambda>u s1. grows s s1)"
proof (induction t i s rule: del_loop.induct)
  case (1 t i s)
  show ?case
  proof (cases "i < length (m_delProcQue s) \<and> difftime t (o_exportTime (m_delProcQue s ! i)) \<ge> PROC_DEL_EXPIRED")
    case True
    let ?e = "m_delProcQue s ! i"
    have d: "wlp (case find_proc s (o_oid ?e) of None \<Rightarrow> Some ((), s) | Some p \<Rightarrow> deleteProcess (o_oid ?e) s) (\<lambda>u s1. grows s s1)"
      using "1.prems" deleteProcess_grows by (simp split: option.split)
    let ?q = "take i (m_delProcQue s) @ drop (Suc i) (m_delProcQue s)"
    have "wlp (del_loop t (erase_next i (length ?q)) (s1\<lparr>m_delProcQue := ?q\<rparr>)) (\<lambda>u s2. grows s s2)"
      if eq: "(case find_proc s (o_oid ?e) of None \<Rightarrow> Some ((), s) | Some p \<Rightarrow> deleteProcess (o_oid ?e) s) = Some (u, s1)" for u s1
    proof (rule wlp_grows)
      show g: "grows s (s1\<lparr>m_delProcQue := ?q\<rparr>)" using wlpD [OF d eq] by (simp add: grows_def)
      show "wlp (del_loop t (erase_next i (length ?q)) (s1\<lparr>m_delProcQue := ?q\<rparr>)) (\<lambda>u s2. grows (s1\<lparr>m_delProcQue := ?q\<rparr>) s2)"
        using "1.IH" [OF _ refl _ eq refl refl] True g by (simp add: grows_def)
    qed
    then show ?thesis using True by (subst del_loop.simps) (auto simp: Let_def intro!: wlpI)
  next
    case False
    then show ?thesis using "1.prems" by (subst del_loop.simps) auto
  qed
qed

lemma checkForDeletion_grows: "linv s \<Longrightarrow> wlp (checkForDeletion I s) (\<lambda>u s1. grows s s1)"
proof -
  assume inv: "linv s"
  obtain t s1 where t: "getCurrentTime I s = (t, s1)" by fastforce
  have g1: "grows s s1" and inv1: "linv s1" using clock_grows [OF inv t] by (auto simp: grows_def)
  have "wlp (case getCurrentTime I s2 of (t, s3) \<Rightarrow> Some ((), s3\<lparr>m_delProcTime := t\<rparr>)) (\<lambda>u s3. grows s s3)" if "grows s1 s2" for s2
  proof -
    obtain t2 s3 where t2: "getCurrentTime I s2 = (t2, s3)" by fastforce
    have "grows s s3" using grows_trans [OF grows_trans [OF g1 that] clock_grows [OF _ t2]] that by (simp add: grows_def)
    then show ?thesis using t2 by (simp add: grows_def ext_def)
  qed
  then have "wlp (del_loop t 0 s1) (\<lambda>u s2. wlp (case getCurrentTime I s2 of (t, s3) \<Rightarrow> Some ((), s3\<lparr>m_delProcTime := t\<rparr>)) (\<lambda>u s3. grows s s3))"
    by (intro wlp_conseq [OF del_loop_grows [OF inv1]])
  then show ?thesis using t g1 by (simp add: checkForDeletion_def)
qed

section \<open>Rotation\<close>

text \<open>
  Between the reset of the writer and the end of the purge, the marks of the tables are those of the
  previous output. What the purge of the processes does meanwhile: it drops processes or takes their
  mark away, and leaves the flows.
\<close>

definition keeps_flows :: "ProcessObj \<Rightarrow> ProcessObj \<Rightarrow> bool" where
  "keeps_flows p1 p = (netflows p1 = netflows p \<and> fileflows p1 = fileflows p \<and> pfo p1 = pfo p \<and>
     proc_oid (p_proc p1) = proc_oid (p_proc p) \<and> (p_written p1 \<longrightarrow> p_written p))"

definition purge :: "sf \<Rightarrow> sf \<Rightarrow> bool" where
  "purge s s1 = (pcore s1 = pcore s \<and> trace s1 = trace s \<and> m_writer s1 = m_writer s \<and> m_files s1 = m_files s \<and>
     (tbl_ok (m_procs s) \<longrightarrow> tbl_ok (m_procs s1)) \<and>
     (\<forall>oid p1. find_proc s1 oid = Some p1 \<longrightarrow> (\<exists>p. find_proc s oid = Some p \<and> keeps_flows p1 p)))"

definition unmarked :: "sf \<Rightarrow> OID set \<Rightarrow> bool" where
  "unmarked s K = (\<forall>oid \<in> K. \<forall>p. find_proc s oid = Some p \<longrightarrow> \<not> p_written p)"

lemma purge_refl [simp]: "purge s s"
  by (auto simp: purge_def keeps_flows_def)

lemma purge_trans: "purge s s1 \<Longrightarrow> purge s1 s2 \<Longrightarrow> purge s s2"
proof -
  assume p: "purge s s1" "purge s1 s2"
  have "keeps_flows p2 p" if "keeps_flows p2 p1" "keeps_flows p1 p" for p p1 p2
    using that by (simp add: keeps_flows_def)
  moreover have "\<exists>p1. find_proc s1 oid = Some p1 \<and> keeps_flows p2 p1" if "find_proc s2 oid = Some p2" for oid p2
    using p(2) that by (simp add: purge_def)
  moreover have "\<exists>p0. find_proc s oid = Some p0 \<and> keeps_flows p1 p0" if "find_proc s1 oid = Some p1" for oid p1
    using p(1) that by (simp add: purge_def)
  ultimately have "\<exists>p0. find_proc s oid = Some p0 \<and> keeps_flows p2 p0" if "find_proc s2 oid = Some p2" for oid p2
    using that by meson
  then show ?thesis using p by (simp add: purge_def)
qed

lemma purge_unmarked: "purge s s1 \<Longrightarrow> unmarked s K \<Longrightarrow> unmarked s1 K"
  by (fastforce simp: purge_def unmarked_def keeps_flows_def)

lemma purge_put: "find_proc s oid = Some p \<Longrightarrow> keeps_flows p1 p \<Longrightarrow> purge s (put_proc oid p1 s)"
  by (auto simp: purge_def keeps_flows_def)

lemma keeps_flows_simps [simp]: "keeps_flows (erase_child o1 p) p" "keeps_flows (p\<lparr>p_written := False\<rparr>) p"
  by (auto simp: keeps_flows_def erase_child_def)

lemma derefContainer_frame:
  "m_procs (snd (derefContainer c s)) = m_procs s" "core (snd (derefContainer c s)) = core s"
  "trace (snd (derefContainer c s)) = trace s" "m_writer (snd (derefContainer c s)) = m_writer s"
  "m_files (snd (derefContainer c s)) = m_files s"
  by (auto simp: derefContainer_def Let_def split: option.split)

lemma drop_proc_purge: "purge s (drop_proc oid p s)" "find_proc (drop_proc oid p s) oid = None"
  by (auto simp: drop_proc_def Let_def purge_def keeps_flows_def pcore_def core_procs derefContainer_frame
      split: option.split if_splits)

lemmas unlink_loop_induct [consumes 1, case_names step] = unlink_loop.raw_induct [rotated]

lemma unlink_loop_purge: "unlink_loop cur poid s = Some y \<Longrightarrow> purge s (snd y)"
proof (induction rule: unlink_loop_induct)
  case (step loop cur poid s y)
  note IH = step(1) and eq = step(2)
  show ?case
  proof (cases "\<exists>key q. poid = Some key \<and> find_proc s key = Some q")
    case False
    then show ?thesis using eq by (auto split: option.splits)
  next
    case True
    then obtain key q where k: "poid = Some key" "find_proc s key = Some q" by blast
    have p: "purge s (put_proc key (erase_child cur q) s)" by (rule purge_put [OF k(2)]) simp
    show ?thesis using eq k IH purge_trans [OF p] p by (auto simp: Let_def split: if_splits)
  qed
qed

lemma clearProcesses_loop1_purge:
  "clearProcesses_loop1 oids s = Some (u, s1) \<Longrightarrow> purge s s1 \<and> unmarked s1 (set oids)"
proof (induction oids arbitrary: s)
  case (Cons oid oids)
  have step: ?case if "clearProcesses_loop1 oids s2 = Some (u, s1)" "purge s s2" "unmarked s2 {oid}" for s2
    using Cons.IH [OF that(1)] purge_trans [OF that(2)] purge_unmarked [OF _ that(3)] by (auto simp: unmarked_def)
  show ?case
  proof (cases "find_proc s oid")
    case None
    then show ?thesis using Cons.prems step [of s] by (simp add: unmarked_def)
  next
    case (Some p)
    show ?thesis
    proof (cases "proc_idle p")
      case True
      obtain u2 s2 where ul: "unlink_loop oid (proc_poid (p_proc p)) s = Some (u2, s2)"
        and rest: "clearProcesses_loop1 oids (drop_proc oid p s2) = Some (u, s1)"
        using Cons.prems Some True by (auto split: bind_splits)
      have "purge s (drop_proc oid p s2)" using unlink_loop_purge [OF ul] drop_proc_purge(1) by (auto intro: purge_trans)
      then show ?thesis by (rule step [OF rest]) (simp add: unmarked_def drop_proc_purge(2))
    next
      case False
      have "purge s (put_proc oid (p\<lparr>p_written := False\<rparr>) s)" by (rule purge_put [OF Some]) simp
      then show ?thesis using Cons.prems Some False by (intro step) (auto simp: unmarked_def)
    qed
  qed
qed (simp add: unmarked_def)

lemma clearProcesses_loop2_purge: "purge s (clearProcesses_loop2 oids s)"
proof (induction oids arbitrary: s)
  case (Cons oid oids)
  then show ?case by (auto split: option.split intro: purge_trans [OF drop_proc_purge(1)])
qed simp

lemma clearProcesses_purge: "clearProcesses s = Some (u, s1) \<Longrightarrow> purge s s1 \<and> unmarked s1 UNIV"
proof -
  assume "clearProcesses s = Some (u, s1)"
  then obtain s2 where l1: "clearProcesses_loop1 (tbl_keys (m_procs s)) s = Some ((), s2)"
    and s1: "s1 = clearProcesses_loop2 (tbl_keys (m_procs s2)) s2"
    by (auto simp: clearProcesses_def split: bind_splits)
  from clearProcesses_loop1_purge [OF l1] have p: "purge s s2" "unmarked s2 (dom (find_proc s))" by auto
  have "unmarked s2 UNIV" using p by (fastforce simp: unmarked_def purge_def)
  then show ?thesis using p(1) s1 clearProcesses_loop2_purge purge_trans purge_unmarked by blast
qed

definition conts_unmarked :: "sf \<Rightarrow> string set \<Rightarrow> bool" where
  "conts_unmarked s K = (\<forall>cid \<in> K. \<forall>c. find_cont s cid = Some c \<longrightarrow> \<not> c_written c)"

lemma derefPod_frame:
  "core (snd (derefPod p s)) = core s" "trace (snd (derefPod p s)) = trace s" "m_writer (snd (derefPod p s)) = m_writer s"
  "m_files (snd (derefPod p s)) = m_files s" "m_containers (snd (derefPod p s)) = m_containers s"
  by (auto simp: derefPod_def Let_def split: option.split)

lemma clearContainers_loop_unmarks:
  assumes "conts_unmarked s K" and "s1 = clearContainers_loop ids s"
  shows "core s1 = core s \<and> trace s1 = trace s \<and> m_writer s1 = m_writer s \<and> m_files s1 = m_files s \<and>
    dom (find_cont s1) \<subseteq> dom (find_cont s) \<and> conts_unmarked s1 (K \<union> set ids)"
  using assms
proof (induction ids arbitrary: s K)
  case (Cons cid ids)
  have step: ?case if s2: "s1 = clearContainers_loop ids s2" and "conts_unmarked s2 (insert cid K)"
    and "core s2 = core s \<and> trace s2 = trace s \<and> m_writer s2 = m_writer s \<and> m_files s2 = m_files s"
    and "dom (find_cont s2) \<subseteq> dom (find_cont s)" for s2
    using Cons.IH [OF that(2,1)] that(3) subset_trans [OF _ that(4), of "dom (find_cont s1)"] by simp
  show ?case
  proof (cases "find_cont s cid")
    case None
    then show ?thesis using Cons.prems by (intro step [of s]) (auto simp: conts_unmarked_def)
  next
    case (Some c)
    show ?thesis
    proof (cases "c_refs c = 0")
      case True
      define s2 where "s2 = (if m_k8sEnabled (m_cxt s)
        then (case cont_podId (c_cont c) of None \<Rightarrow> s | Some p \<Rightarrow> snd (derefPod p s)) else s)"
      have "core s2 = core s \<and> trace s2 = trace s \<and> m_writer s2 = m_writer s \<and> m_files s2 = m_files s \<and> m_containers s2 = m_containers s"
        by (auto simp: s2_def derefPod_frame split: option.split)
      then show ?thesis using Cons.prems Some True
        by (intro step [of "s2\<lparr>m_containers := AList.delete cid (m_containers s2)\<rparr>"])
          (auto simp: conts_unmarked_def Let_def simp flip: s2_def)
    next
      case False
      then show ?thesis using Cons.prems Some
        by (intro step [of "s\<lparr>m_containers := AList.update cid (c\<lparr>c_written := False\<rparr>) (m_containers s)\<rparr>"])
          (auto simp: conts_unmarked_def)
    qed
  qed
qed simp

lemma clearContainers_unmarks:
  "core (clearContainers s) = core s" "trace (clearContainers s) = trace s" "m_writer (clearContainers s) = m_writer s"
  "m_files (clearContainers s) = m_files s" "conts_unmarked (clearContainers s) UNIV"
  using clearContainers_loop_unmarks [of s "{}" _ "tbl_keys (m_containers s)"]
  by (auto simp: clearContainers_def conts_unmarked_def dom_def)

lemma clearFiles_unmarks: "find_file (clearFiles s) k = Some f \<Longrightarrow> \<not> f_written f"
proof -
  have "map_of (clearFiles_loop t) k = Some f \<Longrightarrow> \<not> f_written f" for t
    by (induction t rule: clearFiles_loop.induct) (auto split: if_splits)
  then show "find_file (clearFiles s) k = Some f \<Longrightarrow> \<not> f_written f" by (simp add: clearFiles_def)
qed

lemma clearTables_result:
  assumes "clearTables s = Some (u, s1)"
  shows "trace s1 = trace s" "m_writer s1 = m_writer s" "heap s1 = heap s" "nextref s1 = nextref s"
    "unmarked s1 UNIV" "conts_unmarked s1 UNIV" "\<And>k f. find_file s1 k = Some f \<Longrightarrow> \<not> f_written f"
    "\<And>oid p1. find_proc s1 oid = Some p1 \<Longrightarrow> \<exists>p. find_proc s oid = Some p \<and> keeps_flows p1 p"
    "tbl_ok (m_procs s) \<Longrightarrow> tbl_ok (m_procs s1)"
proof -
  obtain s2 where c: "clearProcesses s = Some ((), s2)"
    and s1: "s1 = clearFiles (if m_k8sEnabled (m_cxt (clearContainers s2)) then clearPods (clearContainers s2) else clearContainers s2)"
    using assms by (auto simp: clearTables_def Let_def split: bind_splits)
  note p = clearProcesses_purge [OF c]
  have "core s1 = core s2" "trace s1 = trace s2" "m_writer s1 = m_writer s2" "m_containers s1 = m_containers (clearContainers s2)"
    by (simp_all add: s1 clearFiles_def clearPods_def clearContainers_unmarks)
  note f = this core_fields [OF this(1)]
  show "trace s1 = trace s" "m_writer s1 = m_writer s" using p f by (simp_all add: purge_def)
  show "heap s1 = heap s" "nextref s1 = nextref s" using p f pcore_fields [of s2 s] by (simp_all add: purge_def)
  show "unmarked s1 UNIV" using p f by (simp add: unmarked_def)
  show "conts_unmarked s1 UNIV" using clearContainers_unmarks(5) [of s2] f by (simp add: conts_unmarked_def)
  show "\<And>k f. find_file s1 k = Some f \<Longrightarrow> \<not> f_written f" unfolding s1 by (rule clearFiles_unmarks)
  show "\<And>oid p1. find_proc s1 oid = Some p1 \<Longrightarrow> \<exists>p. find_proc s oid = Some p \<and> keeps_flows p1 p"
    using p f by (simp add: purge_def)
  show "tbl_ok (m_procs s) \<Longrightarrow> tbl_ok (m_procs s1)" using p f by (simp add: purge_def)
qed

lemma rotate_linv:
  assumes "linv s" and "writer_reset I t s = Some (u, s1)" and "clearTables s1 = Some (v, s2)"
  shows "linv s2"
proof -
  obtain ex w n h b where r: "w_reset I t ex (set_exporter ex s) (m_writer s) = (w, n, h)"
    and s1: "s1 = (set_exporter ex s)\<lparr>m_writer := w, reads := n, trace := [Write1 (R_SFHeader h)], m_exit := b\<rparr>"
    using wlpD [OF writer_reset_wlp assms(2)] by blast
  note c = clearTables_result [OF assms(3)]
  have ok: "log_ok s" using assms(1) by (simp add: linv_def)
  have "log_ok s2" using w_sync_reset [OF r] log_ok_reset [OF ok r]
    by (simp add: log_ok_def c(1,2) s1 well_logged_def starts_header_def)
  moreover have "conts_logged s2" using c(6) by (auto simp: conts_logged_def conts_unmarked_def)
  moreover have "files_logged s2" using c(7) by (auto simp: files_logged_def)
  moreover have "proc_ok s2 oid p1" if fp: "find_proc s2 oid = Some p1" for oid p1
  proof -
    obtain p where p: "find_proc s1 oid = Some p" "keeps_flows p1 p" using c(8) [OF fp] by blast
    have "proc_ok s oid p" using p(1) linv_proc [OF assms(1)] by (simp add: s1 set_exporter_def)
    moreover have "\<not> p_written p1" using c(5) fp by (simp add: unmarked_def)
    ultimately show ?thesis using p(2)
      by (simp add: proc_ok_def keeps_flows_def owns_def c(3,4) s1 set_exporter_def)
  qed
  moreover have "tbl_ok (m_procs s2)" using assms(1) c(9) by (simp add: linv_def s1 set_exporter_def)
  ultimately show ?thesis by (simp add: linv_def procs_logged_def)
qed

lemma checkAndRotateFile_linv: "linv s \<Longrightarrow> wlp (checkAndRotateFile I s) (\<lambda>b s1. linv s1)"
proof -
  assume inv: "linv s"
  obtain t s1 where t: "getCurrentTime I s = (t, s1)" by fastforce
  have inv1: "linv s1" using clock_good(1) [OF inv t] by (rule good_linv)
  have "wlp (writer_reset I t s1) (\<lambda>u s2. wlp (clearTables s2) (\<lambda>v s3. linv s3))"
    using rotate_linv [OF inv1] by (auto intro!: wlpI)
  then have "wlp (writer_reset I t s1) (\<lambda>u s2. wlp (clearTables s2) (\<lambda>v s3.
      linv (if m_statsTime s3 > 0 \<and> difftime t (m_statsTime s3) \<ge> m_statsInterval (m_cxt s3) then s3\<lparr>m_statsTime := t\<rparr> else s3)))"
    by (auto elim!: wlp_conseq)
  then show ?thesis using t inv1 by (simp add: checkAndRotateFile_def)
qed

section \<open>The event loop\<close>

lemma housekeeping_linv: "linv s \<Longrightarrow> wlp (housekeeping I s) (\<lambda>u s1. linv s1)"
proof -
  assume inv: "linv s"
  have "wlp (df_checkForExpiredRecords I s) (\<lambda>n s1. wlp (cf_checkForExpiredRecords I s1) (\<lambda>m s2.
      wlp (checkForDeletion I s2) (\<lambda>u s3. wlp (checkAndRotateFile I s3) (\<lambda>b s4. linv s4))))"
    by (rule wlp_conseq [OF wlp_good_linv [OF df_checkForExpiredRecords_good [OF inv]]],
        rule wlp_conseq [OF wlp_good_linv [OF cf_checkForExpiredRecords_good]], assumption,
        rule wlp_conseq [OF checkForDeletion_grows], assumption, rule checkAndRotateFile_linv, simp add: grows_def)
  then show ?thesis by (simp add: housekeeping_def checkForExpiredRecords_def)
qed

lemma step_linv: "linv s \<Longrightarrow> wlp (step I res s) (\<lambda>c s1. linv s1)"
proof -
  assume inv: "linv s"
  have h: "wlp (housekeeping I s1) (\<lambda>u s2. linv s2)" if "linv s1" for s1 by (rule housekeeping_linv [OF that])
  have e: "wlp (housekeeping I s1) (\<lambda>u s2. wlp (handle_event I ev s2) (\<lambda>v s3. linv s3))" if "linv s1" for s1 ev
    by (rule wlp_conseq [OF h [OF that]]) (rule wlp_good_linv [OF handle_event_good])
  show ?thesis using inv h e by (cases res) (auto simp: step_def Let_def)
qed

lemma closed_files_initialize: "w_initialize I ex s w = (w1, n, h) \<Longrightarrow> closed_files w1 = closed_files w"
  by (cases w) (auto simp: file_open_def file_header_def file_write_def Let_def split: prod.splits)

lemma callback_ok_initialize: "w_initialize I ex s w = (w1, n, h) \<Longrightarrow> callback_ok w \<Longrightarrow> callback_ok w1"
  by (cases w) (auto simp: Let_def split: prod.splits)

lemma new_processor_linv:
  assumes "SysFlowProcessor_new I version cxt = Some s0" and "writer_initialize I2 s0 = Some (u, s)"
  shows "linv s"
proof -
  have f: "w_fresh (m_writer s0)" "closed_files (m_writer s0) = []" "m_procs s0 = []" "m_files s0 = []" "m_containers s0 = []"
    "callback_ok (m_writer s0)"
    using assms(1) by (auto simp: SysFlowProcessor_new_def constructor_defs getCurrentTime_def Let_def choose_writer_def new_file_writer_def new_sock_writer_def
        new_callback_writer_def writer_base_def split: if_splits)
  obtain ex s1 where e: "getExporterID I2 s0 = Some (ex, s1)" and s: "(case w_initialize I2 ex s1 (m_writer s1) of
        (w, n, h) \<Rightarrow> Some ((), s1\<lparr>m_writer := w, reads := n, trace := [Write1 (R_SFHeader h)], m_exit := (m_exit s1 \<or> w_killed w)\<rparr>)) = Some (u, s)"
    using assms(2) by (auto simp: writer_initialize_def split: bind_splits)
  have s1: "s1 = set_exporter ex s0" using wlpD [OF getExporterID_wlp e] .
  obtain w n h where w: "w_initialize I2 ex s1 (m_writer s1) = (w, n, h)" by (metis surj_pair)
  have "w_sync w [Write1 (R_SFHeader h)]" using w_sync_initialize [OF _ w] f(1) by (simp add: s1 set_exporter_def)
  moreover have "closed_files w = []" using closed_files_initialize [OF w] f(2) by (simp add: s1 set_exporter_def)
  moreover have "callback_ok w" using callback_ok_initialize [OF w] f(6) by (simp add: s1 set_exporter_def)
  ultimately show ?thesis using s w f
    by (auto simp: s1 set_exporter_def linv_def log_ok_def well_logged_def starts_header_def
        conts_logged_def files_logged_def procs_logged_def)
qed

text \<open>
  The collector as a transition system: a new processor whose output has been opened, a signal that
  asks for the exit, and an answer of the library that the event loop handles.
\<close>

inductive reach :: "sf \<Rightarrow> bool" where
  opened: "SysFlowProcessor_new I version cxt = Some s0 \<Longrightarrow> writer_initialize I2 s0 = Some (u, s) \<Longrightarrow> reach s"
| signal: "reach s \<Longrightarrow> reach (s\<lparr>m_exit := True\<rparr>)"
| handled: "reach s \<Longrightarrow> step I res s = Some (c, s1) \<Longrightarrow> reach s1"

lemma reach_linv: "reach s \<Longrightarrow> linv s"
proof (induction rule: reach.induct)
  case (handled s I res c s1)
  show ?case by (rule wlpD [OF step_linv [OF handled.IH] handled.hyps(2)])
qed (auto intro: new_processor_linv)

lemma run_loop_reach: "reach s \<Longrightarrow> run_loop inputs s = Some (c, s1) \<Longrightarrow> reach s1"
proof (induction inputs s rule: run_loop.induct)
  case (2 I sig res inputs s)
  have "s\<lparr>m_exit := m_exit s\<rparr> = s" by simp
  then have "reach (s\<lparr>m_exit := (m_exit s \<or> sig)\<rparr>)" using "2.prems"(1) reach.signal [of s] by (cases sig) auto
  note next_state = reach.handled [OF this]
  then show ?case using "2.prems"(2) "2.IH" by (fastforce split: bind_splits loop_result.splits)
qed simp

lemma run_reach:
  assumes "SysFlowProcessor_new I version cxt = Some s0" and "run I2 inputs s0 = Some (c, s)"
  shows "reach s"
proof -
  obtain u s1 where i: "writer_initialize I2 s0 = Some (u, s1)" and r: "run_loop inputs s1 = Some (c, s)"
    using assms(2) by (auto simp: run_def split: bind_splits)
  show ?thesis by (rule run_loop_reach [OF reach.opened [OF assms(1) i] r])
qed

lemmas run_linv = reach_linv [OF run_reach]

section \<open>The end of the run\<close>

lemma write_and_export_step:
  "write_and_export I oids s = Some (u, s1) \<Longrightarrow> pstep s s1 \<and> (\<forall>oid \<in> set oids. proc_written s1 oid)"
proof (induction oids arbitrary: s)
  case (Cons oid oids)
  obtain p where p: "find_proc s oid = Some p" using Cons.prems by (cases "find_proc s oid") auto
  define s2 where "s2 = (case proc_containerId (p_proc p) of None \<Rightarrow> s | Some c \<Rightarrow> snd (exportContainer I c s))"
  have s2: "fstep s s2" by (auto simp: s2_def split: option.split intro: cstep_fstep cstep_exportContainer)
  then have f2: "find_proc s2 oid = Some p" using p core_find_proc [of s2 s] by (simp add: fstep_def)
  let ?s3 = "emit I (Write1 (R_Process (p_proc p))) s2"
  let ?s4 = "put_proc oid (p\<lparr>p_written := True\<rparr>) ?s3"
  have e: "pstep s ?s3" using fstep_trans [OF s2 fstep_emit] fstep_pstep by simp
  have ok: "proc_ok ?s3 oid (p\<lparr>p_written := True\<rparr>)" if "linv ?s3"
    using linv_proc [OF that, of oid p] f2 by (auto simp: proc_ok_def)
  have st: "pstep s ?s4" by (rule pstep_put [OF e ok]) auto
  have w: "proc_written ?s4 oid" by (simp add: proc_written_def)
  have "write_and_export I oids ?s4 = Some (u, s1)" using Cons.prems p
    by (auto simp: s2_def writeProcess_def split: option.splits if_splits prod.splits bind_splits)
  from Cons.IH [OF this] have "pstep ?s4 s1" "\<forall>oid \<in> set oids. proc_written s1 oid" by auto
  then show ?case using pstep_trans [OF st] pstep_written [OF _ w] by auto
qed simp

lemmas ancestors_unwritten_induct [consumes 1, case_names step] = ancestors_unwritten.raw_induct [rotated]

lemma ancestors_unwritten_prefix: "ancestors_unwritten poid ps s = Some qs \<Longrightarrow> set ps \<subseteq> set qs"
proof (induction rule: ancestors_unwritten_induct)
  case (step loop poid ps s qs)
  then show ?case by (fastforce split: option.splits if_splits)
qed

lemma writeProcessAndAncestors_good:
  assumes "linv s"
  shows "wlp (writeProcessAndAncestors I oid s) (\<lambda>u s1. good s s1 \<and> proc_written s1 oid)"
proof (rule wlpI)
  fix u s1 assume a: "writeProcessAndAncestors I oid s = Some (u, s1)"
  then obtain p :: ProcessObj and ps where "ancestors_unwritten (proc_poid (p_proc p)) [oid] s = Some ps" "write_and_export I (rev ps) s = Some (u, s1)"
    by (auto simp: writeProcessAndAncestors_def split: option.splits)
  with ancestors_unwritten_prefix write_and_export_step show "good s s1 \<and> proc_written s1 oid"
    using pstep_good [OF _ assms] by fastforce
qed

text \<open>The flush leaves the process table alone until the process flow is cleared.\<close>

definition flushed :: "sf \<Rightarrow> sf \<Rightarrow> bool" where
  "flushed s s1 = (good s s1 \<and> m_procs s1 = m_procs s)"

lemma free_flushed: "linv s \<Longrightarrow> wlp (free r s) (\<lambda>u s1. flushed s s1)"
  using free_good [of s r] by (auto simp: flushed_def free_def wlp_def split: option.splits)

lemma flushed_trans: "flushed s s1 \<Longrightarrow> flushed s1 s2 \<Longrightarrow> flushed s s2"
  by (auto simp: flushed_def intro: good_trans)

lemma flushed_wlp: "flushed s s1 \<Longrightarrow> wlp m (\<lambda>r s2. flushed s1 s2) \<Longrightarrow> wlp m (\<lambda>r s2. flushed s s2)"
  by (erule wlp_conseq) (rule flushed_trans)

lemma flush_netflows_good:
  assumes "linv s" and "proc_oid p \<in> logged_procs (trace s)" and "\<And>r. r \<in> set rs \<Longrightarrow> owns s (proc_oid p) True r"
  shows "wlp (flush_netflows I p rs s) (\<lambda>u s1. flushed s s1)"
  using assms
proof (induction rs arbitrary: s)
  case (Cons r rs)
  show ?case
  proof (cases "deref_net r s = None")
    case False
    then obtain n where n: "heap s r = Some (Net n)" "deref_net r s = Some (n, s)" using deref_None_or(1) [of r s] by auto
    obtain t s1 where t: "getSinspTime I s = (t, s1)" by fastforce
    let ?nf = "(netflow n)\<lparr>nf_opFlags := or (nf_opFlags (netflow n)) (op_val OP_TRUNCATE), nf_endTs := t\<rparr>"
    let ?s2 = "writeNetFlow I ?nf (Some p) s1"
    have g1: "good s s1" by (rule clock_good(2) [OF Cons.prems(1) t])
    have oid: "nf_procOID ?nf = proc_oid p" using owns_flow(1) [OF _ n(1)] Cons.prems(3) [of r] by simp
    have "good s1 ?s2"
      by (rule write_flow_good(1) [OF good_linv [OF g1]]) (use oid good_logged [OF g1 Cons.prems(2)] in auto)
    then have g2: "flushed s ?s2"
      using g1 clock_frame [OF _, of I s t s1] t by (auto simp: flushed_def getSinspTime_def writeNetFlow_def intro: good_trans split: if_splits)
    have rest: "wlp (flush_netflows I p rs s3) (\<lambda>u s4. flushed s s4)" if f: "flushed s s3" for s3
    proof -
      have g3: "good s s3" using f by (simp add: flushed_def)
      show ?thesis
        by (rule flushed_wlp [OF f Cons.IH])
          (use g3 good_linv good_logged [OF g3 Cons.prems(2)] good_owns [OF g3] Cons.prems(3) in auto)
    qed
    have "wlp (free r ?s2) (\<lambda>u s3. flushed s s3)"
      by (rule flushed_wlp [OF g2 free_flushed]) (use g2 in \<open>auto simp: flushed_def\<close>)
    from wlp_conseq [OF this rest] show ?thesis using n(2) t by (simp add: Let_def)
  qed simp
qed (simp add: flushed_def)

lemma flush_fileflows_good:
  assumes "linv s" and "proc_oid p \<in> logged_procs (trace s)" and "\<And>r. r \<in> set rs \<Longrightarrow> owns s (proc_oid p) False r"
  shows "wlp (flush_fileflows I p rs s) (\<lambda>u s1. flushed s s1)"
  using assms
proof (induction rs arbitrary: s)
  case (Cons r rs)
  show ?case
  proof (cases "deref_file r s = None")
    case False
    then obtain n where n: "heap s r = Some (Fil n)" "deref_file r s = Some (n, s)" using deref_None_or(2) [of r s] by auto
    obtain t s1 where t: "getSinspTime I s = (t, s1)" by fastforce
    let ?ff = "(fileflow n)\<lparr>ff_opFlags := or (ff_opFlags (fileflow n)) (op_val OP_TRUNCATE), ff_endTs := t\<rparr>"
    obtain g s2 where k: "exportFile I (filekey n) s1 = (g, s2)" by fastforce
    have g1: "good s s1" by (rule clock_good(2) [OF Cons.prems(1) t])
    have fs: "fstep s1 s2" using fstep_getFile_key(2) [of s1 I "filekey n"] k by simp
    have g2: "good s1 s2" by (rule fstep_good [OF fs good_linv [OF g1]])
    have oid: "ff_procOID ?ff = proc_oid p" using owns_flow(2) [OF _ n(1)] Cons.prems(3) [of r] by simp
    have pr: "m_procs s2 = m_procs s" using t core_fields(3) [of s2 s1] fs by (auto simp: getSinspTime_def fstep_def split: if_splits)
    show ?thesis
    proof (cases g)
      case (Some fo)
      let ?s3 = "writeFileFlow I ?ff (Some p) (Some (f_file fo)) s2"
      have "good s2 ?s3"
        by (rule write_flow_good(2) [OF good_linv [OF g2]])
          (use oid good_logged [OF g2 good_logged [OF g1 Cons.prems(2)]] getFile_key_written(2) [OF good_linv [OF g1]] k Some in auto)
      then have g3: "flushed s ?s3"
        using good_trans [OF good_trans [OF g1 g2]] pr by (simp add: flushed_def writeFileFlow_def)
      have rest: "wlp (flush_fileflows I p rs s4) (\<lambda>u s5. flushed s s5)" if f: "flushed s s4" for s4
      proof -
        have g4: "good s s4" using f by (simp add: flushed_def)
        show ?thesis
          by (rule flushed_wlp [OF f Cons.IH])
            (use g4 good_linv good_logged [OF g4 Cons.prems(2)] good_owns [OF g4] Cons.prems(3) in auto)
      qed
      have "wlp (free r ?s3) (\<lambda>u s4. flushed s s4)"
        by (rule flushed_wlp [OF g3 free_flushed]) (use g3 in \<open>auto simp: flushed_def\<close>)
      from wlp_conseq [OF this rest] show ?thesis using n(2) t k Some by (simp add: Let_def)
    qed (use n(2) t k in \<open>simp add: Let_def\<close>)
  qed simp
qed (simp add: flushed_def)

lemma flush_pfo_good:
  assumes "linv s" and "find_proc s oid = Some p" and "pfo p = None \<or> proc_written s oid"
  shows "good s (flush_pfo I oid p s)"
proof (cases "pfo p")
  case (Some f)
  obtain t s1 where t: "getSinspTime I s = (t, s1)" by fastforce
  let ?pf = "(procflow f)\<lparr>pf_opFlags := or (pf_opFlags (procflow f)) (op_val OP_TRUNCATE), pf_endTs := t\<rparr>"
  let ?s2 = "writeProcessFlow I ?pf (Some (p_proc p)) s1"
  have g1: "good s s1" by (rule clock_good(2) [OF assms(1) t])
  have w: "proc_written s oid" using Some assms(3) by simp
  have ids: "proc_oid (p_proc p) = oid" "pf_procOID ?pf = oid" using linv_proc [OF assms(1,2)] Some by (auto simp: proc_ok_def)
  have "good s1 ?s2"
    by (rule write_flow_good(3) [OF good_linv [OF g1]]) (use ids linv_written [OF good_linv [OF g1] good_written [OF g1 w]] in auto)
  with g1 have g2: "good s ?s2" by (rule good_trans)
  have "find_proc ?s2 oid = Some p" using assms(2) t by (auto simp: writeProcessFlow_def getSinspTime_def split: if_splits)
  then have "good ?s2 (put_proc oid (p\<lparr>pfo := None\<rparr>) ?s2)" by (intro put_pfo_good [OF good_linv [OF g2]]) auto
  with g2 have "good s (put_proc oid (p\<lparr>pfo := None\<rparr>) ?s2)" by (rule good_trans)
  then show ?thesis using Some t by (simp add: flush_pfo_def Let_def)
qed (use assms(1) in \<open>simp add: flush_pfo_def\<close>)

lemma flush_process_good:
  assumes "linv s" and "find_proc s oid = Some p"
    and "netflows p = [] \<and> fileflows p = [] \<and> pfo p = None \<or> proc_written s oid"
  shows "wlp (Option.bind (flush_netflows I (p_proc p) (map snd (netflows p)) s) (\<lambda>(u, s).
      Option.bind (flush_fileflows I (p_proc p) (map snd (fileflows p)) s) (\<lambda>(u, s). Some ((), flush_pfo I oid p s)))) (\<lambda>u s1. good s s1)"
proof (cases "proc_written s oid")
  case False
  then show ?thesis using assms by (auto simp: flush_pfo_def)
next
  case True
  have ok: "proc_ok s oid p" by (rule linv_proc [OF assms(1,2)])
  then have oid: "proc_oid (p_proc p) = oid" by (simp add: proc_ok_def)
  have log: "oid \<in> logged_procs (trace s)" by (rule linv_written [OF assms(1) True])
  have pfo: "good s (flush_pfo I oid p s2)" if "flushed s s2" for s2
    using flush_pfo_good [of s2 oid p I] that assms(2) good_written [of s s2 oid] True good_trans
    by (auto simp: flushed_def)
  have ff: "wlp (flush_fileflows I (p_proc p) (map snd (fileflows p)) s1) (\<lambda>u s2. flushed s s2)" if f: "flushed s s1" for s1
  proof (rule flushed_wlp [OF f flush_fileflows_good])
    have g: "good s s1" using f by (simp add: flushed_def)
    show "linv s1" by (rule good_linv [OF g])
    show "proc_oid (p_proc p) \<in> logged_procs (trace s1)" using good_logged [OF g log] oid by simp
    show "owns s1 (proc_oid (p_proc p)) False r" if "r \<in> set (map snd (fileflows p))" for r
      using good_owns [OF g] ok that oid by (auto simp: proc_ok_def)
  qed
  have nf: "wlp (flush_netflows I (p_proc p) (map snd (netflows p)) s) (\<lambda>u s1. flushed s s1)"
    by (rule flush_netflows_good) (use assms(1) log oid ok in \<open>auto simp: proc_ok_def\<close>)
  show ?thesis using wlp_conseq [OF nf] wlp_conseq [OF ff] pfo by simp
qed

lemma clearAllProcesses_loop_good: "linv s \<Longrightarrow> wlp (clearAllProcesses_loop I oids s) (\<lambda>u s1. good s s1)"
proof (induction oids arbitrary: s)
  case (Cons oid oids)
  let ?pending = "\<lambda>p. netflows p \<noteq> [] \<or> fileflows p \<noteq> [] \<or> pfo p \<noteq> None"
  have w: "wlp (if ?pending p \<and> \<not> p_written p then writeProcessAndAncestors I oid s else Some ((), s))
      (\<lambda>u s1. good s s1 \<and> (s1 = s \<and> (\<not> ?pending p \<or> p_written p) \<or> proc_written s1 oid))" for p
    using Cons.prems wlp_conseq [OF writeProcessAndAncestors_good [OF Cons.prems]] by auto
  have fl: "wlp (Option.bind (flush_netflows I (p_proc p1) (map snd (netflows p1)) s1) (\<lambda>(u, s).
      Option.bind (flush_fileflows I (p_proc p1) (map snd (fileflows p1)) s) (\<lambda>(u, s). Some ((), flush_pfo I oid p1 s)))) (\<lambda>u s2. good s s2)"
    if g: "good s s1" and c: "s1 = s \<and> (\<not> ?pending p \<or> p_written p) \<or> proc_written s1 oid"
      and p: "find_proc s oid = Some p" and p1: "find_proc s1 oid = Some p1" for s1 p p1
  proof -
    have "netflows p1 = [] \<and> fileflows p1 = [] \<and> pfo p1 = None \<or> proc_written s1 oid"
      using c p p1 by (auto simp: proc_written_def)
    from good_wlp [OF g flush_process_good [OF good_linv [OF g] p1 this]] show ?thesis .
  qed
  have "wlp (if ?pending p \<and> \<not> p_written p then writeProcessAndAncestors I oid s else Some ((), s)) (\<lambda>u s1.
      \<forall>p1. find_proc s1 oid = Some p1 \<longrightarrow> wlp (flush_netflows I (p_proc p1) (map snd (netflows p1)) s1) (\<lambda>u s2.
        wlp (flush_fileflows I (p_proc p1) (map snd (fileflows p1)) s2) (\<lambda>u s3. wlp (clearAllProcesses_loop I oids (flush_pfo I oid p1 s3)) (\<lambda>u s4. good s s4))))"
    if p: "find_proc s oid = Some p" for p
  proof (rule wlp_conseq [OF w], intro allI impI)
    fix u s1 p1 assume c: "good s s1 \<and> (s1 = s \<and> (\<not> ?pending p \<or> p_written p) \<or> proc_written s1 oid)" and p1: "find_proc s1 oid = Some p1"
    have "wlp (flush_netflows I (p_proc p1) (map snd (netflows p1)) s1) (\<lambda>u s2.
        wlp (flush_fileflows I (p_proc p1) (map snd (fileflows p1)) s2) (\<lambda>u s3. good s (flush_pfo I oid p1 s3)))"
      using fl [OF _ _ p p1] c by simp
    then show "wlp (flush_netflows I (p_proc p1) (map snd (netflows p1)) s1) (\<lambda>u s2.
        wlp (flush_fileflows I (p_proc p1) (map snd (fileflows p1)) s2) (\<lambda>u s3. wlp (clearAllProcesses_loop I oids (flush_pfo I oid p1 s3)) (\<lambda>u s4. good s s4)))"
      using good_wlp [OF _ Cons.IH [OF good_linv]] by (auto elim!: wlp_conseq)
  qed
  then show ?case by (simp add: deref_wlp)
qed simp

lemma clearAllProcesses_log: "linv s \<Longrightarrow> wlp (clearAllProcesses I s) (\<lambda>u s1. log_ok s1)"
proof -
  assume inv: "linv s"
  have "log_ok (s1\<lparr>m_procs := [], m_delProcQue := q\<rparr>)" if "good s s1" for s1 q
    using good_linv [OF that] by (simp add: linv_def)
  then show ?thesis using wlp_conseq [OF clearAllProcesses_loop_good [OF inv]] by (simp add: clearAllProcesses_def)
qed

section \<open>What a rotation keeps\<close>

definition busy :: "ProcessObj \<Rightarrow> bool" where
  "busy p = (netflows p \<noteq> [] \<or> fileflows p \<noteq> [] \<or> pfo p \<noteq> None)"

definition spares :: "sf \<Rightarrow> sf \<Rightarrow> bool" where
  "spares s s1 = (\<forall>oid p. find_proc s oid = Some p \<longrightarrow> busy p \<longrightarrow>
     (\<exists>p1. find_proc s1 oid = Some p1 \<and> netflows p1 = netflows p \<and> fileflows p1 = fileflows p \<and> pfo p1 = pfo p))"

lemma spares_refl [simp]: "spares s s"
  by (simp add: spares_def)

lemma spares_trans: "spares s s1 \<Longrightarrow> spares s1 s2 \<Longrightarrow> spares s s2"
proof -
  assume a: "spares s s1" "spares s1 s2"
  show ?thesis unfolding spares_def
  proof (intro allI impI)
    fix oid p assume "find_proc s oid = Some p" "busy p"
    with a(1) obtain p1 where 1: "find_proc s1 oid = Some p1" "netflows p1 = netflows p" "fileflows p1 = fileflows p" "pfo p1 = pfo p"
      by (auto simp: spares_def)
    then have "busy p1" using \<open>busy p\<close> by (simp add: busy_def)
    with a(2) 1(1) have "\<exists>p2. find_proc s2 oid = Some p2 \<and> netflows p2 = netflows p1 \<and> fileflows p2 = fileflows p1 \<and> pfo p2 = pfo p1"
      unfolding spares_def by blast
    with 1 show "\<exists>p1. find_proc s2 oid = Some p1 \<and> netflows p1 = netflows p \<and> fileflows p1 = fileflows p \<and> pfo p1 = pfo p"
      by simp
  qed
qed

lemma spares_put:
  "find_proc s oid = Some p \<Longrightarrow> netflows p1 = netflows p \<Longrightarrow> fileflows p1 = fileflows p \<Longrightarrow> pfo p1 = pfo p \<Longrightarrow>
     spares s (put_proc oid p1 s)"
  by (auto simp: spares_def)

lemma spares_drop: "(\<And>q. find_proc s oid = Some q \<Longrightarrow> \<not> busy q) \<Longrightarrow> spares s (drop_proc oid p s)"
  by (auto simp: spares_def drop_proc_def Let_def derefContainer_frame split: option.split)

lemma unlink_loop_spares: "unlink_loop cur poid s = Some y \<Longrightarrow> spares s (snd y)"
proof (induction rule: unlink_loop_induct)
  case (step loop cur poid s y)
  note IH = step(1) and eq = step(2)
  show ?case
  proof (cases "\<exists>key q. poid = Some key \<and> find_proc s key = Some q")
    case False
    then show ?thesis using eq by (auto split: option.splits)
  next
    case True
    then obtain key q where k: "poid = Some key" "find_proc s key = Some q" by blast
    have p: "spares s (put_proc key (erase_child cur q) s)" by (rule spares_put [OF k(2)]) (simp_all add: erase_child_def)
    show ?thesis using eq k IH spares_trans [OF p] p by (auto simp: Let_def split: if_splits)
  qed
qed

lemma idle_not_busy: "proc_idle p \<Longrightarrow> keeps_flows p1 p \<Longrightarrow> \<not> busy p1"
  by (simp add: proc_idle_def keeps_flows_def busy_def)

lemma clearProcesses_loop1_spares: "clearProcesses_loop1 oids s = Some (u, s1) \<Longrightarrow> spares s s1"
proof (induction oids arbitrary: s)
  case (Cons oid oids)
  show ?case
  proof (cases "find_proc s oid")
    case None
    then show ?thesis using Cons by simp
  next
    case (Some p)
    show ?thesis
    proof (cases "proc_idle p")
      case True
      obtain u2 s2 where ul: "unlink_loop oid (proc_poid (p_proc p)) s = Some (u2, s2)"
        and rest: "clearProcesses_loop1 oids (drop_proc oid p s2) = Some (u, s1)"
        using Cons.prems Some True by (auto split: bind_splits)
      have "\<not> busy q" if q: "find_proc s2 oid = Some q" for q
      proof -
        have "purge s s2" using unlink_loop_purge [OF ul] by simp
        then obtain p0 where "find_proc s oid = Some p0" "keeps_flows q p0" using q unfolding purge_def by blast
        then show ?thesis using Some idle_not_busy [OF True] by simp
      qed
      then have "spares s2 (drop_proc oid p s2)" by (rule spares_drop)
      then show ?thesis using unlink_loop_spares [OF ul] Cons.IH [OF rest] by (auto intro: spares_trans)
    next
      case False
      have "spares s (put_proc oid (p\<lparr>p_written := False\<rparr>) s)" by (rule spares_put [OF Some]) auto
      then show ?thesis using Cons Some False by (auto intro: spares_trans)
    qed
  qed
qed simp

lemma clearProcesses_loop2_spares: "spares s (clearProcesses_loop2 oids s)"
proof (induction oids arbitrary: s)
  case (Cons oid oids)
  have "spares s (drop_proc oid p s)" if "find_proc s oid = Some p" "proc_idle p" for p
    by (rule spares_drop) (use that in \<open>auto simp: proc_idle_def busy_def\<close>)
  then show ?case using Cons by (auto split: option.split intro: spares_trans)
qed simp

lemma clearTables_spares: "clearTables s = Some (u, s1) \<Longrightarrow> spares s s1"
proof -
  assume a: "clearTables s = Some (u, s1)"
  obtain s2 s3 where c: "clearProcesses_loop1 (tbl_keys (m_procs s)) s = Some ((), s2)" "s3 = clearProcesses_loop2 (tbl_keys (m_procs s2)) s2"
    and s1: "s1 = clearFiles (if m_k8sEnabled (m_cxt (clearContainers s3)) then clearPods (clearContainers s3) else clearContainers s3)"
    using a by (auto simp: clearTables_def clearProcesses_def Let_def split: bind_splits)
  have "spares s s3" using clearProcesses_loop1_spares [OF c(1)] clearProcesses_loop2_spares c(2) spares_trans by blast
  moreover have "core s1 = core s3" by (simp add: s1 clearFiles_def clearPods_def clearContainers_unmarks)
  ultimately show ?thesis using core_fields(3) [of s1 s3] by (simp add: spares_def)
qed

text \<open>The state after a rotation.\<close>

lemma rotation_cases:
  assumes "checkAndRotateFile I s = Some (b, s2)"
  obtains (no) s1 t where "\<not> b" and "getCurrentTime I s = (t, s1)" and "\<exists>x. s2 = s1\<lparr>m_statsTime := x\<rparr>"
  | (yes) s1 t u s3 v s4 where "b" and "getCurrentTime I s = (t, s1)" and "writer_reset I t s1 = Some (u, s3)"
    and "clearTables s3 = Some (v, s4)" and "\<exists>x. s2 = s4\<lparr>m_statsTime := x\<rparr>"
proof -
  obtain t s1 where t: "getCurrentTime I s = (t, s1)" by fastforce
  define fin where "fin = (\<lambda>s4 :: sf. if m_statsTime s4 > 0 \<and> difftime t (m_statsTime s4) \<ge> m_statsInterval (m_cxt s4)
    then s4\<lparr>m_statsTime := t\<rparr> else s4)"
  have same: "\<exists>x. fin s4 = s4\<lparr>m_statsTime := x\<rparr>" for s4 :: sf
  proof (cases "m_statsTime s4 > 0 \<and> difftime t (m_statsTime s4) \<ge> m_statsInterval (m_cxt s4)")
    case True
    then have "fin s4 = s4\<lparr>m_statsTime := t\<rparr>" unfolding fin_def by simp
    then show ?thesis by (rule exI)
  next
    case False
    then have "fin s4 = s4\<lparr>m_statsTime := m_statsTime s4\<rparr>" unfolding fin_def by auto
    then show ?thesis by (rule exI)
  qed
  have eq: "checkAndRotateFile I s = Option.bind (if isExpired t s1 \<or> needsReset (m_writer s1)
      then Option.bind (writer_reset I t s1) (\<lambda>(u, s2). Option.bind (clearTables s2) (\<lambda>(u, s2). Some (True, s2)))
      else Some (False, s1)) (\<lambda>(b, s2). Some (b, fin s2))"
    using t by (simp add: checkAndRotateFile_def fin_def)
  show thesis
  proof (cases "isExpired t s1 \<or> needsReset (m_writer s1)")
    case True
    then obtain u s3 v s4 where "writer_reset I t s1 = Some (u, s3)" "clearTables s3 = Some (v, s4)" "b" "s2 = fin s4"
      using assms unfolding eq by (auto split: bind_splits)
    then show thesis using yes [OF _ t] same by blast
  next
    case False
    then have "\<not> b" "s2 = fin s1" using assms unfolding eq by auto
    then show thesis using no [OF _ t] same by blast
  qed
qed

section \<open>The files of an output\<close>

definition output_files :: "writer \<Rightarrow> sfrec list list" where
  "output_files w = map snd (closed_files w) @ (case w of FileW f \<Rightarrow> [fw_recs f] | MultiW b k f \<Rightarrow> [fw_recs f] | _ \<Rightarrow> [])"

lemma log_ok_output: "log_ok s \<Longrightarrow> rs \<in> set (output_files (m_writer s)) \<Longrightarrow> file_ok rs"
  using well_logged_file_ok [of "trace s"] by (cases "m_writer s") (auto simp: log_ok_def output_files_def)

end
