(* ===== verification/Journal.thy ===== *)
theory Journal
  imports LogRun "HOL-Library.Sublist"
begin

text \<open>
  The collector as an implementation of a journal. A journal is a sequence of files; it grows by a
  record at the end of its last file or by a new file that starts with a header, and nothing in it
  is ever changed. The events, the expiry, the deletion of processes and the rotation of
  \<^const>\<open>step\<close> refine this machine.
\<close>

section \<open>The abstract machine\<close>

text \<open>
  An event may be added when the record of its process and those of its files are in the same file
  already (\<^const>\<open>event_ok\<close>).
\<close>

inductive journal :: "sfrec list list \<Rightarrow> sfrec list list \<Rightarrow> bool" where
  append: "event_ok f r \<Longrightarrow> journal (fs @ [f]) (fs @ [f @ [r]])"
| rotate: "journal fs (fs @ [[R_SFHeader h]])"

inductive_cases journal_cases [elim]: "journal fs fs1"

text \<open>All files but the last one are final.\<close>

lemma journal_final:
  assumes "journal\<^sup>*\<^sup>* fs fs1"
  shows "length fs \<le> length fs1 \<and> (\<forall>i. Suc i < length fs \<longrightarrow> fs1 ! i = fs ! i) \<and> (fs \<noteq> [] \<longrightarrow> prefix (last fs) (fs1 ! (length fs - 1)))"
  using assms
proof (induction rule: rtranclp_induct)
  case base
  then show ?case by (simp add: last_conv_nth)
next
  case (step fs1 fs2)
  from step(2) show ?case
  proof cases
    case (append f r fs')
    then show ?thesis using step(3) by (auto simp: nth_append prefix_def split: if_splits)
  next
    case (rotate h)
    moreover have "fs \<noteq> [] \<Longrightarrow> length fs - 1 < length fs1" using step(3) by (cases fs) auto
    ultimately show ?thesis using step(3) by (auto simp: nth_append)
  qed
qed

section \<open>Refinement\<close>

text \<open>
  A machine that simulates another under an invariant: every step is a sequence of steps of the
  abstract machine. Then its runs are runs of the abstract machine.
\<close>

locale simulation =
  fixes inv :: "'s \<Rightarrow> bool" and moves :: "'s \<Rightarrow> 's \<Rightarrow> bool" and abstr :: "'s \<Rightarrow> 'a" and spec :: "'a \<Rightarrow> 'a \<Rightarrow> bool"
  assumes moves_inv: "inv s \<Longrightarrow> moves s s1 \<Longrightarrow> inv s1"
    and moves_spec: "inv s \<Longrightarrow> moves s s1 \<Longrightarrow> spec\<^sup>*\<^sup>* (abstr s) (abstr s1)"
begin

lemma runs:
  assumes "moves\<^sup>*\<^sup>* s s1" and "inv s"
  shows "inv s1 \<and> spec\<^sup>*\<^sup>* (abstr s) (abstr s1)"
  using assms
proof (induction rule: rtranclp_induct)
  case (step s1 s2)
  then show ?case using moves_inv moves_spec by (meson rtranclp_trans)
qed simp

end

section \<open>The steps of the collector\<close>

definition outputs :: "sf \<Rightarrow> sfrec list list" where
  "outputs s = output_files (m_writer s)"

lemma outputs_sync:
  "log_ok s \<Longrightarrow> outputs s = map snd (closed_files (m_writer s)) @ (if has_file (m_writer s) then [map wrec (trace s)] else [])"
  by (cases "m_writer s") (auto simp: outputs_def output_files_def log_ok_def)

lemma journal_appends:
  assumes "well_logged (tr @ cs)"
  shows "journal\<^sup>*\<^sup>* (fs @ [map wrec tr]) (fs @ [map wrec (tr @ cs)])"
  using assms
proof (induction cs rule: rev_induct)
  case (snoc c cs)
  then have "well_logged (tr @ cs)" "covered (tr @ cs) c"
    using well_logged_snoc [of "tr @ cs" c] by auto
  moreover from this(2) have "journal (fs @ [map wrec (tr @ cs)]) (fs @ [map wrec (tr @ cs) @ [wrec c]])"
    by (intro append wrec_covered)
  ultimately show ?case using snoc.IH by (simp add: rtranclp.rtrancl_into_rtrancl)
qed simp

lemma grows_journal:
  assumes "linv s" and "grows s s1"
  shows "journal\<^sup>*\<^sup>* (outputs s) (outputs s1)"
proof -
  obtain cs where t: "trace s1 = trace s @ cs" and same: "closed_files (m_writer s1) = closed_files (m_writer s)"
    "has_file (m_writer s1) = has_file (m_writer s)"
    using assms(2) by (auto simp: grows_def ext_def)
  have ok: "log_ok s" "log_ok s1" using assms by (auto simp: grows_def linv_def)
  then have "well_logged (trace s @ cs)" by (simp add: log_ok_def flip: t)
  from journal_appends [OF this] show ?thesis
    unfolding outputs_sync [OF ok(1)] outputs_sync [OF ok(2)] by (simp add: t same)
qed

text \<open>A reset of the writer closes the file and starts the next one.\<close>

lemma reset_outputs:
  assumes "w_reset I t ex s w = (w1, n, h)"
  shows "output_files w1 = output_files w @ (if has_file w then [[R_SFHeader h]] else [])"
  using assms
  by (cases w) (auto simp: output_files_def file_reset_def file_open_def file_header_def file_write_def mk_header_def Let_def split: prod.splits)

lemma rotation_journal:
  assumes "linv s" and "checkAndRotateFile I s = Some (b, s1)"
  shows "journal\<^sup>*\<^sup>* (outputs s) (outputs s1)"
  using assms(2)
proof (cases rule: rotation_cases)
  case (no s2 t)
  then show ?thesis using grows_journal [OF assms(1) clock_grows [OF assms(1), of I]] by (auto simp: outputs_def split: if_splits)
next
  case (yes s2 t u s3 v s4)
  obtain ex w n h b where r: "w_reset I t ex (set_exporter ex s2) (m_writer s2) = (w, n, h)" and w: "m_writer s3 = w"
    using wlpD [OF writer_reset_wlp yes(3)] by auto
  have "m_writer s1 = w" using clearTables_result(2) [OF yes(4)] w yes(5) by auto
  moreover have "journal\<^sup>*\<^sup>* (output_files (m_writer s2)) (output_files w)"
    unfolding reset_outputs [OF r] using journal.rotate by auto
  moreover have "journal\<^sup>*\<^sup>* (outputs s) (outputs s2)"
    by (rule grows_journal [OF assms(1) clock_grows [OF assms(1) yes(2)]])
  ultimately show ?thesis by (simp add: outputs_def)
qed

section \<open>The event loop\<close>

text \<open>The invariant with a journal that has grown from \<open>fs\<close>.\<close>

definition jinv :: "sfrec list list \<Rightarrow> sf \<Rightarrow> bool" where
  "jinv fs s = (linv s \<and> journal\<^sup>*\<^sup>* fs (outputs s))"

lemma jinv_journal: "jinv fs s \<Longrightarrow> linv s1 \<Longrightarrow> journal\<^sup>*\<^sup>* (outputs s) (outputs s1) \<Longrightarrow> jinv fs s1"
  by (auto simp: jinv_def)

lemma jinv_linv [simp]: "jinv fs s \<Longrightarrow> linv s"
  by (simp add: jinv_def)

lemma grows_jinv: "jinv fs s \<Longrightarrow> grows s s1 \<Longrightarrow> jinv fs s1"
  by (rule jinv_journal [OF _ _ grows_journal]) (auto simp: grows_def)

lemma wlp_jinv: "jinv fs s \<Longrightarrow> (linv s \<Longrightarrow> wlp m (\<lambda>r s1. grows s s1)) \<Longrightarrow> wlp m (\<lambda>r s1. jinv fs s1)"
  by (rule wlp_conseq [of m "\<lambda>r s1. grows s s1"]) (simp, rule grows_jinv)

lemma wlp_good_jinv: "jinv fs s \<Longrightarrow> (linv s \<Longrightarrow> wlp m (\<lambda>r s1. good s s1)) \<Longrightarrow> wlp m (\<lambda>r s1. jinv fs s1)"
  by (rule wlp_conseq [of m "\<lambda>r s1. good s s1"]) (simp, rule grows_jinv, assumption, rule good_grows)

lemma checkAndRotateFile_jinv: "jinv fs s \<Longrightarrow> wlp (checkAndRotateFile I s) (\<lambda>b s1. jinv fs s1)"
  by (rule wlpI, rule jinv_journal [OF _ wlpD [OF checkAndRotateFile_linv] rotation_journal]) simp_all

lemma housekeeping_jinv: "jinv fs s \<Longrightarrow> wlp (housekeeping I s) (\<lambda>u s1. jinv fs s1)"
proof -
  assume inv: "jinv fs s"
  have "wlp (df_checkForExpiredRecords I s) (\<lambda>n s1. wlp (cf_checkForExpiredRecords I s1) (\<lambda>m s2.
      wlp (checkForDeletion I s2) (\<lambda>u s3. wlp (checkAndRotateFile I s3) (\<lambda>b s4. jinv fs s4))))"
    by (rule wlp_conseq [OF wlp_good_jinv [OF inv df_checkForExpiredRecords_good]], assumption,
        rule wlp_conseq [OF wlp_good_jinv [OF _ cf_checkForExpiredRecords_good]], assumption, assumption,
        rule wlp_conseq [OF wlp_jinv [OF _ checkForDeletion_grows]], assumption, assumption, rule checkAndRotateFile_jinv)
  then show ?thesis by (simp add: housekeeping_def checkForExpiredRecords_def)
qed

lemma jinv_upd [simp]: "jinv fs (s\<lparr>timeStamp := t\<rparr>) = jinv fs s" "jinv fs (s\<lparr>m_exit := b\<rparr>) = jinv fs s"
  by (simp_all add: jinv_def outputs_def)

lemma step_jinv: "jinv fs s \<Longrightarrow> wlp (step I res s) (\<lambda>c s1. jinv fs s1)"
proof -
  assume inv: "jinv fs s"
  have h: "wlp (housekeeping I s1) (\<lambda>u s2. jinv fs s2)" if "jinv fs s1" for s1 by (rule housekeeping_jinv [OF that])
  have e: "wlp (housekeeping I s1) (\<lambda>u s2. wlp (handle_event I ev s2) (\<lambda>v s3. jinv fs s3))" if "jinv fs s1" for s1 ev
    by (rule wlp_conseq [OF h [OF that]]) (rule wlp_good_jinv [OF _ handle_event_good])
  show ?thesis using inv h e by (cases res) (auto simp: step_def Let_def)
qed

definition moves :: "sf \<Rightarrow> sf \<Rightarrow> bool" where
  "moves s s1 = (s1 = s\<lparr>m_exit := True\<rparr> \<or> (\<exists>I res c. step I res s = Some (c, s1)))"

interpretation collector: simulation linv moves outputs journal
proof
  fix s s1 assume inv: "linv s" and m: "moves s s1"
  from inv have j: "jinv (outputs s) s" by (simp add: jinv_def)
  then have "jinv (outputs s) s1" using m wlpD [OF step_jinv [OF j]] by (auto simp: moves_def)
  then show "linv s1" "journal\<^sup>*\<^sup>* (outputs s) (outputs s1)" by (simp_all add: jinv_def)
qed

lemma run_loop_moves: "run_loop inputs s = Some (c, s1) \<Longrightarrow> moves\<^sup>*\<^sup>* s s1"
proof (induction inputs s rule: run_loop.induct)
  case (2 I sig res inputs s)
  let ?s = "s\<lparr>m_exit := m_exit s \<or> sig\<rparr>"
  have "moves\<^sup>*\<^sup>* s ?s"
  proof (cases "sig \<and> \<not> m_exit s")
    case True
    then show ?thesis by (auto simp: moves_def intro: r_into_rtranclp)
  next
    case False
    then have "?s = s" by auto
    then show ?thesis by simp
  qed
  moreover obtain c2 s2 where st: "step I res ?s = Some (c2, s2)"
    and r: "(case c2 of Continue \<Rightarrow> run_loop inputs s2 | _ \<Rightarrow> Some (c2, s2)) = Some (c, s1)"
    using "2.prems" by (auto split: bind_splits)
  moreover have "moves ?s s2" using st by (auto simp: moves_def)
  moreover have "moves\<^sup>*\<^sup>* s2 s1" using r "2.IH" [OF st refl] by (cases c2) auto
  ultimately show ?case by (meson converse_rtranclp_into_rtranclp rtranclp_trans)
qed simp

end
