(* ===== verification/Shutdown.thy ===== *)
theory Shutdown
  imports Journal
begin

text \<open>
  The end of the collector: the destructor of the processor, which deletes the flow processors, the
  pods and the containers before the processes, whose destructor writes what is pending; and the
  drivers around the event loop.
\<close>

section \<open>The destructor of the processor\<close>

text \<open>
  \<open>~SysFlowProcessor\<close>: the set of pending flows goes with the data flow processor, the container
  context with its table; then the processes are flushed and the files dropped. A use of the deleted
  container context is undefined (\<open>None\<close>). The writer and the library are closed at the end.
\<close>

definition DataFlowProcessor_delete :: "sf \<Rightarrow> sf" where
  "DataFlowProcessor_delete s = s\<lparr>m_dfSet := []\<rparr>"

definition K8sContext_delete :: "sf \<Rightarrow> sf" where
  "K8sContext_delete s = clearAllPods s"

definition ContainerContext_delete :: "sf \<Rightarrow> sf" where
  "ContainerContext_delete s = (clearAllContainers s)\<lparr>ccxt_live := False\<rparr>"

definition ProcessContext_delete :: "inspector \<Rightarrow> sf \<Rightarrow> (unit \<times> sf) option" where
  "ProcessContext_delete I s = clearAllProcesses I s"

definition FileContext_delete :: "sf \<Rightarrow> sf" where
  "FileContext_delete s = clearAllFiles s"

definition SysFlowProcessor_delete :: "inspector \<Rightarrow> sf \<Rightarrow> (unit \<times> sf) option" where
  "SysFlowProcessor_delete I s =
     (let s1 = DataFlowProcessor_delete s;
          s2 = (if m_k8sEnabled (m_cxt s1) then K8sContext_delete s1 else s1);
          s3 = ContainerContext_delete s2
      in do {
        (u, s4) \<leftarrow> ProcessContext_delete I s3;
        Some ((), FileContext_delete s4)
      })"

lemmas destructor_defs =
  DataFlowProcessor_delete_def K8sContext_delete_def ContainerContext_delete_def ProcessContext_delete_def FileContext_delete_def

text \<open>The state in which the processes are flushed.\<close>

definition before_flush :: "sf \<Rightarrow> sf" where
  "before_flush s =
     (let s1 = DataFlowProcessor_delete s
      in ContainerContext_delete (if m_k8sEnabled (m_cxt s1) then K8sContext_delete s1 else s1))"

lemma before_flush_fields [simp]:
  "m_procs (before_flush s) = m_procs s" "m_files (before_flush s) = m_files s" "m_containers (before_flush s) = []"
  "\<not> ccxt_live (before_flush s)" "trace (before_flush s) = trace s" "m_writer (before_flush s) = m_writer s"
  "heap (before_flush s) = heap s" "nextref (before_flush s) = nextref s"
  by (simp_all add: before_flush_def destructor_defs clearAllContainers_def clearAllPods_def Let_def)

lemma SysFlowProcessor_delete_alt:
  "SysFlowProcessor_delete I s =
     (case clearAllProcesses I (before_flush s) of None \<Rightarrow> None | Some (u, s4) \<Rightarrow> Some ((), clearAllFiles s4))"
  by (cases "clearAllProcesses I (before_flush s)")
    (simp_all add: SysFlowProcessor_delete_def before_flush_def ProcessContext_delete_def FileContext_delete_def Let_def split: prod.split)

text \<open>A process in a container that has flows to write and no record yet.\<close>

definition stranded :: "ProcessObj \<Rightarrow> bool" where
  "stranded p = ((netflows p \<noteq> [] \<or> fileflows p \<noteq> [] \<or> pfo p \<noteq> None) \<and> \<not> p_written p \<and> proc_containerId (p_proc p) \<noteq> None)"

definition waits :: "OID \<Rightarrow> ProcessObj \<Rightarrow> sf \<Rightarrow> bool" where
  "waits oid p s = (find_proc s oid = Some p \<and> stranded p \<and> \<not> ccxt_live s)"

lemma core_waits: "core s1 = core s \<Longrightarrow> waits oid p s1 = waits oid p s"
proof -
  assume c: "core s1 = core s"
  have "ccxt_live (core s) = ccxt_live s" for s by (simp add: core_def)
  then have "ccxt_live s1 = ccxt_live s" by (metis c)
  then show ?thesis using core_find_proc [OF c] by (simp add: waits_def)
qed

lemma waits_emit [simp]: "waits oid p (emit I c s) = waits oid p s"
  by (rule core_waits) simp

lemma waits_put [simp]: "o1 \<noteq> oid \<Longrightarrow> waits oid p (put_proc o1 q s) = waits oid p s"
  by (simp add: waits_def) (simp add: put_proc_def)

lemma waits_dead: "waits oid p s \<Longrightarrow> \<not> ccxt_live s"
  by (simp add: waits_def)

lemma waits_upd [simp]: "waits oid p (s\<lparr>heap := h\<rparr>) = waits oid p s" "waits oid p (s\<lparr>reads := n\<rparr>) = waits oid p s"
  by (simp_all add: waits_def)

lemma waits_clock: "getSinspTime I s = (t, s1) \<Longrightarrow> waits oid p s1 = waits oid p s"
  by (auto simp: getSinspTime_def split: if_splits)

text \<open>To write the process is to use the container context.\<close>

lemma write_and_export_waits:
  "waits oid p s \<Longrightarrow> oid \<in> set oids \<Longrightarrow> write_and_export I oids s = None"
proof (induction oids arbitrary: s)
  case (Cons o1 oids)
  show ?case
  proof (cases "o1 = oid")
    case True
    then show ?thesis using Cons.prems by (auto simp: waits_def stranded_def)
  next
    case False
    then show ?thesis using Cons waits_dead [OF Cons.prems(1)] by (simp add: writeProcess_def split: option.split)
  qed
qed simp

lemma write_and_export_keeps: "waits oid p s \<Longrightarrow> wlp (write_and_export I oids s) (\<lambda>u s1. waits oid p s1)"
proof (induction oids arbitrary: s)
  case (Cons o1 oids)
  show ?case
  proof (cases "o1 = oid")
    case True
    then show ?thesis using write_and_export_waits [OF Cons.prems, of "o1 # oids"] by simp
  next
    case False
    then show ?thesis using Cons waits_dead [OF Cons.prems(1)] by (simp add: writeProcess_def split: option.split)
  qed
qed simp

lemma writeProcessAndAncestors_waits:
  assumes "waits oid p s"
  shows "wlp (writeProcessAndAncestors I o1 s) (\<lambda>u s1. waits oid p s1)" "writeProcessAndAncestors I oid s = None"
proof -
  show "wlp (writeProcessAndAncestors I o1 s) (\<lambda>u s1. waits oid p s1)"
    using write_and_export_keeps [OF assms] by (simp add: writeProcessAndAncestors_def split: option.split)
  show "writeProcessAndAncestors I oid s = None"
  proof (cases "ancestors_unwritten (proc_poid (p_proc p)) [oid] s")
    case (Some ps)
    then have "oid \<in> set (rev ps)" using ancestors_unwritten_prefix [OF Some] by simp
    then show ?thesis using Some write_and_export_waits [OF assms] assms
      by (simp add: writeProcessAndAncestors_def waits_def)
  qed (use assms in \<open>simp add: writeProcessAndAncestors_def waits_def\<close>)
qed

lemma free_waits: "waits oid p s \<Longrightarrow> wlp (free r s) (\<lambda>u s1. waits oid p s1)"
  by (auto simp: free_def split: option.split)

lemma flush_netflows_waits: "waits oid p s \<Longrightarrow> wlp (flush_netflows I q rs s) (\<lambda>u s1. waits oid p s1)"
proof (induction rs arbitrary: s)
  case (Cons r rs)
  have "wlp (free r (writeNetFlow I nf (Some q) s1)) (\<lambda>u s2. wlp (flush_netflows I q rs s2) (\<lambda>u s3. waits oid p s3))"
    if "waits oid p s1" for nf s1
    by (rule wlp_conseq [OF free_waits Cons.IH]) (simp_all add: that writeNetFlow_def)
  then show ?case using Cons.prems waits_clock [of I s]
    by (auto simp: deref_net_def Let_def split: option.split DataFlow.split prod.split)
qed simp

lemma flush_fileflows_waits: "waits oid p s \<Longrightarrow> wlp (flush_fileflows I q rs s) (\<lambda>u s1. waits oid p s1)"
proof (induction rs arbitrary: s)
  case (Cons r rs)
  have x: "waits oid p s2 = waits oid p s1" if "exportFile I k s1 = (f, s2)" for k f s1 s2
    using fstep_getFile_key(2) [of s1 I k] that by (intro core_waits) (simp add: fstep_def)
  have "wlp (free r (writeFileFlow I ff (Some q) f s1)) (\<lambda>u s2. wlp (flush_fileflows I q rs s2) (\<lambda>u s3. waits oid p s3))"
    if "waits oid p s1" for ff f s1
    by (rule wlp_conseq [OF free_waits Cons.IH]) (simp_all add: that writeFileFlow_def)
  then show ?case using Cons.prems waits_clock [of I s] x
    by (auto simp: deref_file_def Let_def split: option.split DataFlow.split prod.split)
qed simp

lemma flush_pfo_waits: "o1 \<noteq> oid \<Longrightarrow> waits oid p s \<Longrightarrow> waits oid p (flush_pfo I o1 q s)"
  using waits_clock [of I s] by (auto simp: flush_pfo_def writeProcessFlow_def Let_def split: option.split prod.split)

lemma clearAllProcesses_loop_waits:
  "waits oid p s \<Longrightarrow> oid \<in> set oids \<Longrightarrow> clearAllProcesses_loop I oids s = None"
proof (induction oids arbitrary: s)
  case (Cons o1 oids)
  show ?case
  proof (cases "o1 = oid")
    case True
    then show ?thesis using Cons.prems writeProcessAndAncestors_waits(2) [OF Cons.prems(1), of I]
      by (auto simp: waits_def stranded_def deref_proc_def)
  next
    case False
    have "wlp (clearAllProcesses_loop I (o1 # oids) s) (\<lambda>u s1. False)"
    proof -
      have e: "wlp (clearAllProcesses_loop I oids (flush_pfo I o1 q s1)) (\<lambda>u s1. False)" if "waits oid p s1" for q s1
        using Cons.IH [OF flush_pfo_waits [OF False that]] Cons.prems(2) False by simp
      have f: "wlp (flush_fileflows I q rs s1) (\<lambda>u s2. wlp (clearAllProcesses_loop I oids (flush_pfo I o1 q2 s2)) (\<lambda>u s1. False))"
        if "waits oid p s1" for q q2 rs s1
        by (rule wlp_conseq [OF flush_fileflows_waits [OF that]]) (rule e)
      let ?rest = "\<lambda>q s1. wlp (flush_netflows I (p_proc q) (map snd (netflows q)) s1) (\<lambda>u s2.
          wlp (flush_fileflows I (p_proc q) (map snd (fileflows q)) s2) (\<lambda>u s3.
            wlp (clearAllProcesses_loop I oids (flush_pfo I o1 q s3)) (\<lambda>u s1. False)))"
      have n: "wlp (deref_proc o1 s1) (\<lambda>q s2. ?rest q s2)" if "waits oid p s1" for s1
      proof (cases "find_proc s1 o1")
        case (Some q)
        have "?rest q s1" by (rule wlp_conseq [OF flush_netflows_waits [OF that]]) (rule f)
        then show ?thesis using Some by (simp add: deref_proc_def)
      qed (simp add: deref_proc_def)
      have w: "wlp (if b then writeProcessAndAncestors I o1 s else Some ((), s)) (\<lambda>u s1. wlp (deref_proc o1 s1) (\<lambda>q s2. ?rest q s2))" for b
        by (rule wlp_conseq [of _ "\<lambda>u s1. waits oid p s1"])
          (use writeProcessAndAncestors_waits(1) [OF Cons.prems(1)] Cons.prems(1) n in auto)
      show ?thesis
      proof (cases "find_proc s o1")
        case (Some q)
        then have "deref_proc o1 s = Some (q, s)" by (simp add: deref_proc_def)
        then show ?thesis using w by (simp only: clearAllProcesses_loop.simps wlp_bind wlp_Some split_conv)
      qed (simp add: deref_proc_def)
    qed
    then show ?thesis by (simp add: wlp_def split: option.splits)
  qed
qed simp

lemma stranded_undefined:
  assumes "find_proc s oid = Some p" and "stranded p"
  shows "SysFlowProcessor_delete I s = None"
proof -
  have "waits oid p (before_flush s)" using assms by (simp add: waits_def)
  moreover have "oid \<in> set (tbl_keys (m_procs (before_flush s)))" using assms(1) by auto
  ultimately have "clearAllProcesses I (before_flush s) = None"
    by (simp add: clearAllProcesses_def clearAllProcesses_loop_waits)
  then show ?thesis by (simp add: SysFlowProcessor_delete_alt)
qed

end
