(* ===== verification/Driver.thy ===== *)
theory Driver
  imports Shutdown
begin

text \<open>
  The program around the processor: the version of the schema, the driver class of the library and
  \<open>main\<close>, from the command line to the exit code.
\<close>

section \<open>The version of the schema\<close>

text \<open>
  The schema is a JSON document. Asking a value that is no object for a member, or an object for an
  element, throws (\<open>None\<close>); a number with a fraction is no \<open>int64\<close>.
\<close>

fun isMember :: "string \<Rightarrow> json \<Rightarrow> bool option" where
  "isMember k (JObj ms) = Some (map_of ms k \<noteq> None)"
| "isMember k JNull = Some False"
| "isMember k _ = None"

fun elements :: "json \<Rightarrow> json list option" where
  "elements (JArr js) = Some js"
| "elements (JObj ms) = (if ms = [] then Some [] else None)"
| "elements _ = Some []"

fun isInt64 :: "json \<Rightarrow> int option" where
  "isInt64 (JInt n) = (if - (2 ^ 63) \<le> n \<and> n < 2 ^ 63 then Some n else None)"
| "isInt64 _ = None"

text \<open>The tests of the loops: the value has the name, and a default of the type.\<close>

definition named :: "string \<Rightarrow> json \<Rightarrow> bool option" where
  "named n j = do {
     b \<leftarrow> isMember ''name'' j;
     if b then map_option (\<lambda>v. v = JStr n) (json_member j ''name'') else Some False
   }"

fun version_loop :: "json list \<Rightarrow> int option option" where
  "version_loop [] = Some None"
| "version_loop (j # js) = do {
     b \<leftarrow> named ''version'' j;
     if b then do {
       d \<leftarrow> isMember ''default'' j;
       v \<leftarrow> (if d then map_option isInt64 (json_member j ''default'') else Some None);
       (case v of Some n \<Rightarrow> Some (Some n) | None \<Rightarrow> version_loop js)
     } else version_loop js
   }"

fun header_loop :: "json list \<Rightarrow> int option option" where
  "header_loop [] = Some None"
| "header_loop (j # js) = do {
     b \<leftarrow> named ''SFHeader'' j;
     if b then do {
       d \<leftarrow> isMember ''fields'' j;
       if d then do {
         f \<leftarrow> json_member j ''fields'';
         fs \<leftarrow> elements f;
         version_loop fs
       } else Some None
     } else header_loop js
   }"

definition json_size :: "json \<Rightarrow> nat" where
  "json_size j = (case j of JArr js \<Rightarrow> length js | JObj ms \<Rightarrow> length ms | _ \<Rightarrow> 0)"

text \<open>\<open>getSchemaVersion\<close> on what the reader makes of the schema: \<open>-1\<close> when it cannot parse it or finds no version.\<close>

definition getSchemaVersion :: "json option \<Rightarrow> int option" where
  "getSchemaVersion parsed =
     (case parsed of
        None \<Rightarrow> Some (- 1)
      | Some root \<Rightarrow> do {
          b \<leftarrow> isMember ''fields'' root;
          f \<leftarrow> (if b then json_member root ''fields'' else Some JNull);
          if json_size f > 0 then do {
            fs \<leftarrow> elements f;
            t \<leftarrow> isMember ''type'' (hd fs);
            if t then do {
              ty \<leftarrow> json_member (hd fs) ''type'';
              types \<leftarrow> elements ty;
              r \<leftarrow> header_loop types;
              Some (case r of None \<Rightarrow> - 1 | Some v \<Rightarrow> v)
            } else Some (- 1)
          } else Some (- 1)
        })"

lemma version_loop_skips:
  "list_all (\<lambda>j. named ''version'' j = Some False) js \<Longrightarrow> version_loop (js @ ks) = version_loop ks"
  by (induction js) auto

lemma header_loop_skips:
  "list_all (\<lambda>j. named ''SFHeader'' j = Some False) js \<Longrightarrow> header_loop (js @ ks) = header_loop ks"
  by (induction js) auto

lemma version_loop_finds:
  assumes "map_of vm ''name'' = Some (JStr ''version'')" and "map_of vm ''default'' = Some (JInt v)"
    and "- (2 ^ 63) \<le> v" and "v < 2 ^ 63"
  shows "version_loop (JObj vm # js) = Some (Some v)"
  using assms by (simp add: named_def)

text \<open>C39: The version of the schema is the default of the first field \<open>version\<close> of the record \<open>SFHeader\<close>, whatever
  else the schema declares before and after it.\<close>

theorem schema_version_found:
  assumes "map_of rm ''fields'' = Some (JArr (JObj tm # rest))"
    and "map_of tm ''type'' = Some (JArr (pre @ JObj hm # post))"
    and "list_all (\<lambda>j. named ''SFHeader'' j = Some False) pre"
    and "map_of hm ''name'' = Some (JStr ''SFHeader'')"
    and "map_of hm ''fields'' = Some (JArr (fpre @ JObj vm # fpost))"
    and "list_all (\<lambda>j. named ''version'' j = Some False) fpre"
    and "map_of vm ''name'' = Some (JStr ''version'')" and "map_of vm ''default'' = Some (JInt v)"
    and "- (2 ^ 63) \<le> v" and "v < 2 ^ 63"
  shows "getSchemaVersion (Some (JObj rm)) = Some v"
proof -
  have "header_loop (pre @ JObj hm # post) = version_loop (fpre @ JObj vm # fpost)"
    using assms(4,5) by (simp add: header_loop_skips [OF assms(3)] named_def del: version_loop.simps)
  also have "\<dots> = Some (Some v)"
    by (simp add: version_loop_skips [OF assms(6)] version_loop_finds [OF assms(7-10)] del: version_loop.simps)
  finally show ?thesis using assms(1,2) by (simp add: getSchemaVersion_def json_size_def)
qed

definition version0 :: "(string \<times> json) list" where
  "version0 = [(''name'', JStr ''version''), (''type'', JStr ''long''), (''default'', JInt 4)]"

definition sfheader0 :: "(string \<times> json) list" where
  "sfheader0 = [(''type'', JStr ''record''), (''name'', JStr ''SFHeader''),
     (''fields'', JArr [JObj version0, JObj [(''name'', JStr ''exporter''), (''type'', JStr ''string'')]])]"

definition rec0 :: "(string \<times> json) list" where
  "rec0 = [(''name'', JStr ''rec''), (''type'', JArr [JObj [(''name'', JStr ''OID''), (''fields'', JArr [])], JObj sfheader0])]"

theorem schema_version_found_witness:
  "getSchemaVersion (Some (JObj [(''name'', JStr ''SysFlow''), (''fields'', JArr [JObj rec0])])) = Some 4"
  by (rule schema_version_found [where tm = rec0 and rest = "[]" and pre = "[JObj [(''name'', JStr ''OID''), (''fields'', JArr [])]]"
        and hm = sfheader0 and post = "[]" and fpre = "[]" and vm = version0
        and fpost = "[JObj [(''name'', JStr ''exporter''), (''type'', JStr ''string'')]]"])
    (simp_all add: rec0_def sfheader0_def version0_def named_def)

section \<open>The program\<close>

text \<open>
  What the program sees of the world: the environment, the probe's path, the kernel modules and the
  number of processors; the system calls the library needs and the exceptions it throws while it is
  set up; the library at the start, its answers, its last error and the library at the end; the
  schema, and the default size of the driver's buffer.
\<close>

record world =
  w_env :: env
  w_rpath :: "string \<Rightarrow> errno option"
  w_modules :: "string list option"
  w_cpus :: int
  w_state_sc :: "string set"
  w_throws :: "sinsp_call list \<Rightarrow> string option"
  w_dim :: int
  w_schema :: "json option"
  w_lib :: inspector
  w_inputs :: "(inspector \<times> bool \<times> scap_result) list"
  w_lasterr :: string
  w_end :: inspector

text \<open>
  The constructor of \<open>SysFlowDriver\<close>: the error of the context, an exception of the library with the
  code of its text, or the processor, \<open>None\<close> when it exits because no output is configured.
\<close>

definition SysFlowDriver_new :: "world \<Rightarrow> SysFlowConfig \<Rightarrow> (SysFlowError + sf option) option" where
  "SysFlowDriver_new W conf =
     (case SysFlowContext_new (w_env W) (w_rpath W) (w_modules W) (w_cpus W) conf of
        Inl e \<Rightarrow> Some (Inl e)
      | Inr cxt \<Rightarrow>
          (case first_throw (w_throws W) [] (SysFlowContext_calls (w_env W) (w_cpus W) (w_state_sc W) conf) of
             Some msg \<Rightarrow> Some (Inl (setErrorCode msg))
           | None \<Rightarrow> map_option (\<lambda>v. Inr (SysFlowProcessor_new (w_lib W) v cxt)) (getSchemaVersion (w_schema W))))"

text \<open>
  \<open>SysFlowDriver::run\<close>: an exception of the library becomes a \<open>SysFlowException\<close> with the code of its
  text. \<open>None\<close> as the first component when the answers end before the loop does.
\<close>

definition SysFlowDriver_run :: "world \<Rightarrow> sf \<Rightarrow> ((SysFlowError + int) option \<times> sf) option" where
  "SysFlowDriver_run W s = do {
     (c, s1) \<leftarrow> run (w_lib W) (w_inputs W) s;
     Some ((case c of
              Continue \<Rightarrow> None
            | Break \<Rightarrow> Some (Inr 0)
            | Throw \<Rightarrow> Some (Inl (setErrorCode (w_lasterr W)))), s1)
   }"

datatype ended = Running sf | Exited int "sf option"

text \<open>
  \<open>main\<close>: the driver is deleted only when the loop was left without an exception.
\<close>

definition main :: "world \<Rightarrow> string \<Rightarrow> opt list \<Rightarrow> ended option" where
  "main W argv0 opts =
     (case main_config (w_dim W) argv0 opts of
        Exit n \<Rightarrow> Some (Exited n None)
      | Go conf \<Rightarrow> do {
          d \<leftarrow> SysFlowDriver_new W conf;
          (case d of
             Inl e \<Rightarrow> Some (Exited 1 None)
           | Inr None \<Rightarrow> Some (Exited 1 None)
           | Inr (Some s) \<Rightarrow> do {
               (r, s1) \<leftarrow> SysFlowDriver_run W s;
               (case r of
                  None \<Rightarrow> Some (Running s1)
                | Some (Inl e) \<Rightarrow> Some (Exited 1 (Some s1))
                | Some (Inr ret) \<Rightarrow> do {
                    (u, s2) \<leftarrow> SysFlowProcessor_delete (w_end W) s1;
                    Some (Exited ret (Some s2))
                  })
             })
        })"

fun final_state :: "ended \<Rightarrow> sf option" where
  "final_state (Running s) = Some s"
| "final_state (Exited n st) = st"

lemma main_states:
  assumes "main W argv0 opts = Some e" and "final_state e = Some s"
  obtains cxt v s0 c s1 where "SysFlowProcessor_new (w_lib W) v cxt = Some s0"
    and "run (w_lib W) (w_inputs W) s0 = Some (c, s1)"
    and "s = s1 \<or> (c = Break \<and> e = Exited 0 (Some s) \<and> (\<exists>u. SysFlowProcessor_delete (w_end W) s1 = Some (u, s)))"
  using assms
  by (auto simp: main_def SysFlowDriver_new_def SysFlowDriver_run_def split: cli_result.splits sum.splits option.splits
      loop_result.splits bind_splits)

lemma delete_log: "linv s \<Longrightarrow> wlp (SysFlowProcessor_delete I s) (\<lambda>u s1. log_ok s1 \<and> m_procs s1 = [])"
proof -
  assume "linv s"
  then have "linv (before_flush s)"
    by (simp add: linv_def log_ok_def conts_logged_def files_logged_def procs_logged_def proc_ok_def owns_def)
  from clearAllProcesses_log [OF this] have l: "wlp (clearAllProcesses I (before_flush s)) (\<lambda>u s1. log_ok s1)" .
  have p: "wlp (clearAllProcesses I (before_flush s)) (\<lambda>u s1. m_procs s1 = [])"
    by (auto simp: clearAllProcesses_def intro!: wlpI split: bind_splits)
  show ?thesis
  proof (cases "clearAllProcesses I (before_flush s)")
    case (Some r)
    then show ?thesis using l p by (cases r) (simp add: SysFlowProcessor_delete_alt clearAllFiles_def)
  qed (simp add: SysFlowProcessor_delete_alt)
qed

end
