(* ===== verification/Callback.thy ===== *)
theory Callback
  imports Driver
begin

text \<open>
  The example of the library's callback interface, \<open>examples/callback.cpp\<close>: a program that prints
  every flow and event it is handed. Modelled is what it prints, line by line; a null pointer it
  follows has no result. What the collector guarantees of the calls is the part \<open>callback_ok\<close> of the
  invariant of the output.
\<close>

section \<open>Printed values\<close>

text \<open>The conversions \<open>%d\<close>, \<open>%lu\<close> and \<open>%s\<close> of \<open>printf\<close>.\<close>

definition fmt_d :: "int \<Rightarrow> string" where
  "fmt_d i = to_string (sint (word_of_int i :: 32 word))"

definition fmt_lu :: "int \<Rightarrow> string" where
  "fmt_lu i = to_string (uint (word_of_int i :: 64 word))"

definition fmt_s :: "string \<Rightarrow> string" where
  "fmt_s cs = takeWhile (\<lambda>c. c \<noteq> CHR 0x00) cs"

definition fmt_flags :: "32 word \<Rightarrow> string" where
  "fmt_flags w = to_string (sint w)"

definition star_line :: string where
  "star_line = replicate 64 (CHR ''*'')"

section \<open>The callback\<close>

definition printFile :: "SFFile \<Rightarrow> string" where
  "printFile f = ''File: Type '' @ fmt_d (of_char (file_restype f)) @ '', Path '' @ fmt_s (file_path f)"

definition printHeader :: "SFHeader \<Rightarrow> string" where
  "printHeader h = ''Header: Exporter '' @ fmt_s (h_exporter h) @ '', IP '' @ fmt_s (h_ip h) @ '', File name '' @ fmt_s (h_filename h)"

definition printContainer :: "Container \<Rightarrow> string" where
  "printContainer c =
     ''Container: Id '' @ fmt_s (cont_id c) @ '', Name '' @ fmt_s (cont_name c) @ '', Image '' @ fmt_s (cont_image c) @
     '', ImageId '' @ fmt_s (cont_imageid c) @ '', Type, '' @ fmt_d (cont_type c)"

definition printProcess :: "Process \<Rightarrow> string" where
  "printProcess p =
     ''Process: PID '' @ fmt_lu (hpid (proc_oid p)) @ '' Creation Time, '' @ fmt_lu (createTS (proc_oid p)) @
     '', Exe '' @ fmt_s (proc_exe p) @ '', Exe Args '' @ fmt_s (proc_exeArgs p) @ '', User Name '' @ fmt_s (proc_userName p) @
     '', Group Name '' @ fmt_s (proc_groupName p) @ '', TTY '' @ fmt_d (proc_tty p)"

text \<open>The switch over the kind of the record; \<open>idx\<close> is its index in the generated union.\<close>

fun printRecord :: "(sfrec \<Rightarrow> int) \<Rightarrow> sfrec \<Rightarrow> string list" where
  "printRecord idx (R_ProcessEvent pe) =
     [''Proc Evt: TID '' @ fmt_lu (pe_tid pe) @ '', OpFlags '' @ fmt_flags (pe_opFlags pe) @ '', Ret '' @ fmt_d (pe_ret pe)]"
| "printRecord idx (R_NetworkFlow nf) =
     [''Network Flow: TID '' @ fmt_lu (nf_tid nf) @ '', OpFlags: '' @ fmt_flags (nf_opFlags nf) @ '', SIP '' @ fmt_flags (nf_sip nf) @
      '', SPort '' @ fmt_flags (nf_sport nf) @ '', DIP '' @ fmt_flags (nf_dip nf) @ '', DPort '' @ fmt_flags (nf_dport nf)]"
| "printRecord idx (R_FileFlow ff) =
     [''File Flow: TID '' @ fmt_lu (ff_tid ff) @ '', OpFlags: '' @ fmt_flags (ff_opFlags ff) @
      '', OpenFlags '' @ fmt_flags (ff_openFlags ff) @ '', FD '' @ fmt_flags (ff_fd ff)]"
| "printRecord idx (R_FileEvent fe) =
     [''File Flow: TID '' @ fmt_lu (fe_tid fe) @ '', OpFlags: '' @ fmt_flags (fe_opFlags fe) @ '', Ret '' @ fmt_d (fe_ret fe)]"
| "printRecord idx (R_ProcessFlow pf) = [''Proc Flow received'']"
| "printRecord idx r = [''Received unexpected flow type '' @ fmt_lu (idx r)]"

text \<open>The process is read without a test for null.\<close>

definition process_sysflow ::
  "(sfrec \<Rightarrow> int) \<Rightarrow> SFHeader \<times> Container option \<times> Process option \<times> SFFile option \<times> SFFile option \<times> sfrec \<Rightarrow> string list option" where
  "process_sysflow idx x = (case x of (header, cont, proc, f1, f2, flow) \<Rightarrow>
     (case proc of
        None \<Rightarrow> None
      | Some p \<Rightarrow>
          Some ([star_line, printHeader header] @
                (case cont of None \<Rightarrow> [] | Some c \<Rightarrow> [printContainer c]) @
                [printProcess p] @
                (case f1 of None \<Rightarrow> [] | Some f \<Rightarrow> [printFile f]) @
                (case f2 of None \<Rightarrow> [] | Some f \<Rightarrow> [printFile f]) @
                printRecord idx flow @ [star_line])))"

section \<open>The program\<close>

definition example_config :: "int \<Rightarrow> string list \<Rightarrow> SysFlowConfig cli_result" where
  "example_config dim args =
     (let c = (InitializeSysFlowConfig dim)\<lparr>callback := True\<rparr> in
      if args \<noteq> [] \<and> hd args = ''k'' then Go (c\<lparr>driverType := KMOD\<rparr>)
      else if args \<noteq> [] \<and> hd args = ''e'' then Go (c\<lparr>driverType := EBPF\<rparr>)
      else if args \<noteq> [] \<and> hd args = ''c'' then Go (c\<lparr>driverType := CORE_EBPF\<rparr>)
      else Exit 1)"

fun callback_calls ::
  "writer \<Rightarrow> (SFHeader \<times> Container option \<times> Process option \<times> SFFile option \<times> SFFile option \<times> sfrec) list" where
  "callback_calls (CallbackW w) = cb_calls w"
| "callback_calls w = []"

text \<open>
  \<open>main\<close> of the example: the exit code and the lines printed. No exception is caught; the callback has
  to return from every call. An answer list that ends before the loop does counts as a run that was
  stopped there.
\<close>

definition example_main :: "world \<Rightarrow> (sfrec \<Rightarrow> int) \<Rightarrow> string list \<Rightarrow> (int \<times> string list) option" where
  "example_main W idx args =
     (case example_config (w_dim W) args of
        Exit n \<Rightarrow> Some (n, [''Please specify the driver type: ./callback <drivertype>'',
                           ''k = kernel module, e = ebpf module, c = core epbf probe''])
      | Go conf \<Rightarrow> do {
          d \<leftarrow> SysFlowDriver_new W conf;
          (case d of
             Inl e \<Rightarrow> None
           | Inr None \<Rightarrow> Some (1, [])
           | Inr (Some s) \<Rightarrow> do {
               (r, s1) \<leftarrow> SysFlowDriver_run W s;
               s2 \<leftarrow> (case r of
                       None \<Rightarrow> Some s1
                     | Some (Inl e) \<Rightarrow> None
                     | Some (Inr ret) \<Rightarrow> map_option snd (SysFlowProcessor_delete (w_end W) s1));
               out \<leftarrow> those (map (process_sysflow idx) (callback_calls (m_writer s2)));
               Some (0, concat out)
             })
        })"

section \<open>What the callback can rely on\<close>

lemma process_sysflow_event: "call_ok x \<Longrightarrow> is_event (snd (snd (snd (snd (snd x))))) \<Longrightarrow> process_sysflow idx x \<noteq> None"
  by (auto simp: call_ok_def process_sysflow_def split: prod.splits)

lemma reach_calls: "reach s \<Longrightarrow> list_all call_ok (callback_calls (m_writer s))"
  using reach_linv [of s] by (cases "m_writer s") (simp_all add: linv_def log_ok_def)

end
