(* ===== verification/Memory.thy ===== *)
theory Memory
  imports LogRun
begin

text \<open>
  The memory of the data flows. A flow is shared: the table of its process points to it and so does
  the ordered set of pending flows. The theory states when the two agree, so that no pointer
  dangles and no flow is lost, and shows it for the operations on flows. An operation may take a
  flow out of one of the two before the other; the invariant has the flows that are in between as
  parameters.
\<close>

section \<open>The invariant\<close>

text \<open>What identifies a flow: its process and its key in the table of the process.\<close>

datatype flow_id = NId OID NFKey | FId OID string

fun ident :: "DataFlow \<Rightarrow> flow_id" where
  "ident (Net n) = NId (nf_procOID (netflow n)) (canonicalizeKey (netflow n))"
| "ident (Fil f) = FId (ff_procOID (fileflow f)) (flowkey f)"

text \<open>The tables of a process, empty for a process that is not known, and a search in them.\<close>

definition tabs :: "sf \<Rightarrow> OID \<Rightarrow> (NFKey, ref) table \<times> (string, ref) table" where
  "tabs s oid = (case find_proc s oid of None \<Rightarrow> ([], []) | Some p \<Rightarrow> (netflows p, fileflows p))"

fun slot :: "(OID \<Rightarrow> (NFKey, ref) table \<times> (string, ref) table) \<Rightarrow> flow_id \<Rightarrow> ref option" where
  "slot t (NId oid k) = map_of (fst (t oid)) k"
| "slot t (FId oid k) = map_of (snd (t oid)) k"

text \<open>
  The flows \<open>R\<close> are in no table and the flows \<open>D\<close> not in the set; every other flow is in both, and
  nothing else is.
\<close>

definition hinv :: "ref set \<Rightarrow> ref set \<Rightarrow> sf \<Rightarrow> bool" where
  "hinv R D s =
     (distinct (m_dfSet s) \<and> set (m_dfSet s) = dom (heap s) - D \<and> (\<forall>r \<in> dom (heap s). r < nextref s) \<and>
      sorted (map (df_key s) (m_dfSet s)) \<and> R \<subseteq> dom (heap s) \<and> D \<subseteq> dom (heap s) \<and>
      (\<forall>r1 r2 d1 d2. heap s r1 = Some d1 \<longrightarrow> heap s r2 = Some d2 \<longrightarrow> ident d1 = ident d2 \<longrightarrow> r1 = r2) \<and>
      (\<forall>i r. slot (tabs s) i = Some r \<longleftrightarrow> r \<notin> R \<and> (\<exists>d. heap s r = Some d \<and> ident d = i)) \<and>
      (\<forall>oid. tbl_ok (fst (tabs s oid)) \<and> tbl_ok (snd (tabs s oid))))"

text \<open>What the invariant depends on.\<close>

definition mem :: "sf \<Rightarrow> (ref \<Rightarrow> DataFlow option) \<times> ref list \<times> ref \<times> (OID \<Rightarrow> (NFKey, ref) table \<times> (string, ref) table)" where
  "mem s = (heap s, m_dfSet s, nextref s, tabs s)"

lemma hinv_mem: "mem s1 = mem s \<Longrightarrow> hinv R D s1 = hinv R D s"
proof -
  assume m: "mem s1 = mem s"
  then have "df_key s1 = df_key s" by (simp add: mem_def df_key_def fun_eq_iff)
  then show ?thesis using m by (simp add: mem_def hinv_def)
qed

lemma mem_core: "core s1 = core s \<Longrightarrow> mem s1 = mem s"
  using core_fields [of s1 s] by (simp add: mem_def tabs_def fun_eq_iff)

lemma hinvD:
  assumes "hinv R D s"
  shows "distinct (m_dfSet s)" "set (m_dfSet s) = dom (heap s) - D" "sorted (map (df_key s) (m_dfSet s))"
    "\<And>r d. heap s r = Some d \<Longrightarrow> r < nextref s" "R \<subseteq> dom (heap s)" "D \<subseteq> dom (heap s)"
    "\<And>r1 r2 d1 d2. heap s r1 = Some d1 \<Longrightarrow> heap s r2 = Some d2 \<Longrightarrow> ident d1 = ident d2 \<Longrightarrow> r1 = r2"
    "\<And>i r. slot (tabs s) i = Some r \<longleftrightarrow> r \<notin> R \<and> (\<exists>d. heap s r = Some d \<and> ident d = i)"
    "\<And>oid. tbl_ok (fst (tabs s oid))" "\<And>oid. tbl_ok (snd (tabs s oid))"
  using assms unfolding hinv_def by (auto simp: dom_def)

lemma hinvI:
  assumes "distinct (m_dfSet s)" "set (m_dfSet s) = dom (heap s) - D" "sorted (map (df_key s) (m_dfSet s))"
    "\<And>r d. heap s r = Some d \<Longrightarrow> r < nextref s" "R \<subseteq> dom (heap s)" "D \<subseteq> dom (heap s)"
    "\<And>r1 r2 d1 d2. heap s r1 = Some d1 \<Longrightarrow> heap s r2 = Some d2 \<Longrightarrow> ident d1 = ident d2 \<Longrightarrow> r1 = r2"
    "\<And>i r. slot (tabs s) i = Some r \<longleftrightarrow> r \<notin> R \<and> (\<exists>d. heap s r = Some d \<and> ident d = i)"
    "\<And>oid. tbl_ok (fst (tabs s oid))" "\<And>oid. tbl_ok (snd (tabs s oid))"
  shows "hinv R D s"
  using assms(1-3,5,6,9,10) unfolding hinv_def
  by (intro conjI allI impI ballI) (auto intro: assms(4) assms(7) simp: assms(8))

section \<open>Frames\<close>

lemma mem_upd [simp]:
  "mem (s\<lparr>reads := n\<rparr>) = mem s" "mem (s\<lparr>m_files := x\<rparr>) = mem s" "mem (s\<lparr>m_containers := x1\<rparr>) = mem s"
  "mem (s\<lparr>m_pods := x2\<rparr>) = mem s" "mem (s\<lparr>m_exit := b\<rparr>) = mem s" "mem (s\<lparr>timeStamp := t\<rparr>) = mem s"
  "mem (s\<lparr>df_lastCheck := t\<rparr>) = mem s" "mem (s\<lparr>cf_lastCheck := t\<rparr>) = mem s" "mem (s\<lparr>m_pfSet := q\<rparr>) = mem s"
  "mem (s\<lparr>m_delProcQue := q1\<rparr>) = mem s" "mem (s\<lparr>m_delProcTime := t\<rparr>) = mem s" "mem (s\<lparr>m_statsTime := t\<rparr>) = mem s"
  "mem (s\<lparr>m_uid := u\<rparr>) = mem s" "mem (s\<lparr>m_k8sEvt := e\<rparr>) = mem s" "mem (s\<lparr>trace := tr\<rparr>) = mem s" "mem (s\<lparr>m_writer := w\<rparr>) = mem s"
  by (simp_all add: mem_def tabs_def fun_eq_iff)

lemma mem_emit [simp]: "mem (emit I c s) = mem s"
  by (rule mem_core) simp

lemma mem_clock:
  "getCurrentTime I s = (t, s1) \<Longrightarrow> mem s1 = mem s" "getSinspTime I s = (t, s1) \<Longrightarrow> mem s1 = mem s"
  by (auto simp: getCurrentTime_def getSinspTime_def split: if_splits)

lemma mem_fstep: "fstep s s1 \<Longrightarrow> mem s1 = mem s"
  by (rule mem_core) (simp add: fstep_def)

lemma tabs_put: "tabs (put_proc oid p s) = (tabs s)(oid := (netflows p, fileflows p))"
  by (auto simp: tabs_def fun_eq_iff)

text \<open>A process object is replaced by one with the same tables.\<close>

lemma mem_put:
  "tabs s oid = (netflows p, fileflows p) \<Longrightarrow> mem (put_proc oid p s) = mem s"
  by (simp add: mem_def tabs_put fun_upd_idem)

lemma tabs_find: "find_proc s oid = Some p \<Longrightarrow> tabs s oid = (netflows p, fileflows p)"
  by (simp add: tabs_def)

lemma mem_upd_proc:
  assumes "\<And>p. netflows (f p) = netflows p \<and> fileflows (f p) = fileflows p"
  shows "wlp (upd_proc oid f s) (\<lambda>u s1. mem s1 = mem s)"
  using assms by (auto simp: upd_proc_def tabs_find mem_put intro!: wlpI)

section \<open>The primitive steps\<close>

text \<open>A flow is changed in place and keeps what the table and the set know it by.\<close>

lemma hinv_put:
  assumes "hinv R D s" and r: "heap s r = Some d" and same: "ident d1 = ident d" "df_exportTime d1 = df_exportTime d \<or> r \<in> D"
  shows "hinv R D (put_flow r d1 s)"
proof -
  note h = hinvD [OF assms(1)]
  let ?s = "put_flow r d1 s"
  have f: "m_dfSet ?s = m_dfSet s" "nextref ?s = nextref s" "tabs ?s = tabs s" "heap ?s = (heap s)(r \<mapsto> d1)" "dom (heap ?s) = dom (heap s)"
    using r by (auto simp: put_flow_def tabs_def fun_eq_iff)
  have "df_key ?s x = df_key s x" if "x \<in> set (m_dfSet s)" for x using that r same(2) h(2) by (auto simp: df_key_def f)
  then have "map (df_key ?s) (m_dfSet s) = map (df_key s) (m_dfSet s)" by (intro map_cong) auto
  then have k: "sorted (map (df_key ?s) (m_dfSet s))" by (rule ssubst) (rule h(3))
  have i: "(\<exists>d. heap ?s x = Some d \<and> ident d = j) \<longleftrightarrow> (\<exists>d. heap s x = Some d \<and> ident d = j)" for x j
    using r same(1) by (auto simp: f)
  show ?thesis
  proof (rule hinvI)
    show "r1 = r2" if "heap ?s r1 = Some a" "heap ?s r2 = Some b" "ident a = ident b" for r1 r2 a b
      using that i [of r1 "ident a"] i [of r2 "ident b"] h(7) by metis
    show "x < nextref ?s" if "heap ?s x = Some a" for x a using that h(4) r by (auto simp: f split: if_splits)
    have "insert r (dom (heap s)) = dom (heap s)" using r by auto
    then show "set (m_dfSet ?s) = dom (heap ?s) - D" "R \<subseteq> dom (heap ?s)" "D \<subseteq> dom (heap ?s)" using h by (simp_all add: f)
    show "slot (tabs ?s) j = Some x \<longleftrightarrow> x \<notin> R \<and> (\<exists>d. heap ?s x = Some d \<and> ident d = j)" for j x
      unfolding i f(3) by (rule h(8))
  qed (use h in \<open>simp_all add: f k\<close>)
qed

text \<open>Slots of the tables are emptied, or one is filled.\<close>

lemma hinv_detach:
  assumes "hinv R D s" and f: "heap s1 = heap s" "m_dfSet s1 = m_dfSet s" "nextref s1 = nextref s"
    and t: "\<And>i. slot (tabs s1) i = (if i \<in> X then None else slot (tabs s) i)"
    and ok: "\<And>oid. tbl_ok (fst (tabs s1 oid))" "\<And>oid. tbl_ok (snd (tabs s1 oid))"
  shows "hinv (R \<union> {r. \<exists>i \<in> X. slot (tabs s) i = Some r}) D s1"
proof -
  note h = hinvD [OF assms(1)]
  have k: "df_key s1 = df_key s" by (simp add: df_key_def f fun_eq_iff)
  show ?thesis
  proof (rule hinvI)
    show "R \<union> {r. \<exists>i\<in>X. slot (tabs s) i = Some r} \<subseteq> dom (heap s1)" using h(5,8) by (auto simp: f)
    show "slot (tabs s1) i = Some r \<longleftrightarrow> r \<notin> R \<union> {r. \<exists>i\<in>X. slot (tabs s) i = Some r} \<and> (\<exists>d. heap s1 r = Some d \<and> ident d = i)" for i r
      using h(8) by (auto simp: t f)
  qed (use h ok in \<open>simp_all add: f k\<close>)
qed

lemma hinv_attach:
  assumes "hinv R D s" and f: "heap s1 = heap s" "m_dfSet s1 = m_dfSet s" "nextref s1 = nextref s"
    and r: "r \<in> R" "heap s r = Some d"
    and t: "\<And>i. slot (tabs s1) i = (if i = ident d then Some r else slot (tabs s) i)"
    and ok: "\<And>oid. tbl_ok (fst (tabs s1 oid))" "\<And>oid. tbl_ok (snd (tabs s1 oid))"
  shows "hinv (R - {r}) D s1"
proof -
  note h = hinvD [OF assms(1)]
  have k: "df_key s1 = df_key s" by (simp add: df_key_def f fun_eq_iff)
  show ?thesis
  proof (rule hinvI)
    show "slot (tabs s1) i = Some x \<longleftrightarrow> x \<notin> R - {r} \<and> (\<exists>d. heap s1 x = Some d \<and> ident d = i)" for i x
      using h(7,8) r by (auto simp: t f)
    show "R - {r} \<subseteq> dom (heap s1)" using h(5) by (auto simp: f)
  qed (use h ok in \<open>simp_all add: f k\<close>)
qed

text \<open>A flow leaves the set, or joins it.\<close>

lemma hinv_unset:
  assumes "hinv R D s" and "heap s r = Some d"
  shows "hinv R (insert r D) (s\<lparr>m_dfSet := remove1 r (m_dfSet s)\<rparr>)"
proof -
  note h = hinvD [OF assms(1)]
  let ?s = "s\<lparr>m_dfSet := remove1 r (m_dfSet s)\<rparr>"
  have f: "tabs ?s = tabs s" "df_key ?s = df_key s" by (auto simp: tabs_def df_key_def fun_eq_iff)
  show ?thesis
  proof (rule hinvI)
    show "set (m_dfSet ?s) = dom (heap ?s) - insert r D" using h(1,2) by (auto simp: set_remove1_eq)
    show "sorted (map (df_key ?s) (m_dfSet ?s))" using h(3) by (simp add: f sorted_remove1_map)
    show "insert r D \<subseteq> dom (heap ?s)" using h(6) assms(2) by auto
  qed (use h in \<open>simp_all add: f\<close>)
qed

lemma dfset_insert_hinv:
  assumes "hinv R D s" and "r \<in> D"
  shows "wp (dfset_insert r s) (\<lambda>u s1. hinv R (D - {r}) s1 \<and> m_procs s1 = m_procs s \<and> m_delProcQue s1 = m_delProcQue s)"
proof -
  note h = hinvD [OF assms(1)]
  let ?s = "s\<lparr>m_dfSet := ms_insert (df_key s) r (m_dfSet s)\<rparr>"
  have f: "tabs ?s = tabs s" "df_key ?s = df_key s" by (auto simp: tabs_def df_key_def fun_eq_iff)
  have "hinv R (D - {r}) ?s"
  proof (rule hinvI)
    show "distinct (m_dfSet ?s)" using h(1,2) assms(2) by simp
    show "set (m_dfSet ?s) = dom (heap ?s) - (D - {r})" using h(2,6) assms(2) by auto
    show "sorted (map (df_key ?s) (m_dfSet ?s))" using h(3) by (simp add: f sorted_ms_insert)
  qed (use h in \<open>auto simp: f\<close>)
  moreover have "df_live s (r # m_dfSet s)" using h(2,6) assms(2) by (auto simp: df_live_def list_all_iff)
  ultimately show ?thesis by (simp add: dfset_insert_def)
qed

text \<open>Memory is given back and allocated.\<close>

lemma free_hinv:
  assumes "hinv R D s" and "r \<in> R" and "r \<in> D"
  shows "free r s = Some ((), s\<lparr>heap := (heap s)(r := None)\<rparr>)" "hinv (R - {r}) (D - {r}) (s\<lparr>heap := (heap s)(r := None)\<rparr>)"
proof -
  note h = hinvD [OF assms(1)]
  let ?s = "s\<lparr>heap := (heap s)(r := None)\<rparr>"
  have f: "tabs ?s = tabs s" by (auto simp: tabs_def fun_eq_iff)
  have k: "df_key ?s x = df_key s x" if "x \<noteq> r" for x using that by (simp add: df_key_def)
  show "free r s = Some ((), ?s)" using h(5) assms(2) by (auto simp: free_def split: option.split)
  show "hinv (R - {r}) (D - {r}) ?s"
  proof (rule hinvI)
    show "set (m_dfSet ?s) = dom (heap ?s) - (D - {r})" using h(2) assms(3) by auto
    have "map (df_key ?s) (m_dfSet s) = map (df_key s) (m_dfSet s)" using h(2) assms(3) by (intro map_cong) (auto intro!: k)
    then have "sorted (map (df_key ?s) (m_dfSet s))" by (rule ssubst) (rule h(3))
    then show "sorted (map (df_key ?s) (m_dfSet ?s))" by simp
    show "slot (tabs ?s) i = Some x \<longleftrightarrow> x \<notin> R - {r} \<and> (\<exists>d. heap ?s x = Some d \<and> ident d = i)" for i x
      using h(8) assms(2) by (auto simp: f)
    show "x = y" if "heap ?s x = Some a" "heap ?s y = Some b" "ident a = ident b" for x y a b
      using that h(7) by (auto split: if_splits)
    show "x < nextref ?s" if "heap ?s x = Some a" for x a using that h(4) by (auto split: if_splits)
  qed (use h in \<open>auto simp: f\<close>)
qed

lemma alloc_hinv:
  assumes "hinv R D s" and fresh: "\<And>x e. heap s x = Some e \<Longrightarrow> ident e \<noteq> ident d" and a: "alloc d s = (r, s1)"
  shows "hinv (insert r R) (insert r D) s1" "heap s1 r = Some d" "tabs s1 = tabs s" "r = nextref s" "m_procs s1 = m_procs s"
proof -
  note h = hinvD [OF assms(1)]
  have s1: "s1 = s\<lparr>heap := (heap s)(r \<mapsto> d), nextref := Suc r\<rparr>" "r = nextref s" using a by (auto simp: alloc_def)
  have f: "tabs s1 = tabs s" by (auto simp: s1 tabs_def fun_eq_iff)
  have new: "heap s r = None" "heap s x = Some e \<Longrightarrow> x \<noteq> r" for x e using h(4) [of r] h(4) [of x e] s1(2) by (cases "heap s r"; auto)+
  have k: "df_key s1 x = df_key s x" if "x \<noteq> r" for x using that by (simp add: df_key_def s1)
  show "tabs s1 = tabs s" "r = nextref s" "heap s1 r = Some d" "m_procs s1 = m_procs s" using f s1 by simp_all
  show "hinv (insert r R) (insert r D) s1"
  proof (rule hinvI)
    have notin: "r \<notin> set (m_dfSet s)" using h(2) new by auto
    show "set (m_dfSet s1) = dom (heap s1) - insert r D" using h(2) notin by (auto simp: s1(1))
    have "map (df_key s1) (m_dfSet s) = map (df_key s) (m_dfSet s)" using notin by (intro map_cong) (auto intro!: k)
    then have "sorted (map (df_key s1) (m_dfSet s))" by (rule ssubst) (rule h(3))
    then show "sorted (map (df_key s1) (m_dfSet s1))" by (simp add: s1(1))
    show "slot (tabs s1) i = Some x \<longleftrightarrow> x \<notin> insert r R \<and> (\<exists>d. heap s1 x = Some d \<and> ident d = i)" for i x
      unfolding f h(8) using new by (auto simp: s1(1))
    show "x = y" if "heap s1 x = Some a" "heap s1 y = Some b" "ident a = ident b" for x y a b
      using that h(7) fresh by (auto simp: s1(1) split: if_splits) (metis fresh)
    show "x < nextref s1" if "heap s1 x = Some a" for x a using that h(4) s1(2) by (fastforce simp: s1(1) split: if_splits)
  qed (use h in \<open>auto simp: s1(1) tabs_def\<close>)
qed

section \<open>Steps on the tables and on the set\<close>

lemma hinv_live: "hinv R D s \<Longrightarrow> heap s r = Some d \<Longrightarrow> df_live s (r # m_dfSet s)"
  using hinvD(2) [of R D s] by (auto simp: df_live_def list_all_iff)

text \<open>The search by value in the set finds the flow that is sought, since no other has its identity.\<close>

lemma set_remove:
  assumes "hinv R D s" and r: "heap s r = Some d" "same r"
    and same: "\<And>x. same x \<Longrightarrow> \<exists>e. heap s x = Some e \<and> ident e = ident d"
  shows "ms_remove (df_key s) same r (m_dfSet s) = (r \<in> set (m_dfSet s), remove1 r (m_dfSet s))"
proof (rule ms_remove_unique)
  show "same x \<longleftrightarrow> x = r" for x using r same [of x] hinvD(7) [OF assms(1)] by auto
qed (rule hinvD(3) [OF assms(1)])

lemma slot_put:
  "slot (tabs (put_proc oid q s)) (NId o1 k) = (if o1 = oid then map_of (netflows q) k else slot (tabs s) (NId o1 k))"
  "slot (tabs (put_proc oid q s)) (FId o1 k2) = (if o1 = oid then map_of (fileflows q) k2 else slot (tabs s) (FId o1 k2))"
  by (simp_all add: tabs_put)

lemma slot_find:
  assumes "find_proc s oid = Some p"
  shows "slot (tabs s) (NId oid k) = map_of (netflows p) k" "slot (tabs s) (FId oid k2) = map_of (fileflows p) k2"
  using tabs_find [OF assms] by simp_all

lemma put_proc_mem [simp]:
  "heap (put_proc oid q s) = heap s" "m_dfSet (put_proc oid q s) = m_dfSet s" "nextref (put_proc oid q s) = nextref s"
  "m_delProcQue (put_proc oid q s) = m_delProcQue s"
  by (simp_all add: put_proc_def)

lemma hinv_tbl_ok:
  assumes "hinv R D s" and "find_proc s oid = Some p"
  shows "tbl_ok (netflows p)" "tbl_ok (fileflows p)"
  using hinvD(9,10) [OF assms(1), of oid] tabs_find [OF assms(2)] by simp_all

lemma tabs_put_ok:
  assumes "hinv R D s" and "tbl_ok (netflows q)" and "tbl_ok (fileflows q)"
  shows "tbl_ok (fst (tabs (put_proc oid q s) o1))" "tbl_ok (snd (tabs (put_proc oid q s) o1))"
  using hinvD(9,10) [OF assms(1), of o1] assms(2,3) by (simp_all add: tabs_put)

text \<open>A table of a process is cut down: the flows cut are in no table.\<close>

lemma hinv_cut:
  assumes "hinv R D s" and p: "find_proc s oid = Some p" and "tbl_ok (netflows q)" and "tbl_ok (fileflows q)"
    and n: "\<And>k. map_of (netflows q) k = (if k \<in> K then None else map_of (netflows p) k)"
    and f: "\<And>k. map_of (fileflows q) k = (if k \<in> L then None else map_of (fileflows p) k)"
  shows "hinv (R \<union> {r. (\<exists>k \<in> K. map_of (netflows p) k = Some r) \<or> (\<exists>k \<in> L. map_of (fileflows p) k = Some r)}) D (put_proc oid q s)"
proof -
  let ?X = "NId oid ` K \<union> FId oid ` L"
  have "hinv (R \<union> {r. \<exists>i \<in> ?X. slot (tabs s) i = Some r}) D (put_proc oid q s)"
  proof (rule hinv_detach [OF assms(1) _ _ _ _ tabs_put_ok [OF assms(1,3,4)]])
    show "slot (tabs (put_proc oid q s)) i = (if i \<in> ?X then None else slot (tabs s) i)" for i
      by (cases i) (auto simp: slot_put slot_find [OF p] n f simp del: slot.simps)
  qed simp_all
  moreover have "{r. \<exists>i \<in> ?X. slot (tabs s) i = Some r} =
      {r. (\<exists>k \<in> K. map_of (netflows p) k = Some r) \<or> (\<exists>k \<in> L. map_of (fileflows p) k = Some r)}"
    unfolding bex_Un bex_simps(7) slot_find [OF p] ..
  ultimately show ?thesis by simp
qed

text \<open>What a table holds, seen from the heap.\<close>

lemma hinv_slot:
  assumes "hinv R D s" and "heap s r = Some d" and "r \<notin> R"
  shows "slot (tabs s) (ident d) = Some r"
  using hinvD(8) [OF assms(1)] assms(2,3) by simp

lemma hinv_table:
  assumes "hinv R D s" and p: "find_proc s oid = Some p"
  shows "map_of (netflows p) k = Some r \<Longrightarrow> \<exists>n. heap s r = Some (Net n) \<and> nf_procOID (netflow n) = oid \<and> canonicalizeKey (netflow n) = k \<and> r \<notin> R"
    and "map_of (fileflows p) k2 = Some r2 \<Longrightarrow> \<exists>f. heap s r2 = Some (Fil f) \<and> ff_procOID (fileflow f) = oid \<and> flowkey f = k2 \<and> r2 \<notin> R"
proof -
  assume "map_of (netflows p) k = Some r"
  then obtain d where "heap s r = Some d" "ident d = NId oid k" "r \<notin> R"
    using hinvD(8) [OF assms(1), of "NId oid k" r] slot_find(1) [OF p, of k] by auto
  then show "\<exists>n. heap s r = Some (Net n) \<and> nf_procOID (netflow n) = oid \<and> canonicalizeKey (netflow n) = k \<and> r \<notin> R" by (cases d) auto
next
  assume "map_of (fileflows p) k2 = Some r2"
  then obtain d where "heap s r2 = Some d" "ident d = FId oid k2" "r2 \<notin> R"
    using hinvD(8) [OF assms(1), of "FId oid k2" r2] slot_find(2) [OF p, of k2] by auto
  then show "\<exists>f. heap s r2 = Some (Fil f) \<and> ff_procOID (fileflow f) = oid \<and> flowkey f = k2 \<and> r2 \<notin> R" by (cases d) auto
qed

text \<open>A flow that is in a table has its process.\<close>

lemma slot_proc: "slot (tabs s) (NId oid k) = Some r \<Longrightarrow> \<exists>p. find_proc s oid = Some p"
  "slot (tabs s) (FId oid k2) = Some r \<Longrightarrow> \<exists>p. find_proc s oid = Some p"
  by (auto simp: tabs_def split: option.splits)

declare slot.simps [simp del]

section \<open>Flows only go\<close>

definition fewer :: "sf \<Rightarrow> sf \<Rightarrow> bool" where
  "fewer s s1 = ((\<forall>oid. map_option p_proc (find_proc s1 oid) = map_option p_proc (find_proc s oid)) \<and>
     (\<forall>i r. slot (tabs s1) i = Some r \<longrightarrow> slot (tabs s) i = Some r) \<and> m_delProcQue s1 = m_delProcQue s)"

lemma fewer_refl [simp]: "fewer s s"
  by (simp add: fewer_def)

lemma fewer_trans: "fewer s s1 \<Longrightarrow> fewer s1 s2 \<Longrightarrow> fewer s s2"
  by (simp add: fewer_def)

lemma tabs_upd [simp]:
  "tabs (s\<lparr>heap := h\<rparr>) = tabs s" "tabs (s\<lparr>m_dfSet := d\<rparr>) = tabs s" "tabs (s\<lparr>m_files := f\<rparr>) = tabs s" "tabs (s\<lparr>reads := n\<rparr>) = tabs s"
  by (simp_all add: tabs_def fun_eq_iff)

lemma fewer_upd [simp]:
  "fewer s (s1\<lparr>heap := h\<rparr>) = fewer s s1" "fewer s (s1\<lparr>m_dfSet := d\<rparr>) = fewer s s1" "fewer (s\<lparr>m_dfSet := d\<rparr>) s1 = fewer s s1"
  "fewer s (s1\<lparr>m_files := f\<rparr>) = fewer s s1"
  by (simp_all add: fewer_def)

lemma fewer_same:
  "m_procs s1 = m_procs s \<Longrightarrow> m_delProcQue s1 = m_delProcQue s \<Longrightarrow> fewer s s1"
proof -
  assume "m_procs s1 = m_procs s" "m_delProcQue s1 = m_delProcQue s"
  moreover from this have "tabs s1 = tabs s" by (simp add: tabs_def fun_eq_iff)
  ultimately show ?thesis by (simp add: fewer_def)
qed

lemma fewer_proc:
  assumes "fewer s s1" and "find_proc s oid = Some p"
  obtains p1 where "find_proc s1 oid = Some p1" and "p_proc p1 = p_proc p"
    and "\<And>k r. map_of (netflows p1) k = Some r \<Longrightarrow> map_of (netflows p) k = Some r"
    and "\<And>k r. map_of (fileflows p1) k = Some r \<Longrightarrow> map_of (fileflows p) k = Some r"
proof -
  have "map_option p_proc (find_proc s1 oid) = Some (p_proc p)" using assms by (simp add: fewer_def)
  then obtain p1 where p1: "find_proc s1 oid = Some p1" "p_proc p1 = p_proc p" by auto
  have s: "slot (tabs s1) i = Some r \<Longrightarrow> slot (tabs s) i = Some r" for i r using assms(1) unfolding fewer_def by blast
  show ?thesis
  proof (rule that [OF p1])
    show "map_of (netflows p) k = Some r" if "map_of (netflows p1) k = Some r" for k r
      using that s [of "NId oid k" r] unfolding slot_find [OF p1(1)] slot_find [OF assms(2)] by blast
    show "map_of (fileflows p) k = Some r" if "map_of (fileflows p1) k = Some r" for k r
      using that s [of "FId oid k" r] unfolding slot_find [OF p1(1)] slot_find [OF assms(2)] by blast
  qed
qed

lemma fewer_find: "fewer s s1 \<Longrightarrow> find_proc s oid = Some p \<Longrightarrow> \<exists>p1. find_proc s1 oid = Some p1 \<and> p_proc p1 = p_proc p"
  by (erule fewer_proc) auto

lemma fewer_put:
  assumes "find_proc s oid = Some p" and "p_proc q = p_proc p"
    and n: "\<And>k r. map_of (netflows q) k = Some r \<Longrightarrow> map_of (netflows p) k = Some r"
    and f: "\<And>k r. map_of (fileflows q) k = Some r \<Longrightarrow> map_of (fileflows p) k = Some r"
  shows "fewer s (put_proc oid q s)"
proof -
  have "slot (tabs s) i = Some r" if "slot (tabs (put_proc oid q s)) i = Some r" for i r
    using that n f by (cases i) (auto simp: slot_put slot_find [OF assms(1)] split: if_splits)
  then show ?thesis using assms(1,2) by (simp add: fewer_def)
qed

text \<open>One flow is taken out of its table.\<close>

fun id_oid :: "flow_id \<Rightarrow> OID" where
  "id_oid (NId oid k) = oid"
| "id_oid (FId oid k) = oid"

fun del_slot :: "flow_id \<Rightarrow> ProcessObj \<Rightarrow> ProcessObj" where
  "del_slot (NId oid k) p = p\<lparr>netflows := AList.delete k (netflows p)\<rparr>"
| "del_slot (FId oid k) p = p\<lparr>fileflows := AList.delete k (fileflows p)\<rparr>"

lemma cut_slot:
  assumes "hinv {} D s" and r: "heap s r = Some d" "ident d = i"
  obtains p where "find_proc s (id_oid i) = Some p" and "hinv {r} D (put_proc (id_oid i) (del_slot i p) s)"
    and "fewer s (put_proc (id_oid i) (del_slot i p) s)" and "slot (tabs (put_proc (id_oid i) (del_slot i p) s)) i = None"
proof -
  have sl: "slot (tabs s) i = Some r" using hinv_slot [OF assms(1) r(1)] r(2) by simp
  obtain p where p: "find_proc s (id_oid i) = Some p" using sl by (cases i) (auto dest: slot_proc)
  note ok = hinv_tbl_ok [OF assms(1) p]
  let ?q = "del_slot i p" and ?K = "{k. i = NId (id_oid i) k}" and ?L = "{k. i = FId (id_oid i) k}"
  have "hinv ({} \<union> {x. (\<exists>k \<in> ?K. map_of (netflows p) k = Some x) \<or> (\<exists>k \<in> ?L. map_of (fileflows p) k = Some x)}) D (put_proc (id_oid i) ?q s)"
    by (rule hinv_cut [OF assms(1) p]; cases i) (use ok in auto)
  moreover have "{x. (\<exists>k \<in> ?K. map_of (netflows p) k = Some x) \<or> (\<exists>k \<in> ?L. map_of (fileflows p) k = Some x)} = {r}"
    using sl slot_find [OF p] by (cases i) auto
  ultimately have h: "hinv {r} D (put_proc (id_oid i) ?q s)" by simp
  have f: "fewer s (put_proc (id_oid i) ?q s)" by (rule fewer_put [OF p]; cases i) (auto split: if_splits)
  have "slot (tabs (put_proc (id_oid i) ?q s)) i = None" by (cases i) (simp_all add: slot_put)
  from that [OF p h f this] show thesis .
qed

lemma fewer_slot: "fewer s s1 \<Longrightarrow> slot (tabs s) i = None \<Longrightarrow> slot (tabs s1) i = None"
  unfolding fewer_def by (metis option.exhaust)

text \<open>The flows with some keys have flows_cut.\<close>

definition flows_cut :: "sf \<Rightarrow> bool \<Rightarrow> flow_id set \<Rightarrow> sf \<Rightarrow> bool" where
  "flows_cut s all ids s1 = (hinv {} {} s1 \<and> fewer s s1 \<and> (all \<longrightarrow> (\<forall>i \<in> ids. slot (tabs s1) i = None)))"

lemma flows_cut_cut:
  assumes "fewer s s1" and "slot (tabs s1) i = None" and "hinv {} {} s2" and "m_procs s2 = m_procs s1" and "m_delProcQue s2 = m_delProcQue s1"
  shows "flows_cut s b {i} s2"
proof -
  have "tabs s2 = tabs s1" using assms(4) by (simp add: tabs_def fun_eq_iff)
  then show ?thesis using assms fewer_trans [OF assms(1) fewer_same] by (simp add: flows_cut_def)
qed

lemma flows_cut_trans: "flows_cut s b {i} s1 \<Longrightarrow> flows_cut s1 b ids s2 \<Longrightarrow> flows_cut s b (insert i ids) s2"
  by (auto simp: flows_cut_def intro: fewer_trans fewer_slot)

end
