(* ===== verification/MemNet.thy ===== *)
theory MemNet
  imports Memory
begin

text \<open>
  The operations on network flows keep the memory of the flows in order: what they take out of a
  table they take out of the set, only that is deleted, and no step follows a dangling pointer.
\<close>

lemma canonicalizeKey_upd [simp]:
  "canonicalizeKey (nf\<lparr>nf_opFlags := x\<rparr>) = canonicalizeKey nf" "canonicalizeKey (nf\<lparr>nf_endTs := t\<rparr>) = canonicalizeKey nf"
  by (simp_all add: canonicalizeKey_def)

section \<open>Taking flows out\<close>

lemma nf_same_ident: "nf_same s x r \<Longrightarrow> heap s r = Some (Net n) \<Longrightarrow> \<exists>e. heap s x = Some e \<and> ident e = ident (Net n)"
  by (cases "heap s x"; cases "the (heap s x)")
    (auto simp: nf_same_def netflow_eq_def canonicalizeKey_def split: if_splits intro: OID.equality)

lemma nf_same_refl: "heap s r = Some (Net n) \<Longrightarrow> nf_same s r r"
  by (simp add: nf_same_def netflow_eq_def)

lemma removeNetworkFlowFromSet_eq:
  assumes "hinv R D s" and r: "heap s r = Some (Net n)"
  shows "removeNetworkFlowFromSet r b s = do {
     (u, s1) \<leftarrow> (if b then free r (s\<lparr>m_dfSet := remove1 r (m_dfSet s)\<rparr>) else Some ((), s\<lparr>m_dfSet := remove1 r (m_dfSet s)\<rparr>));
     Some ((if r \<in> set (m_dfSet s) then 1 else 0), s1) }"
proof -
  have "ms_remove (df_key s) (\<lambda>x. nf_same s x r) r (m_dfSet s) = (r \<in> set (m_dfSet s), remove1 r (m_dfSet s))"
    using nf_same_refl [OF r] nf_same_ident [OF _ r] by (intro set_remove [OF assms])
  then show ?thesis using hinv_live [OF assms] by (simp add: removeNetworkFlowFromSet_def)
qed

lemma removeNetworkFlowFromSet_keep:
  assumes "hinv R D s" and "heap s r = Some (Net n)"
  shows "wp (removeNetworkFlowFromSet r False s) (\<lambda>k s1. hinv R (insert r D) s1 \<and> heap s1 = heap s \<and>
    m_procs s1 = m_procs s \<and> m_delProcQue s1 = m_delProcQue s)"
  using hinv_unset [OF assms] by (simp add: removeNetworkFlowFromSet_eq [OF assms])

lemma removeNetworkFlowFromSet_delete:
  assumes "hinv R {} s" and "heap s r = Some (Net n)" and "r \<in> R"
  shows "wp (removeNetworkFlowFromSet r True s) (\<lambda>k s1. hinv (R - {r}) {} s1 \<and> heap s1 = (heap s)(r := None) \<and>
    m_procs s1 = m_procs s \<and> m_delProcQue s1 = m_delProcQue s)"
  using free_hinv [OF hinv_unset [OF assms(1,2)] assms(3)] by (simp add: removeNetworkFlowFromSet_eq [OF assms(1,2)])

lemma removeNetworkFlow_key_mem:
  assumes "hinv {} {r} s" and r: "heap s r = Some (Net n)" "ident (Net n) = NId oid key"
  shows "wp (removeNetworkFlow_key oid r key s) (\<lambda>u s1. hinv {} {} s1 \<and> fewer s s1)"
proof -
  obtain p where p: "find_proc s oid = Some p" and h: "hinv {r} {r} (put_proc oid (p\<lparr>netflows := AList.delete key (netflows p)\<rparr>) s)"
    and f: "fewer s (put_proc oid (p\<lparr>netflows := AList.delete key (netflows p)\<rparr>) s)"
    using cut_slot [OF assms] by auto
  then show ?thesis using free_hinv [OF h] by (simp add: removeNetworkFlow_key_def upd_proc_def)
qed

lemma writeNetFlow_mem [simp]:
  "mem (writeNetFlow I nf p s) = mem s" "heap (writeNetFlow I nf p s) = heap s" "m_procs (writeNetFlow I nf p s) = m_procs s"
  "m_delProcQue (writeNetFlow I nf p s) = m_delProcQue s"
  using core_fields [OF core_emit] by (simp_all add: writeNetFlow_def)

lemma hinv_writeNetFlow [simp]: "hinv R D (writeNetFlow I nf p s) = hinv R D s"
  by (rule hinv_mem) simp

lemma removeAndWriteNetworkFlow_mem:
  assumes "hinv {} {} s" and r: "heap s r = Some (Net n)" "ident (Net n) = NId oid key"
  shows "wp (removeAndWriteNetworkFlow I oid r key s) (\<lambda>u s1. hinv {} {} s1 \<and> fewer s s1)"
proof -
  have "slot (tabs s) (NId oid key) = Some r" using hinv_slot [OF assms(1) r(1)] r(2) by simp
  from slot_proc(1) [OF this] obtain p where p: "find_proc s oid = Some p" ..
  let ?s = "writeNetFlow I (netflow n) (Some (p_proc p)) s"
  have "wp (removeNetworkFlowFromSet r False ?s) (\<lambda>k s1. wp (removeNetworkFlow_key oid r key s1) (\<lambda>u s2. hinv {} {} s2 \<and> fewer s s2))"
  proof (rule wp_conseq [OF removeNetworkFlowFromSet_keep])
    fix k s1 assume s1: "hinv {} {r} s1 \<and> heap s1 = heap ?s \<and> m_procs s1 = m_procs ?s \<and> m_delProcQue s1 = m_delProcQue ?s"
    then have "fewer s s1" by (simp add: fewer_same)
    with s1 show "wp (removeNetworkFlow_key oid r key s1) (\<lambda>u s2. hinv {} {} s2 \<and> fewer s s2)"
      using removeNetworkFlow_key_mem [of r s1 n oid key] r by (auto elim!: wp_conseq intro: fewer_trans)
  qed (use assms in simp_all)
  then show ?thesis using p r by (simp add: removeAndWriteNetworkFlow_def deref_net_def deref_proc_def)
qed

section \<open>The flows of the other threads\<close>

lemma map_of_filter_key: "map_of (filter (\<lambda>(k, v). P k) t) k = (if P k then map_of t k else None)"
  by (induction t) auto

lemma tbl_ok_filter: "tbl_ok t \<Longrightarrow> tbl_ok (filter P t)"
  by (simp add: tbl_ok_def distinct_map_filter)

lemma collect_nf_eq:
  assumes "\<And>k r. (k, r) \<in> set t \<Longrightarrow> \<exists>n. heap s r = Some (Net n)"
  shows "\<exists>rs. collect_nf s key t acc = Some (filter (\<lambda>(k, r). \<not> nf_related key k) t, rs) \<and>
    mset rs = mset acc + mset (map snd (filter (\<lambda>(k, r). nf_related key k) t))"
  using assms
proof (induction t arbitrary: acc)
  case (Cons e t)
  obtain k r where e: "e = (k, r)" by fastforce
  then obtain n where n: "heap s r = Some (Net n)" using Cons.prems by fastforce
  have IH: "\<exists>rs. collect_nf s key t acc = Some (filter (\<lambda>(k, r). \<not> nf_related key k) t, rs) \<and>
    mset rs = mset acc + mset (map snd (filter (\<lambda>(k, r). nf_related key k) t))" for acc
    by (rule Cons.IH) (use Cons.prems in auto)
  show ?case using IH [of acc] IH [of "r # acc"] IH [of "acc @ [r]"] n by (auto simp: e)
qed simp

text \<open>A table of flows holds no flow twice.\<close>

lemma distinct_values:
  assumes "tbl_ok t" and "\<And>k1 k2 r. map_of t k1 = Some r \<Longrightarrow> map_of t k2 = Some r \<Longrightarrow> k1 = k2"
  shows "distinct (map snd t)"
proof -
  have d: "distinct t" "\<And>k v. map_of t k = Some v \<longleftrightarrow> (k, v) \<in> set t" using assms(1) by (auto simp: tbl_ok_def distinct_map)
  have "inj_on snd (set t)"
  proof (rule inj_onI)
    fix a b assume "a \<in> set t" "b \<in> set t" "snd a = snd b"
    then show "a = b" using assms(2) [of "fst a" "snd a" "fst b"] d(2) by (metis prod.collapse)
  qed
  then show ?thesis using d(1) by (simp add: distinct_map)
qed

lemma write_related_nf_mem:
  assumes "hinv R {} s" and "distinct rs" and "set rs \<subseteq> R" and "\<And>r. r \<in> set rs \<Longrightarrow> \<exists>n. heap s r = Some (Net n)"
  shows "wp (write_related_nf I P endTs rs s) (\<lambda>u s1. hinv (R - set rs) {} s1 \<and> (\<forall>x. x \<notin> set rs \<longrightarrow> heap s1 x = heap s x) \<and>
    m_procs s1 = m_procs s \<and> m_delProcQue s1 = m_delProcQue s)"
  using assms
proof (induction rs arbitrary: R s)
  case (Cons r rs)
  obtain n where n: "heap s r = Some (Net n)" using Cons.prems(4) by auto
  define nf where "nf = (netflow n)\<lparr>nf_endTs := endTs, nf_opFlags := or (nf_opFlags (netflow n)) (op_val OP_TRUNCATE)\<rparr>"
  define s1 where "s1 = writeNetFlow I nf (Some P) (put_flow r (Net (n\<lparr>netflow := nf\<rparr>)) s)"
  have "hinv R {} (put_flow r (Net (n\<lparr>netflow := nf\<rparr>)) s)"
    by (rule hinv_put [OF Cons.prems(1) n]) (simp_all add: nf_def)
  then have h: "hinv R {} s1" by (simp add: s1_def)
  have f: "heap s1 = (heap s)(r \<mapsto> Net (n\<lparr>netflow := nf\<rparr>))" "m_procs s1 = m_procs s" "m_delProcQue s1 = m_delProcQue s"
    by (simp_all add: s1_def put_flow_def)
  have e: "R - set (r # rs) = R - {r} - set rs" by auto
  have "wp (removeNetworkFlowFromSet r True s1) (\<lambda>k s2. wp (write_related_nf I P endTs rs s2) (\<lambda>u s3. hinv (R - set (r # rs)) {} s3 \<and>
      (\<forall>x. x \<notin> set (r # rs) \<longrightarrow> heap s3 x = heap s x) \<and> m_procs s3 = m_procs s \<and> m_delProcQue s3 = m_delProcQue s))"
  proof (rule wp_conseq [OF removeNetworkFlowFromSet_delete [OF h]])
    fix k s2 assume s2: "hinv (R - {r}) {} s2 \<and> heap s2 = (heap s1)(r := None) \<and> m_procs s2 = m_procs s1 \<and> m_delProcQue s2 = m_delProcQue s1"
    have "wp (write_related_nf I P endTs rs s2) (\<lambda>u s3. hinv (R - {r} - set rs) {} s3 \<and> (\<forall>x. x \<notin> set rs \<longrightarrow> heap s3 x = heap s2 x) \<and>
        m_procs s3 = m_procs s2 \<and> m_delProcQue s3 = m_delProcQue s2)"
    proof (rule Cons.IH)
      show "\<exists>n. heap s2 x = Some (Net n)" if "x \<in> set rs" for x
        using that Cons.prems(2) Cons.prems(4) [of x] s2 by (auto simp: f)
    qed (use s2 Cons.prems(2,3) in auto)
    then show "wp (write_related_nf I P endTs rs s2) (\<lambda>u s3. hinv (R - set (r # rs)) {} s3 \<and>
      (\<forall>x. x \<notin> set (r # rs) \<longrightarrow> heap s3 x = heap s x) \<and> m_procs s3 = m_procs s \<and> m_delProcQue s3 = m_delProcQue s)"
      unfolding e by (rule wp_conseq) (use s2 f in simp)
  qed (use f Cons.prems(3) in auto)
  then show ?case using n by (simp add: deref_net_def Let_def nf_def s1_def)
qed simp

lemma removeAndWriteRelatedNF_mem:
  assumes "hinv {} {} s" and p: "find_proc s oid = Some p"
  shows "wp (removeAndWriteRelatedNF I oid key endTs s) (\<lambda>u s1. hinv {} {} s1 \<and> fewer s s1 \<and>
    (\<forall>r n. heap s r = Some (Net n) \<and> \<not> nf_related key (canonicalizeKey (netflow n)) \<longrightarrow> heap s1 r = heap s r))"
proof -
  let ?t = "filter (\<lambda>(k, r). \<not> nf_related key k) (netflows p)"
  note ok = hinv_tbl_ok [OF assms]
  have tab: "(k, r) \<in> set (netflows p) \<Longrightarrow> \<exists>n. heap s r = Some (Net n) \<and> canonicalizeKey (netflow n) = k" for k r
    using hinv_table(1) [OF assms, of k r] ok(1) by (auto simp: tbl_ok_def)
  obtain rs where c: "collect_nf s key (netflows p) [] = Some (?t, rs)"
    and rs: "mset rs = mset (map snd (filter (\<lambda>(k, r). nf_related key k) (netflows p)))"
    using collect_nf_eq [of "netflows p" s key "[]"] tab by (metis add_0 mset.simps(1))
  have "distinct (map snd (netflows p))"
  proof (rule distinct_values [OF ok(1)])
    show "k1 = k2" if "map_of (netflows p) k1 = Some r" "map_of (netflows p) k2 = Some r" for k1 k2 r
      using hinv_table(1) [OF assms that(1)] hinv_table(1) [OF assms that(2)] by auto
  qed
  then have "distinct rs" unfolding mset_eq_imp_distinct_iff [OF rs] by (simp add: distinct_map_filter)
  have set_rs: "set rs = snd ` set (filter (\<lambda>(k, r). nf_related key k) (netflows p))"
    using mset_eq_setD [OF rs] by simp
  also have "\<dots> = {r. \<exists>k. nf_related key k \<and> map_of (netflows p) k = Some r}"
    using ok(1) by (force simp: tbl_ok_def)
  finally have R: "set rs = {r. \<exists>k. nf_related key k \<and> map_of (netflows p) k = Some r}" .
  let ?s = "put_proc oid (p\<lparr>netflows := ?t\<rparr>) s"
  have "hinv ({} \<union> {r. (\<exists>k \<in> Collect (nf_related key). map_of (netflows p) k = Some r) \<or> (\<exists>k \<in> {}. map_of (fileflows p) k = Some r)}) {} ?s"
    by (rule hinv_cut [OF assms]) (use ok in \<open>auto simp: map_of_filter_key tbl_ok_filter\<close>)
  then have h: "hinv (set rs) {} ?s" unfolding R by simp
  have few: "fewer s ?s" by (rule fewer_put [OF p]) (auto simp: map_of_filter_key split: if_splits)
  have keep: "r \<notin> set rs" if "heap s r = Some (Net n)" "\<not> nf_related key (canonicalizeKey (netflow n))" for r n
    using that unfolding R using hinv_table(1) [OF assms] by fastforce
  have "wp (write_related_nf I (p_proc p) endTs rs ?s) (\<lambda>u s1. hinv (set rs - set rs) {} s1 \<and> (\<forall>x. x \<notin> set rs \<longrightarrow> heap s1 x = heap ?s x) \<and>
    m_procs s1 = m_procs ?s \<and> m_delProcQue s1 = m_delProcQue ?s)"
  proof (rule write_related_nf_mem [OF h \<open>distinct rs\<close>])
    show "\<exists>n. heap ?s r = Some (Net n)" if "r \<in> set rs" for r using that tab unfolding set_rs by fastforce
  qed simp
  then have "wp (write_related_nf I (p_proc p) endTs rs ?s) (\<lambda>u s1. hinv {} {} s1 \<and> fewer s s1 \<and>
    (\<forall>r n. heap s r = Some (Net n) \<and> \<not> nf_related key (canonicalizeKey (netflow n)) \<longrightarrow> heap s1 r = heap s r))"
    by (rule wp_conseq) (use keep fewer_trans [OF few fewer_same] in auto)
  then show ?thesis using p c by (simp add: removeAndWriteRelatedNF_def deref_proc_def)
qed

section \<open>The handler\<close>

lemma updateNetFlow_same:
  assumes "updateNetFlow I flag ev nfo s = (nfo1, s1)"
  shows "ident (Net nfo1) = ident (Net nfo)" "exportTime nfo1 = exportTime nfo" "\<exists>n. s1 = s\<lparr>reads := n\<rparr>"
proof -
  obtain t where c: "getCurrentTime I s = (t, s1)" using assms by (auto simp: updateNetFlow_def split: prod.splits)
  then show "\<exists>n. s1 = s\<lparr>reads := n\<rparr>" using clock_frame by blast
  have "nfo1 = nfo\<lparr>lastUpdate := t, netflow := count_op flag ev ((netflow nfo)\<lparr>nf_opFlags := or (nf_opFlags (netflow nfo)) (op_val flag)\<rparr>)\<rparr>"
    using assms c by (simp add: updateNetFlow_def)
  then show "ident (Net nfo1) = ident (Net nfo)" "exportTime nfo1 = exportTime nfo"
    by simp_all
qed

text \<open>A new flow goes into the table of its process and into the set.\<close>

lemma add_net_mem:
  assumes "hinv {} {} s" and p: "find_proc s oid = Some p" and "ident (Net n) = NId oid key" and free: "map_of (netflows p) key = None"
    and a: "alloc (Net n) s = (r, s1)"
  shows "wp (do { (u, s2) \<leftarrow> upd_proc oid (\<lambda>p. p\<lparr>netflows := AList.update key r (netflows p)\<rparr>) s1; dfset_insert r s2 })
    (\<lambda>u s3. hinv {} {} s3)"
proof -
  have fresh: "ident e \<noteq> ident (Net n)" if "heap s x = Some e" for x e
    using hinv_slot [OF assms(1) that] slot_find(1) [OF p, of key] assms(3) free by auto
  note al = alloc_hinv [OF assms(1) fresh a]
  have p1: "find_proc s1 oid = Some p" using p al(5) by simp
  let ?s = "put_proc oid (p\<lparr>netflows := AList.update key r (netflows p)\<rparr>) s1"
  have "hinv ({r} - {r}) {r} ?s"
  proof (rule hinv_attach [OF al(1) _ _ _ _ al(2)])
    show "slot (tabs ?s) i = (if i = ident (Net n) then Some r else slot (tabs s1) i)" for i
      unfolding assms(3) by (cases i) (auto simp: slot_put slot_find [OF p1])
  qed (use hinv_tbl_ok [OF al(1) p1] in \<open>auto intro!: tabs_put_ok [OF al(1)]\<close>)
  then have "wp (dfset_insert r ?s) (\<lambda>u s3. hinv {} ({r} - {r}) s3 \<and> m_procs s3 = m_procs ?s \<and> m_delProcQue s3 = m_delProcQue ?s)"
    by (intro dfset_insert_hinv) simp_all
  then have "wp (dfset_insert r ?s) (\<lambda>u s3. hinv {} {} s3)" by (rule wp_conseq) simp
  then show ?thesis using p1 by (simp add: upd_proc_def)
qed

lemma processNewNF_mem:
  assumes "hinv {} {} s" and p: "find_proc s oid = Some p" and free: "map_of (netflows p) key = None"
    and key: "key = canonicalizeKey_fd fdinfo (ti_tid ti) (ev_fdnum ev)"
  shows "wp (processNewNF I ev ti fdinfo oid flag key s) (\<lambda>u s1. hinv {} {} s1)"
proof -
  obtain t1 s1 where s1: "getCurrentTime I s = (t1, s1)" by fastforce
  obtain t2 s2 where s2: "getCurrentTime I s1 = (t2, s2)" by fastforce
  let ?n = "\<lparr>exportTime = t1, lastUpdate = t2, netflow = populateNetFlow flag ev ti fdinfo oid\<rparr>"
  obtain n s3 where s3: "updateNetFlow I flag ev ?n s2 = (n, s3)" by fastforce
  obtain i1 i2 i3 where "s1 = s\<lparr>reads := i1\<rparr>" "s2 = s1\<lparr>reads := i2\<rparr>" "s3 = s2\<lparr>reads := i3\<rparr>"
    using updateNetFlow_same(3) [OF s3] clock_frame s1 s2 by metis
  then have s3_eq: "s3 = s\<lparr>reads := i3\<rparr>" by simp
  have h: "hinv {} {} s3" "find_proc s3 oid = Some p" using assms(1) p hinv_mem [of s3 s] by (simp_all add: s3_eq)
  have id: "ident (Net n) = NId oid key"
    unfolding updateNetFlow_same(1) [OF s3] by (simp add: populateNetFlow_key key) (simp add: populateNetFlow_def)
  obtain r s4 where a: "alloc (Net n) s3 = (r, s4)" by fastforce
  have "wp (removeAndWriteRelatedNF I oid key (ev_ts ev) s3) (\<lambda>u s4. wp (deref_proc oid s4) (\<lambda>p s4. hinv {} {} s4))"
  proof (rule wp_conseq [OF removeAndWriteRelatedNF_mem [OF h]], elim conjE)
    fix u s5 assume "hinv {} {} s5" "fewer s3 s5"
    then show "wp (deref_proc oid s5) (\<lambda>p s4. hinv {} {} s4)"
      using fewer_find [of s3 s5, OF _ h(2)] by (auto simp: deref_proc_def)
  qed
  then show ?thesis using add_net_mem [OF h id free a] by (simp add: processNewNF_def s1 s2 s3 a)
qed

lemma processExistingNF_mem:
  assumes "hinv {} {} s" and p: "find_proc s oid = Some p" and key: "map_of (netflows p) key = Some r"
  shows "wp (processExistingNF I ev oid flag key r s) (\<lambda>u s1. hinv {} {} s1)"
proof -
  obtain n where n: "heap s r = Some (Net n)" and id: "ident (Net n) = NId oid key"
    using hinv_table(1) [OF assms(1) p key] by auto
  obtain n1 s1 where u: "updateNetFlow I flag ev n s = (n1, s1)" by fastforce
  note same = updateNetFlow_same [OF u]
  obtain i where i: "s1 = s\<lparr>reads := i\<rparr>" using same(3) ..
  let ?s = "put_flow r (Net n1) s1"
  have "hinv {} {} s1" "heap s1 r = Some (Net n)" using assms(1) n hinv_mem [of s1 s] by (simp_all add: i)
  then have h: "hinv {} {} ?s" by (rule hinv_put) (use same in simp_all)
  have p1: "find_proc ?s oid = Some p" and r: "heap ?s r = Some (Net n1)" using p by (simp_all add: put_flow_def i)
  have "wp (removeAndWriteRelatedNF I oid key (ev_ts ev) ?s) (\<lambda>u s3. wp (deref_net r s3) (\<lambda>m s3. wp (removeAndWriteNetworkFlow I oid r key
      (put_flow r (Net (m\<lparr>netflow := (netflow m)\<lparr>nf_endTs := ev_ts ev\<rparr>\<rparr>)) s3)) (\<lambda>u s1. hinv {} {} s1)))"
  proof (rule wp_conseq [OF removeAndWriteRelatedNF_mem [OF h p1]], elim conjE)
    fix u s3 assume s3: "hinv {} {} s3"
      and keep: "\<forall>x m. heap ?s x = Some (Net m) \<and> \<not> nf_related key (canonicalizeKey (netflow m)) \<longrightarrow> heap s3 x = heap ?s x"
    have "\<not> nf_related key (canonicalizeKey (netflow n1))" using same(1) id by (simp add: nf_related_def)
    then have r3: "heap s3 r = Some (Net n1)" using keep r by simp
    let ?m = "n1\<lparr>netflow := (netflow n1)\<lparr>nf_endTs := ev_ts ev\<rparr>\<rparr>"
    have m: "ident (Net ?m) = NId oid key" using same(1) id by simp
    have "hinv {} {} (put_flow r (Net ?m) s3)" by (rule hinv_put [OF s3 r3]) simp_all
    from removeAndWriteNetworkFlow_mem [OF this _ m]
    have "wp (removeAndWriteNetworkFlow I oid r key (put_flow r (Net ?m) s3)) (\<lambda>u s1. hinv {} {} s1 \<and> fewer (put_flow r (Net ?m) s3) s1)"
      by (simp add: put_flow_def)
    then have "wp (removeAndWriteNetworkFlow I oid r key (put_flow r (Net ?m) s3)) (\<lambda>u s1. hinv {} {} s1)" by (rule wp_conseq) simp
    then show "wp (deref_net r s3) (\<lambda>m s3. wp (removeAndWriteNetworkFlow I oid r key
      (put_flow r (Net (m\<lparr>netflow := (netflow m)\<lparr>nf_endTs := ev_ts ev\<rparr>\<rparr>)) s3)) (\<lambda>u s1. hinv {} {} s1))"
      using r3 by (simp add: deref_net_def)
  qed
  then show ?thesis using n u h by (simp add: processExistingNF_def deref_net_def Let_def)
qed

section \<open>Flows of a process or thread that ends\<close>

lemma end_net_mem:
  assumes "hinv {} {} s" and r: "heap s r = Some (Net n)" "ident (Net n) = NId oid k"
  shows "wp (upd_proc oid (\<lambda>p. p\<lparr>netflows := AList.delete k (netflows p)\<rparr>) s)
    (\<lambda>u s1. wp (removeNetworkFlowFromSet r True s1) (\<lambda>m s2. flows_cut s b {NId oid k} s2))"
proof -
  obtain p where p: "find_proc s oid = Some p" and c: "hinv {r} {} (put_proc oid (p\<lparr>netflows := AList.delete k (netflows p)\<rparr>) s)"
      "fewer s (put_proc oid (p\<lparr>netflows := AList.delete k (netflows p)\<rparr>) s)"
      "slot (tabs (put_proc oid (p\<lparr>netflows := AList.delete k (netflows p)\<rparr>) s)) (NId oid k) = None"
    using cut_slot [OF assms] by auto
  let ?s = "put_proc oid (p\<lparr>netflows := AList.delete k (netflows p)\<rparr>) s"
  have r1: "heap ?s r = Some (Net n)" using r by simp
  have "wp (removeNetworkFlowFromSet r True ?s) (\<lambda>m s2. flows_cut s b {NId oid k} s2)"
    by (rule wp_conseq [OF removeNetworkFlowFromSet_delete [OF c(1) r1 singletonI]]) (use flows_cut_cut [OF c(2,3)] in simp)
  then show ?thesis using p by (simp add: upd_proc_def)
qed

text \<open>One flow of the loop: the related flows of other threads end before it, when a thread ends.\<close>

lemma end_net_related:
  assumes h: "hinv {} {} s" and p: "find_proc s oid = Some p" and r: "heap s r = Some (Net n)" "ident (Net n) = NId oid k"
  shows "wp (if \<not> b then removeAndWriteRelatedNF I oid (canonicalizeKey (netflow n)) t s else Some ((), s))
    (\<lambda>u s1. wp (deref_net r s1) (\<lambda>m s2. let nf = (netflow m)\<lparr>nf_opFlags := or (nf_opFlags (netflow m)) (op_val OP_TRUNCATE)\<rparr> in
      wp (upd_proc oid (\<lambda>p. p\<lparr>netflows := AList.delete k (netflows p)\<rparr>)
        (writeNetFlow I nf (Some (p_proc p)) (put_flow r (Net (m\<lparr>netflow := nf\<rparr>)) s2)))
      (\<lambda>u s3. wp (removeNetworkFlowFromSet r True s3) (\<lambda>j s4. flows_cut s b {NId oid k} s4))))"
proof -
  have "wp (if \<not> b then removeAndWriteRelatedNF I oid (canonicalizeKey (netflow n)) t s else Some ((), s))
      (\<lambda>u s1. hinv {} {} s1 \<and> fewer s s1 \<and> heap s1 r = Some (Net n))"
    using h r(1) by (auto intro!: wp_conseq [OF removeAndWriteRelatedNF_mem [OF h p]] simp: nf_related_def)
  then show ?thesis
  proof (rule wp_conseq, elim conjE)
    fix u s1 assume s1: "hinv {} {} s1" "fewer s s1" "heap s1 r = Some (Net n)"
    let ?nf = "(netflow n)\<lparr>nf_opFlags := or (nf_opFlags (netflow n)) (op_val OP_TRUNCATE)\<rparr>"
    let ?s = "writeNetFlow I ?nf (Some (p_proc p)) (put_flow r (Net (n\<lparr>netflow := ?nf\<rparr>)) s1)"
    have "hinv {} {} ?s" using hinv_put [OF s1(1,3), of "Net (n\<lparr>netflow := ?nf\<rparr>)"] by simp
    moreover have "heap ?s r = Some (Net (n\<lparr>netflow := ?nf\<rparr>))" "ident (Net (n\<lparr>netflow := ?nf\<rparr>)) = NId oid k"
      using r(2) by (simp_all add: put_flow_def)
    ultimately have "wp (upd_proc oid (\<lambda>p. p\<lparr>netflows := AList.delete k (netflows p)\<rparr>) ?s)
      (\<lambda>u s3. wp (removeNetworkFlowFromSet r True s3) (\<lambda>j s4. flows_cut ?s b {NId oid k} s4))" by (rule end_net_mem)
    moreover have "fewer s ?s" by (rule fewer_trans [OF s1(2)]) (simp add: fewer_same put_flow_def)
    ultimately have "wp (upd_proc oid (\<lambda>p. p\<lparr>netflows := AList.delete k (netflows p)\<rparr>) ?s)
      (\<lambda>u s3. wp (removeNetworkFlowFromSet r True s3) (\<lambda>j s4. flows_cut s b {NId oid k} s4))"
      by (auto elim!: wp_conseq simp: flows_cut_def intro: fewer_trans)
    then show "wp (deref_net r s1) (\<lambda>m s2. let nf = (netflow m)\<lparr>nf_opFlags := or (nf_opFlags (netflow m)) (op_val OP_TRUNCATE)\<rparr> in
      wp (upd_proc oid (\<lambda>p. p\<lparr>netflows := AList.delete k (netflows p)\<rparr>)
        (writeNetFlow I nf (Some (p_proc p)) (put_flow r (Net (m\<lparr>netflow := nf\<rparr>)) s2)))
      (\<lambda>u s3. wp (removeNetworkFlowFromSet r True s3) (\<lambda>j s4. flows_cut s b {NId oid k} s4)))"
      using s1(3) by (simp add: deref_net_def Let_def)
  qed
qed

lemma nf_from_proc_loop_mem:
  assumes "hinv {} {} s" and "find_proc s oid = Some p"
  shows "wp (nf_from_proc_loop I oid tid ks d s) (\<lambda>m s1. flows_cut s (tid = -1) (NId oid ` set ks) s1)"
  using assms
proof (induction ks arbitrary: d s p)
  case Nil
  then show ?case by (simp add: flows_cut_def)
next
  case (Cons k ks)
  note h = Cons.prems(1) and p = Cons.prems(2)
  have IH: "wp (nf_from_proc_loop I oid tid ks d1 s1) (\<lambda>m s2. flows_cut s (tid = -1) (NId oid ` set (k # ks)) s2)"
    if e: "flows_cut s (tid = -1) {NId oid k} s1" for s1 d1
  proof -
    from e obtain p1 where "hinv {} {} s1" "find_proc s1 oid = Some p1" using fewer_find [OF _ p] by (auto simp: flows_cut_def)
    from Cons.IH [OF this] show ?thesis unfolding list.set image_insert by (rule wp_conseq) (rule flows_cut_trans [OF e])
  qed
  show ?case
  proof (cases "map_of (netflows p) k")
    case None
    then show ?thesis using IH [of s d] h p by (simp add: deref_proc_def flows_cut_def slot_find [OF p])
  next
    case (Some r)
    then obtain n where n: "heap s r = Some (Net n)" and id: "ident (Net n) = NId oid k" using hinv_table(1) [OF h p] by auto
    show ?thesis
    proof (cases "tid = -1 \<or> tid = nf_tid (netflow n)")
      case True
      obtain t s1 where c: "getSinspTime I s = (t, s1)" by fastforce
      then obtain i where i: "s1 = s\<lparr>reads := i\<rparr>" using clock_frame by blast
      let ?m = "n\<lparr>netflow := (netflow n)\<lparr>nf_endTs := t\<rparr>\<rparr>"
      let ?s = "put_flow r (Net ?m) s1"
      have "hinv {} {} s1" "heap s1 r = Some (Net n)" using h n hinv_mem [of s1 s] by (simp_all add: i)
      then have h2: "hinv {} {} ?s" by (rule hinv_put) simp_all
      have s2: "find_proc ?s oid = Some p" "heap ?s r = Some (Net ?m)" "ident (Net ?m) = NId oid k"
        using p id by (simp_all add: put_flow_def i)
      note rel = end_net_related [OF h2 s2, of "tid = -1" I t]
      have f: "fewer s ?s" by (rule fewer_same) (simp_all add: put_flow_def i)
      have step: "wp (nf_from_proc_loop I oid tid ks d1 s2) (\<lambda>m s3. flows_cut s (tid = -1) (NId oid ` set (k # ks)) s3)"
        if "flows_cut ?s (tid = -1) {NId oid k} s2" for s2 d1
        using that f by (intro IH) (auto simp: flows_cut_def intro: fewer_trans)
      show ?thesis using True p n Some c rel
        by (simp add: deref_proc_def deref_net_def [of _ s] Let_def del: wp_if list.set cong: if_cong, auto elim!: wp_conseq simp: Let_def simp del: wp_if list.set)
          (use step in simp_all)
    next
      case False
      then have "tid \<noteq> -1" by simp
      then have "flows_cut s (tid = -1) {NId oid k} s" using h by (simp add: flows_cut_def)
      from IH [OF this] show ?thesis using False n p Some by (simp add: deref_proc_def deref_net_def)
    qed
  qed
qed

lemma map_of_None_Nil: "(\<And>k. map_of t k = None) \<Longrightarrow> t = []"
  by (cases t) (auto simp: map_of_eq_None_iff simp del: map_of.simps)

lemma removeAndWriteNFFromProc_mem:
  assumes "hinv {} {} s" and p: "find_proc s oid = Some p"
  shows "wp (removeAndWriteNFFromProc I oid tid s) (\<lambda>m s1. hinv {} {} s1 \<and> fewer s s1 \<and> (tid = -1 \<longrightarrow> fst (tabs s1 oid) = []))"
proof -
  have "wp (nf_from_proc_loop I oid tid (tbl_keys (netflows p)) 0 s)
     (\<lambda>d s2. wp (if tid = -1 then upd_proc oid (\<lambda>p. p\<lparr>netflows := []\<rparr>) s2 else Some ((), s2)) (\<lambda>u s1. hinv {} {} s1 \<and> fewer s s1 \<and> (tid = -1 \<longrightarrow> fst (tabs s1 oid) = [])))"
  proof (rule wp_conseq [OF nf_from_proc_loop_mem [OF assms]])
    fix d s1 assume e: "flows_cut s (tid = -1) (NId oid ` set (tbl_keys (netflows p))) s1"
    then have h: "hinv {} {} s1" and f: "fewer s s1" by (simp_all add: flows_cut_def)
    obtain p1 where p1: "find_proc s1 oid = Some p1" "\<And>k r. map_of (netflows p1) k = Some r \<Longrightarrow> map_of (netflows p) k = Some r"
      using fewer_proc [OF f p] by metis
    have "netflows p1 = []" if "tid = -1"
    proof (rule map_of_None_Nil)
      fix k show "map_of (netflows p1) k = None"
      proof (cases "map_of (netflows p) k")
        case None
        then show ?thesis using p1(2) [of k] by (cases "map_of (netflows p1) k") auto
      next
        case (Some r)
        then have "k \<in> set (tbl_keys (netflows p))" by auto
        then show ?thesis using e that by (simp add: flows_cut_def slot_find [OF p1(1)])
      qed
    qed
    moreover from this have "put_proc oid (p1\<lparr>netflows := []\<rparr>) s1 = put_proc oid p1 s1" if "tid = -1" using that by (cases p1) simp
    moreover have "tabs (put_proc oid p1 s1) = tabs s1" "mem (put_proc oid p1 s1) = mem s1"
      using tabs_find [OF p1(1)] by (simp_all add: tabs_put mem_put fun_upd_idem)
    moreover from this have "hinv {} {} (put_proc oid p1 s1)" using h hinv_mem by blast
    ultimately show "wp (if tid = -1 then upd_proc oid (\<lambda>p. p\<lparr>netflows := []\<rparr>) s1 else Some ((), s1))
        (\<lambda>u s1. hinv {} {} s1 \<and> fewer s s1 \<and> (tid = -1 \<longrightarrow> fst (tabs s1 oid) = []))"
      using h f p1(1) tabs_find [OF p1(1)] by (auto simp: upd_proc_def intro: fewer_trans [OF f fewer_put [OF p1(1)]])
  qed
  then show ?thesis using p by (simp add: removeAndWriteNFFromProc_def deref_proc_def)
qed

section \<open>Expired flows\<close>

text \<open>The block of the expiry loop: the flow leaves the table and is deleted, then the set.\<close>

lemma expire_net_mem:
  assumes "hinv {} {} s" and r: "heap s r = Some (Net n)"
  shows "wp (removeNetworkFlow r s) (\<lambda>u s1. m_dfSet s1 = m_dfSet s \<and> hinv {} {} (s1\<lparr>m_dfSet := remove1 r (m_dfSet s)\<rparr>) \<and> fewer s s1)"
proof -
  let ?oid = "nf_procOID (netflow n)" and ?k = "canonicalizeKey (netflow n)" and ?d = "remove1 r (m_dfSet s)"
  have "slot (tabs s) (NId ?oid ?k) = Some r" using hinv_slot [OF assms] by simp
  from slot_proc(1) [OF this] obtain p where p: "find_proc s ?oid = Some p" ..
  have h: "hinv {} {r} (s\<lparr>m_dfSet := ?d\<rparr>)" using hinv_unset [OF assms] by simp
  have "wp (removeNetworkFlow_key ?oid r ?k (s\<lparr>m_dfSet := ?d\<rparr>)) (\<lambda>u s1. hinv {} {} s1 \<and> fewer (s\<lparr>m_dfSet := ?d\<rparr>) s1)"
    using removeNetworkFlow_key_mem [OF h, of n] r by simp
  moreover have "removeNetworkFlow_key ?oid r ?k (s\<lparr>m_dfSet := ?d\<rparr>) =
      Some ((), (put_proc ?oid (p\<lparr>netflows := AList.delete ?k (netflows p)\<rparr>) s)\<lparr>heap := (heap s)(r := None), m_dfSet := ?d\<rparr>)"
    using p r by (simp add: removeNetworkFlow_key_def upd_proc_def free_def put_proc_def)
  moreover have "fewer s (put_proc ?oid (p\<lparr>netflows := AList.delete ?k (netflows p)\<rparr>) s)"
    by (rule fewer_put [OF p]) (auto split: if_splits)
  ultimately show ?thesis using p r
    by (simp add: removeNetworkFlow_def deref_net_def removeNetworkFlow_key_def upd_proc_def free_def)
qed

text \<open>The export of a process changes its mark only.\<close>

lemma exportProcess_mem:
  assumes "exportProcess I oid s = (P, s1)"
  shows "mem s1 = mem s" "map_option p_proc (find_proc s1 o1) = map_option p_proc (find_proc s o1)" "m_delProcQue s1 = m_delProcQue s"
proof -
  have "mem s1 = mem s \<and> map_option p_proc (find_proc s1 o1) = map_option p_proc (find_proc s o1) \<and> m_delProcQue s1 = m_delProcQue s"
  proof (cases "find_proc s oid")
    case (Some p)
    define s2 where "s2 = (case proc_containerId (p_proc p) of None \<Rightarrow> s | Some c \<Rightarrow> snd (exportContainer I c s))"
    have "core s2 = core s" using cstep_exportContainer by (auto simp: s2_def cstep_def split: option.split)
    then have c: "core (writeProcess I (p_proc p) s2) = core s" "core s2 = core s" by (simp_all add: writeProcess_def)
    note f = core_fields [OF c(1)] core_fields [OF c(2)]
    have "tabs (writeProcess I (p_proc p) s2) oid = (netflows p, fileflows p)"
      using mem_core [OF c(1)] tabs_find [OF Some] by (simp add: mem_def)
    then have "mem (put_proc oid (p\<lparr>p_written := True\<rparr>) (writeProcess I (p_proc p) s2)) = mem s"
      using mem_core [OF c(1)] by (simp add: mem_put)
    moreover have "s1 = put_proc oid (p\<lparr>p_written := True\<rparr>) (writeProcess I (p_proc p) s2) \<or> s1 = s2"
      using assms Some by (auto simp: exportProcess_def Let_def s2_def split: if_splits)
    ultimately show ?thesis using mem_core [OF c(2)] Some f by auto
  qed (use assms in \<open>simp add: exportProcess_def\<close>)
  then show "mem s1 = mem s" "map_option p_proc (find_proc s1 o1) = map_option p_proc (find_proc s o1)" "m_delProcQue s1 = m_delProcQue s"
    by simp_all
qed

lemma exportNetworkFlow_mem:
  assumes "hinv {} {} s" and r: "heap s r = Some (Net n)"
  shows "wp (exportNetworkFlow I r s) (\<lambda>u s1. hinv {} {} s1 \<and> m_dfSet s1 = m_dfSet s \<and> fewer s s1 \<and> dom (heap s1) = dom (heap s))"
proof -
  obtain t s1 where s1: "getSinspTime I s = (t, s1)" by fastforce
  let ?nf = "(netflow n)\<lparr>nf_endTs := t\<rparr>"
  obtain P s2 where s2: "exportProcess I (nf_procOID (netflow n)) s1 = (P, s2)" by fastforce
  let ?w = "writeNetFlow I ?nf (map_option p_proc P) s2"
  obtain t2 s3 where s3: "getSinspTime I ?w = (t2, s3)" by fastforce
  let ?n = "n\<lparr>netflow := nf_reup t2 ?nf\<rparr>"
  have m2: "mem s2 = mem s" using exportProcess_mem(1) [OF s2] mem_clock(2) [OF s1] by simp
  have m: "mem s3 = mem s" using mem_clock(2) [OF s3] m2 by simp
  then have h: "hinv {} {} s3" "heap s3 r = Some (Net n)" "m_dfSet s3 = m_dfSet s" "heap s3 = heap s" "tabs s3 = tabs s"
    using hinv_mem [OF m] assms by (simp_all add: mem_def)
  have f: "map_option p_proc (find_proc s3 o1) = map_option p_proc (find_proc s o1)" "m_delProcQue s3 = m_delProcQue s" for o1
  proof -
    obtain i j where "s1 = s\<lparr>reads := i\<rparr>" "s3 = ?w\<lparr>reads := j\<rparr>" using clock_frame s1 s3 by metis
    then show "map_option p_proc (find_proc s3 o1) = map_option p_proc (find_proc s o1)" "m_delProcQue s3 = m_delProcQue s"
      using exportProcess_mem(2,3) [OF s2] by simp_all
  qed
  have "hinv {} {} (put_flow r (Net ?n) s3)" by (rule hinv_put [OF h(1,2)]) (simp_all add: nf_reup_def canonicalizeKey_def)
  moreover have "fewer s (put_flow r (Net ?n) s3)" using f h(5) by (simp add: put_flow_def fewer_def)
  ultimately show ?thesis using r h(3,4)
    by (simp add: exportNetworkFlow_def deref_net_def s1 s2 s3 Let_def) (auto simp: put_flow_def)
qed

end
