(* ===== verification/MemFile.thy ===== *)
theory MemFile
  imports MemNet
begin

text \<open>
  The operations on file flows keep the memory of the flows in order, as those on network flows do.
  A file the flows refer to stays in the table of files meanwhile.
\<close>

section \<open>Files\<close>

text \<open>What an operation on a file leaves alone; no file goes.\<close>

definition files_only :: "sf \<Rightarrow> sf \<Rightarrow> bool" where
  "files_only s s1 = (core s1 = core s \<and> dom (find_file s) \<subseteq> dom (find_file s1))"

lemma files_only_refl [simp]: "files_only s s"
  by (simp add: files_only_def)

lemma files_only_trans: "files_only s s1 \<Longrightarrow> files_only s1 s2 \<Longrightarrow> files_only s s2"
  by (auto simp: files_only_def)

lemma files_only_fields:
  assumes "files_only s s1"
  shows "mem s1 = mem s" "heap s1 = heap s" "m_procs s1 = m_procs s" "m_delProcQue s1 = m_delProcQue s" "m_dfSet s1 = m_dfSet s"
    "m_cxt s1 = m_cxt s" "hinv R D s1 = hinv R D s" "fewer s s1" "dom (find_file s) \<subseteq> dom (find_file s1)"
proof -
  have c: "core s1 = core s" using assms by (simp add: files_only_def)
  note f = core_fields [OF c]
  show "mem s1 = mem s" "heap s1 = heap s" "m_procs s1 = m_procs s" "m_delProcQue s1 = m_delProcQue s" "m_dfSet s1 = m_dfSet s"
    "m_cxt s1 = m_cxt s" "fewer s s1" "dom (find_file s) \<subseteq> dom (find_file s1)"
    using mem_core [OF c] f assms by (simp_all add: fewer_same files_only_def)
  show "hinv R D s1 = hinv R D s" by (rule hinv_mem [OF mem_core [OF c]])
qed

lemma files_only_files:
  "files_only s (snd (getFile_key I k s))" "files_only s (snd (exportFile I k s))" "files_only s (file_incr k s)" "files_only s (file_decr k s)"
  by (auto simp: files_only_def getFile_key_def exportFile_def write_file_obj_def writeFile_def file_incr_def file_decr_def Let_def
      split: option.split)

lemma files_only_write: "files_only s (SHOULD_WRITE I ffo p f s)"
  by (simp add: files_only_def SHOULD_WRITE_def writeFileFlow_def)

lemma files_only_reads: "files_only s (s\<lparr>reads := n\<rparr>)"
  by (simp add: files_only_def)

lemma files_only_getFile:
  assumes "getFile I ev ti path tc st s = ((k, b), s1)"
  shows "files_only s s1" "find_file s1 k \<noteq> None"
proof -
  have w: "files_only s (write_file_obj I k f s)" "find_file (write_file_obj I k f s) k \<noteq> None" for k f s
    by (auto simp: files_only_def write_file_obj_def writeFile_def Let_def)
  have c: "files_only s s2" if "createFile I ev ti path tc st k s = (f, s2)" for k f s2
    using that cstep_getContainer [of s I "main_thread_or_self I ti"] by (auto simp: createFile_def Let_def cstep_def files_only_def split: prod.splits)
  show "files_only s s1" "find_file s1 k \<noteq> None"
    using assms w by (auto simp: getFile_def Let_def split: option.splits prod.splits if_splits intro: files_only_trans [OF c w(1)])
qed

section \<open>Taking flows out\<close>

lemma ff_same_ident: "ff_same s x r \<Longrightarrow> heap s r = Some (Fil f) \<Longrightarrow> \<exists>e. heap s x = Some e \<and> ident e = ident (Fil f)"
  by (cases "heap s x"; cases "the (heap s x)") (auto simp: ff_same_def fileflow_eq_def split: if_splits intro: OID.equality)

lemma ff_same_refl: "heap s r = Some (Fil f) \<Longrightarrow> ff_same s r r"
  by (simp add: ff_same_def fileflow_eq_def)

lemma removeFileFlowFromSet_eq:
  assumes "hinv R D s" and r: "heap s r = Some (Fil f)"
  obtains s1 where "files_only (s\<lparr>m_dfSet := remove1 r (m_dfSet s)\<rparr>) s1"
    and "\<And>b. removeFileFlowFromSet I r b s = do {
     (u, s2) \<leftarrow> (if b then free r s1 else Some ((), s1)); Some ((if r \<in> set (m_dfSet s) then 1 else 0), s2) }"
proof -
  have "ms_remove (df_key s) (\<lambda>x. ff_same s x r) r (m_dfSet s) = (r \<in> set (m_dfSet s), remove1 r (m_dfSet s))"
    using ff_same_refl [OF r] ff_same_ident [OF _ r] by (intro set_remove [OF assms])
  moreover define s1 where "s1 = (let s0 = s\<lparr>m_dfSet := remove1 r (m_dfSet s)\<rparr> in
    if r \<notin> set (m_dfSet s) \<and> find_proc s0 (ff_procOID (fileflow f)) \<noteq> None then snd (getFile_key I (filekey f) s0) else s0)"
  ultimately have "removeFileFlowFromSet I r b s = do {
     (u, s2) \<leftarrow> (if b then free r s1 else Some ((), s1)); Some ((if r \<in> set (m_dfSet s) then 1 else 0), s2) }" for b
    using hinv_live [OF assms] r by (simp add: removeFileFlowFromSet_def deref_file_def Let_def)
  moreover have "files_only (s\<lparr>m_dfSet := remove1 r (m_dfSet s)\<rparr>) s1" using files_only_files(1) by (simp add: s1_def Let_def)
  ultimately show ?thesis by (rule that [rotated])
qed

lemma removeFileFlowFromSet_keep:
  assumes "hinv R D s" and "heap s r = Some (Fil f)"
  shows "wp (removeFileFlowFromSet I r False s) (\<lambda>k s1. hinv R (insert r D) s1 \<and> heap s1 = heap s \<and>
    m_procs s1 = m_procs s \<and> m_delProcQue s1 = m_delProcQue s \<and> dom (find_file s) \<subseteq> dom (find_file s1))"
proof -
  obtain s1 where q: "files_only (s\<lparr>m_dfSet := remove1 r (m_dfSet s)\<rparr>) s1" and e: "\<And>b. removeFileFlowFromSet I r b s = do {
     (u, s2) \<leftarrow> (if b then free r s1 else Some ((), s1)); Some ((if r \<in> set (m_dfSet s) then 1 else 0), s2) }"
    using removeFileFlowFromSet_eq [OF assms] by metis
  show ?thesis using hinv_unset [OF assms] files_only_fields [OF q] by (simp add: e)
qed

lemma removeFileFlowFromSet_delete:
  assumes "hinv R {} s" and "heap s r = Some (Fil f)" and "r \<in> R"
  shows "wp (removeFileFlowFromSet I r True s) (\<lambda>k s1. hinv (R - {r}) {} s1 \<and> heap s1 = (heap s)(r := None) \<and>
    m_procs s1 = m_procs s \<and> m_delProcQue s1 = m_delProcQue s \<and> dom (find_file s) \<subseteq> dom (find_file s1))"
proof -
  obtain s1 where q: "files_only (s\<lparr>m_dfSet := remove1 r (m_dfSet s)\<rparr>) s1" and e: "\<And>b. removeFileFlowFromSet I r b s = do {
     (u, s2) \<leftarrow> (if b then free r s1 else Some ((), s1)); Some ((if r \<in> set (m_dfSet s) then 1 else 0), s2) }"
    using removeFileFlowFromSet_eq [OF assms(1,2)] by metis
  have "hinv R {r} s1" using hinv_unset [OF assms(1,2)] files_only_fields(7) [OF q] by simp
  from free_hinv [OF this assms(3)] show ?thesis using files_only_fields [OF q] by (simp add: e)
qed

lemma removeFileFlow_key_mem:
  assumes "hinv {} {r} s" and r: "heap s r = Some (Fil f)" "ident (Fil f) = FId oid key"
  shows "wp (removeFileFlow_key oid fk r key s) (\<lambda>u s1. hinv {} {} s1 \<and> fewer s s1)"
proof -
  obtain p where p: "find_proc s oid = Some p" and h: "hinv {r} {r} (put_proc oid (p\<lparr>fileflows := AList.delete key (fileflows p)\<rparr>) s)"
    and f: "fewer s (put_proc oid (p\<lparr>fileflows := AList.delete key (fileflows p)\<rparr>) s)"
    using cut_slot [OF assms] by auto
  let ?s = "(put_proc oid (p\<lparr>fileflows := AList.delete key (fileflows p)\<rparr>) s)\<lparr>heap := (heap s)(r := None)\<rparr>"
  define s1 where "s1 = (case fk of None \<Rightarrow> ?s | Some k \<Rightarrow> file_decr k ?s)"
  have q: "files_only ?s s1" using files_only_files(4) by (auto simp: s1_def split: option.split)
  have "fewer s ?s" using f by simp
  from fewer_trans [OF this files_only_fields(8) [OF q]] show ?thesis using free_hinv [OF h] p files_only_fields(7) [OF q]
    by (simp add: removeFileFlow_key_def upd_proc_def s1_def [symmetric])
qed

lemma removeAndWriteFileFlow_mem:
  assumes "hinv {} {} s" and r: "heap s r = Some (Fil f)" "ident (Fil f) = FId oid key" and fk: "find_file s fk \<noteq> None"
  shows "wp (removeAndWriteFileFlow I oid fk r key s) (\<lambda>u s1. hinv {} {} s1 \<and> fewer s s1)"
proof -
  have "slot (tabs s) (FId oid key) = Some r" using hinv_slot [OF assms(1) r(1)] r(2) by simp
  from slot_proc(2) [OF this] obtain p where p: "find_proc s oid = Some p" ..
  obtain g where g: "find_file s fk = Some g" using fk by auto
  let ?s = "SHOULD_WRITE I f (Some (p_proc p)) (Some (f_file g)) s"
  note q = files_only_fields [OF files_only_write [of s I f "Some (p_proc p)" "Some (f_file g)"]]
  have h: "hinv {} {} ?s" "heap ?s r = Some (Fil f)" using assms q by simp_all
  have "wp (removeFileFlowFromSet I r False ?s) (\<lambda>k s1. wp (removeFileFlow_key oid (Some fk) r key s1) (\<lambda>u s2. hinv {} {} s2 \<and> fewer s s2))"
  proof (rule wp_conseq [OF removeFileFlowFromSet_keep [OF h]], elim conjE)
    fix k s1 assume s1: "hinv {} {r} s1" "heap s1 = heap ?s" "m_procs s1 = m_procs ?s" "m_delProcQue s1 = m_delProcQue ?s"
    then have "fewer s s1" using q by (simp add: fewer_same)
    with s1 show "wp (removeFileFlow_key oid (Some fk) r key s1) (\<lambda>u s2. hinv {} {} s2 \<and> fewer s s2)"
      using removeFileFlow_key_mem [of r s1 f oid key "Some fk"] r q by (auto elim!: wp_conseq intro: fewer_trans)
  qed
  then show ?thesis using p r g by (simp add: removeAndWriteFileFlow_def deref_file_def deref_proc_def deref_fileobj_def)
qed

section \<open>The flows of the other threads\<close>

definition related :: "sf \<Rightarrow> FileFlowObj \<Rightarrow> ref \<Rightarrow> bool" where
  "related s ffo r = (\<exists>f. heap s r = Some (Fil f) \<and> ff_related ffo f)"

lemma map_of_filter_value:
  "tbl_ok t \<Longrightarrow> map_of (filter (\<lambda>(k, r). P r) t) k = (case map_of t k of None \<Rightarrow> None | Some r \<Rightarrow> if P r then Some r else None)"
proof (induction t)
  case (Cons e t)
  then show ?case by (cases e) (auto simp: tbl_ok_def map_of_eq_None_iff [symmetric] split: option.split)
qed simp

lemma collect_ff_eq:
  assumes "\<And>k r. (k, r) \<in> set t \<Longrightarrow> \<exists>f. heap s r = Some (Fil f)"
  shows "\<exists>rs. collect_ff s ffo t acc = Some (filter (\<lambda>(k, r). \<not> related s ffo r) t, rs) \<and>
    mset rs = mset acc + mset (map snd (filter (\<lambda>(k, r). related s ffo r) t))"
  using assms
proof (induction t arbitrary: acc)
  case (Cons e t)
  obtain k r where e: "e = (k, r)" by fastforce
  then obtain f where f: "heap s r = Some (Fil f)" using Cons.prems by fastforce
  have IH: "\<exists>rs. collect_ff s ffo t acc = Some (filter (\<lambda>(k, r). \<not> related s ffo r) t, rs) \<and>
    mset rs = mset acc + mset (map snd (filter (\<lambda>(k, r). related s ffo r) t))" for acc
    by (rule Cons.IH) (use Cons.prems in auto)
  have "related s ffo r = ff_related ffo f" by (simp add: related_def f)
  then show ?case using IH [of acc] IH [of "r # acc"] IH [of "acc @ [r]"] f by (auto simp: e)
qed simp

lemma write_related_ff_mem:
  assumes "hinv R {} s" and "distinct rs" and "set rs \<subseteq> R" and "\<And>r. r \<in> set rs \<Longrightarrow> \<exists>f. heap s r = Some (Fil f)"
  shows "wp (write_related_ff I P endTs rs s) (\<lambda>u s1. hinv (R - set rs) {} s1 \<and> (\<forall>x. x \<notin> set rs \<longrightarrow> heap s1 x = heap s x) \<and>
    m_procs s1 = m_procs s \<and> m_delProcQue s1 = m_delProcQue s \<and> dom (find_file s) \<subseteq> dom (find_file s1))"
  using assms
proof (induction rs arbitrary: R s)
  case (Cons r rs)
  obtain f where f: "heap s r = Some (Fil f)" using Cons.prems(4) by auto
  define g where "g = f\<lparr>fileflow := (fileflow f)\<lparr>ff_endTs := endTs, ff_opFlags := or (ff_opFlags (fileflow f)) (op_val OP_TRUNCATE)\<rparr>\<rparr>"
  define s1 where "s1 = put_flow r (Fil g) s"
  obtain fo s2 where fo: "getFile_key I (filekey g) s1 = (fo, s2)" by fastforce
  define s3 where "s3 = SHOULD_WRITE I g (Some P) (map_option f_file fo) s2"
  have "files_only s1 s2" using files_only_files(1) [of s1 I "filekey g"] fo by simp
  then have "files_only s1 s3" unfolding s3_def by (rule files_only_trans) (rule files_only_write)
  note q = files_only_fields [OF this]
  have "hinv R {} s1" unfolding s1_def by (rule hinv_put [OF Cons.prems(1) f]) (simp_all add: g_def)
  then have h: "hinv R {} s3" using q(7) by simp
  have s3: "heap s3 = (heap s)(r \<mapsto> Fil g)" "m_procs s3 = m_procs s" "m_delProcQue s3 = m_delProcQue s" "dom (find_file s) \<subseteq> dom (find_file s3)"
    using q by (simp_all add: s1_def put_flow_def)
  have e: "R - set (r # rs) = R - {r} - set rs" by auto
  have r3: "heap s3 r = Some (Fil g)" "r \<in> R" using s3 Cons.prems(3) by auto
  have "wp (removeFileFlowFromSet I r True s3) (\<lambda>k s4. wp (write_related_ff I P endTs rs s4) (\<lambda>u s5. hinv (R - set (r # rs)) {} s5 \<and>
      (\<forall>x. x \<notin> set (r # rs) \<longrightarrow> heap s5 x = heap s x) \<and> m_procs s5 = m_procs s \<and> m_delProcQue s5 = m_delProcQue s \<and> dom (find_file s) \<subseteq> dom (find_file s5)))"
  proof (rule wp_conseq [OF removeFileFlowFromSet_delete [OF h r3]], elim conjE)
    fix k s4 assume s4: "hinv (R - {r}) {} s4" "heap s4 = (heap s3)(r := None)" "m_procs s4 = m_procs s3" "m_delProcQue s4 = m_delProcQue s3"
      "dom (find_file s3) \<subseteq> dom (find_file s4)"
    have "wp (write_related_ff I P endTs rs s4) (\<lambda>u s5. hinv (R - {r} - set rs) {} s5 \<and> (\<forall>x. x \<notin> set rs \<longrightarrow> heap s5 x = heap s4 x) \<and>
        m_procs s5 = m_procs s4 \<and> m_delProcQue s5 = m_delProcQue s4 \<and> dom (find_file s4) \<subseteq> dom (find_file s5))"
    proof (rule Cons.IH)
      show "\<exists>f. heap s4 x = Some (Fil f)" if "x \<in> set rs" for x
        using that Cons.prems(2) Cons.prems(4) [of x] s4 by (auto simp: s3)
    qed (use s4 Cons.prems(2,3) in auto)
    then show "wp (write_related_ff I P endTs rs s4) (\<lambda>u s5. hinv (R - set (r # rs)) {} s5 \<and>
      (\<forall>x. x \<notin> set (r # rs) \<longrightarrow> heap s5 x = heap s x) \<and> m_procs s5 = m_procs s \<and> m_delProcQue s5 = m_delProcQue s \<and> dom (find_file s) \<subseteq> dom (find_file s5))"
      unfolding e by (rule wp_conseq) (use s3(1-3) s4(2-4) subset_trans [OF subset_trans [OF s3(4) s4(5)]] in simp)
  qed
  then show ?case using f fo by (simp add: deref_file_def Let_def g_def s1_def s3_def)
qed simp

lemma removeAndWriteRelatedFF_mem:
  assumes "hinv {} {} s" and p: "find_proc s oid = Some p"
  shows "wp (removeAndWriteRelatedFF I oid ffo endTs s) (\<lambda>u s1. hinv {} {} s1 \<and> fewer s s1 \<and> dom (find_file s) \<subseteq> dom (find_file s1) \<and>
    (\<forall>r. heap s r \<noteq> None \<and> \<not> related s ffo r \<longrightarrow> heap s1 r = heap s r))"
proof -
  let ?t = "filter (\<lambda>(k, r). \<not> related s ffo r) (fileflows p)"
  note ok = hinv_tbl_ok [OF assms]
  have tab: "(k, r) \<in> set (fileflows p) \<Longrightarrow> \<exists>f. heap s r = Some (Fil f) \<and> flowkey f = k" for k r
    using hinv_table(2) [OF assms, of k r] ok(2) by (auto simp: tbl_ok_def)
  obtain rs where c: "collect_ff s ffo (fileflows p) [] = Some (?t, rs)"
    and rs: "mset rs = mset (map snd (filter (\<lambda>(k, r). related s ffo r) (fileflows p)))"
    using collect_ff_eq [of "fileflows p" s ffo "[]"] tab by (metis add_0 mset.simps(1))
  have "distinct (map snd (fileflows p))"
  proof (rule distinct_values [OF ok(2)])
    show "k1 = k2" if "map_of (fileflows p) k1 = Some r" "map_of (fileflows p) k2 = Some r" for k1 k2 r
      using hinv_table(2) [OF assms that(1)] hinv_table(2) [OF assms that(2)] by auto
  qed
  then have d: "distinct rs" unfolding mset_eq_imp_distinct_iff [OF rs] by (simp add: distinct_map_filter)
  have set_rs: "set rs = snd ` set (filter (\<lambda>(k, r). related s ffo r) (fileflows p))"
    using mset_eq_setD [OF rs] by simp
  also have "\<dots> = {r. related s ffo r \<and> (\<exists>k. map_of (fileflows p) k = Some r)}"
    using ok(2) by (force simp: tbl_ok_def)
  finally have R: "set rs = {r. related s ffo r \<and> (\<exists>k. map_of (fileflows p) k = Some r)}" .
  let ?s = "put_proc oid (p\<lparr>fileflows := ?t\<rparr>) s" and ?L = "{k. \<exists>r. map_of (fileflows p) k = Some r \<and> related s ffo r}"
  have "hinv ({} \<union> {r. (\<exists>k \<in> {}. map_of (netflows p) k = Some r) \<or> (\<exists>k \<in> ?L. map_of (fileflows p) k = Some r)}) {} ?s"
    by (rule hinv_cut [OF assms]) (use ok in \<open>auto simp: map_of_filter_value tbl_ok_filter split: option.split\<close>)
  moreover have "{r. (\<exists>k \<in> {}. map_of (netflows p) k = Some r) \<or> (\<exists>k \<in> ?L. map_of (fileflows p) k = Some r)} = set rs"
    unfolding R by auto
  ultimately have h: "hinv (set rs) {} ?s" by simp
  have few: "fewer s ?s" by (rule fewer_put [OF p]) (auto simp: map_of_filter_value [OF ok(2)] split: option.splits if_splits)
  have "wp (write_related_ff I (p_proc p) endTs rs ?s) (\<lambda>u s1. hinv (set rs - set rs) {} s1 \<and> (\<forall>x. x \<notin> set rs \<longrightarrow> heap s1 x = heap ?s x) \<and>
    m_procs s1 = m_procs ?s \<and> m_delProcQue s1 = m_delProcQue ?s \<and> dom (find_file ?s) \<subseteq> dom (find_file s1))"
  proof (rule write_related_ff_mem [OF h d])
    show "\<exists>f. heap ?s r = Some (Fil f)" if "r \<in> set rs" for r using that tab unfolding set_rs by fastforce
  qed simp
  moreover have "dom (find_file ?s) = dom (find_file s)" by (simp add: put_proc_def)
  ultimately have "wp (write_related_ff I (p_proc p) endTs rs ?s) (\<lambda>u s1. hinv {} {} s1 \<and> fewer s s1 \<and> dom (find_file s) \<subseteq> dom (find_file s1) \<and>
    (\<forall>r. heap s r \<noteq> None \<and> \<not> related s ffo r \<longrightarrow> heap s1 r = heap s r))"
    using fewer_trans [OF few fewer_same] R by (auto elim!: wp_conseq)
  then show ?thesis using p c by (simp add: removeAndWriteRelatedFF_def deref_proc_def)
qed

section \<open>The handler\<close>

lemma updateFileFlow_same:
  assumes "updateFileFlow I flag ev fdinfo ffo s = (ffo1, s1)"
  shows "ident (Fil ffo1) = ident (Fil ffo)" "exportTime ffo1 = exportTime ffo" "\<exists>n. s1 = s\<lparr>reads := n\<rparr>"
    "ff_tid (fileflow ffo1) = ff_tid (fileflow ffo)"
proof -
  obtain t where c: "getCurrentTime I s = (t, s1)" using assms by (auto simp: updateFileFlow_def split: prod.splits)
  then show "\<exists>n. s1 = s\<lparr>reads := n\<rparr>" using clock_frame by blast
  have "ffo1 = ffo\<lparr>lastUpdate := t, fileflow := ff_count_op flag ev fdinfo ((fileflow ffo)\<lparr>ff_opFlags := or (ff_opFlags (fileflow ffo)) (op_val flag)\<rparr>)\<rparr>"
    using assms c by (simp add: updateFileFlow_def)
  then show "ident (Fil ffo1) = ident (Fil ffo)" "exportTime ffo1 = exportTime ffo" "ff_tid (fileflow ffo1) = ff_tid (fileflow ffo)"
    by (simp_all add: ff_count_op_def Let_def)
qed

lemma add_file_mem:
  assumes "hinv {} {} s" and p: "find_proc s oid = Some p" and "ident (Fil f) = FId oid key" and free: "map_of (fileflows p) key = None"
    and a: "alloc (Fil f) s = (r, s1)"
  shows "wp (do { (u, s2) \<leftarrow> upd_proc oid (\<lambda>p. p\<lparr>fileflows := AList.update key r (fileflows p)\<rparr>) s1; dfset_insert r (file_incr fk s2) })
    (\<lambda>u s3. hinv {} {} s3)"
proof -
  have fresh: "ident e \<noteq> ident (Fil f)" if "heap s x = Some e" for x e
    using hinv_slot [OF assms(1) that] slot_find(2) [OF p, of key] assms(3) free by auto
  note al = alloc_hinv [OF assms(1) fresh a]
  have p1: "find_proc s1 oid = Some p" using p al(5) by simp
  let ?s = "put_proc oid (p\<lparr>fileflows := AList.update key r (fileflows p)\<rparr>) s1"
  have "hinv ({r} - {r}) {r} ?s"
  proof (rule hinv_attach [OF al(1) _ _ _ _ al(2)])
    show "slot (tabs ?s) i = (if i = ident (Fil f) then Some r else slot (tabs s1) i)" for i
      unfolding assms(3) by (cases i) (auto simp: slot_put slot_find [OF p1])
  qed (use hinv_tbl_ok [OF al(1) p1] in \<open>auto intro!: tabs_put_ok [OF al(1)]\<close>)
  then have "hinv {} {r} (file_incr fk ?s)" using files_only_fields(7) [OF files_only_files(3)] by simp
  from dfset_insert_hinv [OF this, of r] have "wp (dfset_insert r (file_incr fk ?s)) (\<lambda>u s3. hinv {} {} s3)" by (auto elim!: wp_conseq)
  then show ?thesis using p1 by (simp add: upd_proc_def)
qed

lemma processNewFF_mem:
  assumes "hinv {} {} s" and p: "find_proc s oid = Some p" and free: "map_of (fileflows p) key = None"
    and fk: "find_file s fk \<noteq> None" and mode: "\<not> isConsumerMode (m_cxt s)"
  shows "wp (processNewFF I ev ti oid fk flag key fdinfo fd s) (\<lambda>u s1. hinv {} {} s1)"
proof -
  obtain t1 s1 where s1: "getCurrentTime I s = (t1, s1)" by fastforce
  obtain t2 s2 where s2: "getCurrentTime I s1 = (t2, s2)" by fastforce
  obtain i1 i2 where "s1 = s\<lparr>reads := i1\<rparr>" "s2 = s1\<lparr>reads := i2\<rparr>" using clock_frame s1 s2 by metis
  then have s2_eq: "s2 = s\<lparr>reads := i2\<rparr>" by simp
  obtain g where g: "find_file s2 fk = Some g" using fk by (auto simp: s2_eq)
  let ?f = "populateFileFlow (m_cxt s2) flag ev ti oid g key fdinfo fd (FileFlowObj_new\<lparr>exportTime := t1, lastUpdate := t2\<rparr>)"
  obtain f s3 where s3: "updateFileFlow I flag ev fdinfo ?f s2 = (f, s3)" by fastforce
  obtain i3 where s3_eq: "s3 = s\<lparr>reads := i3\<rparr>" using updateFileFlow_same(3) [OF s3] by (auto simp: s2_eq)
  have h: "hinv {} {} s3" "find_proc s3 oid = Some p" using assms(1) p hinv_mem [of s3 s] by (simp_all add: s3_eq)
  have id: "ident (Fil f) = FId oid key"
    unfolding updateFileFlow_same(1) [OF s3] using mode by (simp add: populateFileFlow_def Let_def s2_eq)
  obtain r s4 where a: "alloc (Fil f) s3 = (r, s4)" by fastforce
  have "wp (removeAndWriteRelatedFF I oid f (ev_ts ev) s3) (\<lambda>u s4. wp (deref_proc oid s4) (\<lambda>p s4. wp (deref_fileobj fk s4) (\<lambda>x s4. hinv {} {} s4)))"
  proof (rule wp_conseq [OF removeAndWriteRelatedFF_mem [OF h]], elim conjE)
    fix u s5 assume s5: "hinv {} {} s5" "fewer s3 s5" "dom (find_file s3) \<subseteq> dom (find_file s5)"
    then have "find_file s5 fk \<noteq> None" using fk by (auto simp: s3_eq)
    then show "wp (deref_proc oid s5) (\<lambda>p s4. wp (deref_fileobj fk s4) (\<lambda>x s4. hinv {} {} s4))"
      using fewer_find [OF s5(2) h(2)] s5(1) by (auto simp: deref_proc_def deref_fileobj_def)
  qed
  moreover have "hinv {} {} (SHOULD_WRITE I x y z s4) = hinv {} {} s4" for x y z s4 by (rule files_only_fields(7) [OF files_only_write])
  moreover have "flowkey f = key" using id by simp
  ultimately show ?thesis using add_file_mem [OF h id free a] g by (simp add: processNewFF_def s1 s2 s3 a deref_fileobj_def [of fk s2])
qed

lemma processExistingFF_mem:
  assumes "hinv {} {} s" and p: "find_proc s oid = Some p" and key: "map_of (fileflows p) key = Some r" and fk: "find_file s fk \<noteq> None"
  shows "wp (processExistingFF I ev oid fk flag key r fdinfo s) (\<lambda>u s1. hinv {} {} s1)"
proof -
  obtain f where f: "heap s r = Some (Fil f)" and id: "ident (Fil f) = FId oid key"
    using hinv_table(2) [OF assms(1) p key] by auto
  obtain f1 s1 where u: "updateFileFlow I flag ev fdinfo f s = (f1, s1)" by fastforce
  note same = updateFileFlow_same [OF u]
  obtain i where i: "s1 = s\<lparr>reads := i\<rparr>" using same(3) ..
  let ?s = "put_flow r (Fil f1) s1"
  have "hinv {} {} s1" "heap s1 r = Some (Fil f)" using assms(1) f hinv_mem [of s1 s] by (simp_all add: i)
  then have h: "hinv {} {} ?s" by (rule hinv_put) (use same in simp_all)
  have p1: "find_proc ?s oid = Some p" and r: "heap ?s r = Some (Fil f1)" using p by (simp_all add: put_flow_def i)
  have "wp (removeAndWriteRelatedFF I oid f1 (ev_ts ev) ?s) (\<lambda>u s3. wp (deref_file r s3) (\<lambda>m s3. wp (removeAndWriteFileFlow I oid fk r key
      (put_flow r (Fil (m\<lparr>fileflow := (fileflow m)\<lparr>ff_endTs := ev_ts ev\<rparr>\<rparr>)) s3)) (\<lambda>u s1. hinv {} {} s1)))"
  proof (rule wp_conseq [OF removeAndWriteRelatedFF_mem [OF h p1]], elim conjE)
    fix u s3 assume s3: "hinv {} {} s3" "dom (find_file ?s) \<subseteq> dom (find_file s3)"
      and keep: "\<forall>x. heap ?s x \<noteq> None \<and> \<not> related ?s f1 x \<longrightarrow> heap s3 x = heap ?s x"
    have "\<not> related ?s f1 r" using r by (simp add: related_def ff_related_def)
    then have r3: "heap s3 r = Some (Fil f1)" using keep r by simp
    let ?m = "f1\<lparr>fileflow := (fileflow f1)\<lparr>ff_endTs := ev_ts ev\<rparr>\<rparr>"
    let ?s3 = "put_flow r (Fil ?m) s3"
    have "hinv {} {} ?s3" by (rule hinv_put [OF s3(1) r3]) simp_all
    moreover have "heap ?s3 r = Some (Fil ?m)" "ident (Fil ?m) = FId oid key" "find_file ?s3 fk \<noteq> None"
      using same(1) id fk s3(2) by (auto simp: put_flow_def i)
    ultimately have "wp (removeAndWriteFileFlow I oid fk r key ?s3) (\<lambda>u s1. hinv {} {} s1 \<and> fewer ?s3 s1)"
      by (rule removeAndWriteFileFlow_mem)
    then have "wp (removeAndWriteFileFlow I oid fk r key ?s3) (\<lambda>u s1. hinv {} {} s1)" by (rule wp_conseq) simp
    then show "wp (deref_file r s3) (\<lambda>m s3. wp (removeAndWriteFileFlow I oid fk r key
      (put_flow r (Fil (m\<lparr>fileflow := (fileflow m)\<lparr>ff_endTs := ev_ts ev\<rparr>\<rparr>)) s3)) (\<lambda>u s1. hinv {} {} s1))"
      using r3 by (simp add: deref_file_def)
  qed
  then show ?thesis using f u h by (simp add: processExistingFF_def deref_file_def Let_def)
qed

section \<open>Flows of a process or thread that ends\<close>

lemma end_file_mem:
  assumes "hinv {} {} s" and r: "heap s r = Some (Fil f)" "ident (Fil f) = FId oid k"
  shows "wp (upd_proc oid (\<lambda>p. p\<lparr>fileflows := AList.delete k (fileflows p)\<rparr>) s)
    (\<lambda>u s1. wp (removeFileFlowFromSet I r True s1) (\<lambda>m s2. flows_cut s b {FId oid k} s2))"
proof -
  obtain p where p: "find_proc s oid = Some p" and c: "hinv {r} {} (put_proc oid (p\<lparr>fileflows := AList.delete k (fileflows p)\<rparr>) s)"
      "fewer s (put_proc oid (p\<lparr>fileflows := AList.delete k (fileflows p)\<rparr>) s)"
      "slot (tabs (put_proc oid (p\<lparr>fileflows := AList.delete k (fileflows p)\<rparr>) s)) (FId oid k) = None"
    using cut_slot [OF assms] by auto
  let ?s = "put_proc oid (p\<lparr>fileflows := AList.delete k (fileflows p)\<rparr>) s"
  have r1: "heap ?s r = Some (Fil f)" using r by simp
  have "wp (removeFileFlowFromSet I r True ?s) (\<lambda>m s2. flows_cut s b {FId oid k} s2)"
    by (rule wp_conseq [OF removeFileFlowFromSet_delete [OF c(1) r1 singletonI]]) (use flows_cut_cut [OF c(2,3)] in simp)
  then show ?thesis using p by (simp add: upd_proc_def)
qed

lemma flows_cut_files_only: "files_only s1 s2 \<Longrightarrow> flows_cut s b ids s1 \<Longrightarrow> flows_cut s b ids s2"
  using files_only_fields [of s1 s2] by (auto simp: flows_cut_def mem_def intro: fewer_trans)

lemma flows_cut_fewer: "fewer s s1 \<Longrightarrow> flows_cut s1 b ids s2 \<Longrightarrow> flows_cut s b ids s2"
  by (auto simp: flows_cut_def intro: fewer_trans)

lemma end_file_related:
  assumes h: "hinv {} {} s" and p: "find_proc s oid = Some p" and r: "heap s r = Some (Fil f)" "ident (Fil f) = FId oid k"
  shows "wp (if \<not> b then removeAndWriteRelatedFF I oid f t s else Some ((), s))
    (\<lambda>u s1. wp (deref_file r s1) (\<lambda>m s2. let f1 = m\<lparr>fileflow := (fileflow m)\<lparr>ff_opFlags := or (ff_opFlags (fileflow m)) (op_val OP_TRUNCATE)\<rparr>\<rparr> in
      wp (upd_proc oid (\<lambda>p. p\<lparr>fileflows := AList.delete k (fileflows p)\<rparr>)
        (SHOULD_WRITE I f1 (Some (p_proc p)) (Some (f_file file)) (put_flow r (Fil f1) s2)))
      (\<lambda>u s3. wp (removeFileFlowFromSet I r True s3) (\<lambda>j s4. flows_cut s b {FId oid k} (file_decr (filekey f1) s4)))))"
proof -
  have "wp (if \<not> b then removeAndWriteRelatedFF I oid f t s else Some ((), s))
      (\<lambda>u s1. hinv {} {} s1 \<and> fewer s s1 \<and> heap s1 r = Some (Fil f))"
    using h r(1) by (auto intro!: wp_conseq [OF removeAndWriteRelatedFF_mem [OF h p]] simp: related_def ff_related_def)
  then show ?thesis
  proof (rule wp_conseq, elim conjE)
    fix u s1 assume s1: "hinv {} {} s1" "fewer s s1" "heap s1 r = Some (Fil f)"
    let ?f = "f\<lparr>fileflow := (fileflow f)\<lparr>ff_opFlags := or (ff_opFlags (fileflow f)) (op_val OP_TRUNCATE)\<rparr>\<rparr>"
    let ?s1 = "put_flow r (Fil ?f) s1"
    let ?s = "SHOULD_WRITE I ?f (Some (p_proc p)) (Some (f_file file)) ?s1"
    note q = files_only_fields [OF files_only_write [of ?s1 I ?f "Some (p_proc p)" "Some (f_file file)"]]
    have "hinv {} {} ?s1" by (rule hinv_put [OF s1(1,3)]) simp_all
    then have "hinv {} {} ?s" using q(7) by simp
    moreover have "heap ?s r = Some (Fil ?f)" "ident (Fil ?f) = FId oid k" using r(2) q(2) by (simp_all add: put_flow_def)
    ultimately have e: "wp (upd_proc oid (\<lambda>p. p\<lparr>fileflows := AList.delete k (fileflows p)\<rparr>) ?s)
      (\<lambda>u s3. wp (removeFileFlowFromSet I r True s3) (\<lambda>j s4. flows_cut ?s b {FId oid k} s4))" by (rule end_file_mem)
    have "fewer s1 ?s1" by (simp add: fewer_same put_flow_def)
    from fewer_trans [OF fewer_trans [OF s1(2) this] q(8)] have f: "fewer s ?s" .
    have "wp (upd_proc oid (\<lambda>p. p\<lparr>fileflows := AList.delete k (fileflows p)\<rparr>) ?s)
      (\<lambda>u s3. wp (removeFileFlowFromSet I r True s3) (\<lambda>j s4. flows_cut s b {FId oid k} (file_decr (filekey ?f) s4)))"
      by (rule wp_conseq [OF e], erule wp_conseq) (rule flows_cut_files_only [OF files_only_files(4)], rule flows_cut_fewer [OF f])
    then show "wp (deref_file r s1) (\<lambda>m s2. let f1 = m\<lparr>fileflow := (fileflow m)\<lparr>ff_opFlags := or (ff_opFlags (fileflow m)) (op_val OP_TRUNCATE)\<rparr>\<rparr> in
      wp (upd_proc oid (\<lambda>p. p\<lparr>fileflows := AList.delete k (fileflows p)\<rparr>)
        (SHOULD_WRITE I f1 (Some (p_proc p)) (Some (f_file file)) (put_flow r (Fil f1) s2)))
      (\<lambda>u s3. wp (removeFileFlowFromSet I r True s3) (\<lambda>j s4. flows_cut s b {FId oid k} (file_decr (filekey f1) s4))))"
      using s1(3) by (simp add: deref_file_def Let_def)
  qed
qed

lemma wp_imp_wlp: "wp m Q \<Longrightarrow> wlp m Q"
  by (auto simp: wp_def wlp_def split: option.splits)

lemma ff_from_proc_loop_mem:
  assumes "hinv {} {} s" and "find_proc s oid = Some p"
  shows "wlp (ff_from_proc_loop I oid tid ks d s) (\<lambda>m s1. flows_cut s (tid = -1) (FId oid ` set ks) s1)"
  using assms
proof (induction ks arbitrary: d s p)
  case Nil
  then show ?case by (simp add: flows_cut_def)
next
  case (Cons k ks)
  note h = Cons.prems(1) and p = Cons.prems(2)
  have IH: "wlp (ff_from_proc_loop I oid tid ks d1 s1) (\<lambda>m s2. flows_cut s (tid = -1) (FId oid ` set (k # ks)) s2)"
    if e: "flows_cut s (tid = -1) {FId oid k} s1" for s1 d1
  proof -
    from e obtain p1 where "hinv {} {} s1" "find_proc s1 oid = Some p1" using fewer_find [OF _ p] by (auto simp: flows_cut_def)
    from Cons.IH [OF this] show ?thesis unfolding list.set image_insert by (rule wlp_conseq) (rule flows_cut_trans [OF e])
  qed
  show ?case
  proof (cases "map_of (fileflows p) k")
    case None
    then show ?thesis using IH [of s d] h p by (simp add: deref_proc_def flows_cut_def slot_find [OF p])
  next
    case (Some r)
    then obtain f where f: "heap s r = Some (Fil f)" and id: "ident (Fil f) = FId oid k" using hinv_table(2) [OF h p] by auto
    obtain fo s0 where fo: "getFile_key I (filekey f) s = (fo, s0)" by fastforce
    then have q: "files_only s s0" using files_only_files(1) [of s I "filekey f"] by simp
    show ?thesis
    proof (cases "(tid = -1 \<or> tid = ff_tid (fileflow f)) \<and> fo \<noteq> None")
      case True
      then obtain fl where fl: "fo = Some fl" by auto
      obtain t s1 where c: "getSinspTime I s0 = (t, s1)" by fastforce
      then obtain i where i: "s1 = s0\<lparr>reads := i\<rparr>" using clock_frame by blast
      have q1: "files_only s s1" unfolding i by (rule files_only_trans [OF q files_only_reads])
      let ?m = "f\<lparr>fileflow := (fileflow f)\<lparr>ff_endTs := t\<rparr>\<rparr>"
      let ?s = "put_flow r (Fil ?m) s1"
      have "hinv {} {} s1" "heap s1 r = Some (Fil f)" using h f files_only_fields(2,7) [OF q1] by simp_all
      then have h2: "hinv {} {} ?s" by (rule hinv_put) simp_all
      have s2: "find_proc ?s oid = Some p" "heap ?s r = Some (Fil ?m)" "ident (Fil ?m) = FId oid k"
        using p id files_only_fields(3) [OF q1] by (simp_all add: put_flow_def)
      note rel = wp_imp_wlp [OF end_file_related [OF h2 s2, of "tid = -1" I t fl]]
      have fe: "fewer s ?s" using files_only_fields(3,4) [OF q1] by (intro fewer_same) (simp_all add: put_flow_def)
      have step: "wlp (ff_from_proc_loop I oid tid ks d1 s2) (\<lambda>m s3. flows_cut s (tid = -1) (FId oid ` set (k # ks)) s3)"
        if "flows_cut ?s (tid = -1) {FId oid k} s2" for s2 d1
        using that by (intro IH) (rule flows_cut_fewer [OF fe])
      show ?thesis using True p f Some c fo fl rel
        by (simp add: deref_proc_def deref_file_def [of _ s] Let_def del: wp_if list.set cong: if_cong, auto elim!: wlp_conseq dest!: wp_imp_wlp simp: Let_def simp del: wp_if list.set)
          (use step in simp_all)
    next
      case False
      then consider "tid \<noteq> -1" "tid \<noteq> ff_tid (fileflow f)" | "tid = -1 \<or> tid = ff_tid (fileflow f)" "fo = None" by auto
      then show ?thesis
      proof cases
        case 1
        then have "flows_cut s (tid = -1) {FId oid k} s" using h by (simp add: flows_cut_def)
        from IH [OF this] show ?thesis using 1 f p Some by (simp add: deref_proc_def deref_file_def)
      qed (use f p Some fo in \<open>simp add: deref_proc_def deref_file_def\<close>)
    qed
  qed
qed

lemma removeAndWriteFFFromProc_mem:
  assumes "hinv {} {} s" and p: "find_proc s oid = Some p"
  shows "wlp (removeAndWriteFFFromProc I oid tid s) (\<lambda>m s1. hinv {} {} s1 \<and> fewer s s1 \<and> (tid = -1 \<longrightarrow> snd (tabs s1 oid) = []))"
proof -
  have "wlp (ff_from_proc_loop I oid tid (tbl_keys (fileflows p)) 0 s)
     (\<lambda>d s2. wlp (if tid = -1 then upd_proc oid (\<lambda>p. p\<lparr>fileflows := []\<rparr>) s2 else Some ((), s2)) (\<lambda>u s1. hinv {} {} s1 \<and> fewer s s1 \<and> (tid = -1 \<longrightarrow> snd (tabs s1 oid) = [])))"
  proof (rule wlp_conseq [OF ff_from_proc_loop_mem [OF assms]])
    fix d s1 assume e: "flows_cut s (tid = -1) (FId oid ` set (tbl_keys (fileflows p))) s1"
    then have h: "hinv {} {} s1" and f: "fewer s s1" by (simp_all add: flows_cut_def)
    obtain p1 where p1: "find_proc s1 oid = Some p1" "\<And>k r. map_of (fileflows p1) k = Some r \<Longrightarrow> map_of (fileflows p) k = Some r"
      using fewer_proc [OF f p] by metis
    have "fileflows p1 = []" if "tid = -1"
    proof (rule map_of_None_Nil)
      fix k show "map_of (fileflows p1) k = None"
      proof (cases "map_of (fileflows p) k")
        case None
        then show ?thesis using p1(2) [of k] by (cases "map_of (fileflows p1) k") auto
      next
        case (Some r)
        then have "k \<in> set (tbl_keys (fileflows p))" by auto
        then show ?thesis using e that by (simp add: flows_cut_def slot_find [OF p1(1)])
      qed
    qed
    moreover from this have "put_proc oid (p1\<lparr>fileflows := []\<rparr>) s1 = put_proc oid p1 s1" if "tid = -1" using that by (cases p1) simp
    moreover have "tabs (put_proc oid p1 s1) = tabs s1" "mem (put_proc oid p1 s1) = mem s1"
      using tabs_find [OF p1(1)] by (simp_all add: tabs_put mem_put fun_upd_idem)
    moreover from this have "hinv {} {} (put_proc oid p1 s1)" using h hinv_mem by blast
    ultimately show "wlp (if tid = -1 then upd_proc oid (\<lambda>p. p\<lparr>fileflows := []\<rparr>) s1 else Some ((), s1))
        (\<lambda>u s1. hinv {} {} s1 \<and> fewer s s1 \<and> (tid = -1 \<longrightarrow> snd (tabs s1 oid) = []))"
      using h f p1(1) tabs_find [OF p1(1)] by (auto simp: upd_proc_def intro: fewer_trans [OF f fewer_put [OF p1(1)]])
  qed
  then show ?thesis using p by (simp add: removeAndWriteFFFromProc_def deref_proc_def)
qed

section \<open>Expired flows\<close>

lemma expire_file_mem:
  assumes "hinv {} {} s" and r: "heap s r = Some (Fil f)"
  shows "wp (removeFileFlow I r s) (\<lambda>u s1. m_dfSet s1 = m_dfSet s \<and> hinv {} {} (s1\<lparr>m_dfSet := remove1 r (m_dfSet s)\<rparr>) \<and> fewer s s1)"
proof -
  let ?oid = "ff_procOID (fileflow f)" and ?k = "flowkey f" and ?d = "remove1 r (m_dfSet s)"
  have "slot (tabs s) (FId ?oid ?k) = Some r" using hinv_slot [OF assms] by simp
  from slot_proc(2) [OF this] obtain p where p: "find_proc s ?oid = Some p" ..
  obtain fo s1 where fo: "getFile_key I (filekey f) s = (fo, s1)" by fastforce
  let ?fk = "map_option (\<lambda>x. filekey f) fo"
  have q: "files_only s s1" using files_only_files(1) [of s I "filekey f"] fo by simp
  note qf = files_only_fields [OF q]
  let ?q = "p\<lparr>fileflows := AList.delete ?k (fileflows p)\<rparr>"
  define s2 where "s2 = (put_proc ?oid ?q s1)\<lparr>heap := (heap s)(r := None)\<rparr>"
  define s3 where "s3 = (case ?fk of None \<Rightarrow> s2 | Some k \<Rightarrow> file_decr k s2)"
  have q3: "files_only s2 s3" using files_only_files(4) by (auto simp: s3_def split: option.split)
  have e: "removeFileFlow I r s = Some ((), s3)"
    using p r fo qf by (simp add: removeFileFlow_def deref_file_def removeFileFlow_key_def upd_proc_def free_def s3_def s2_def split: option.split)
  have "hinv {} {} s1" "heap s1 r = Some (Fil f)" using assms qf by simp_all
  from hinv_unset [OF this] have h: "hinv {} {r} (s1\<lparr>m_dfSet := ?d\<rparr>)" using qf by simp
  have "wp (removeFileFlow_key ?oid None r ?k (s1\<lparr>m_dfSet := ?d\<rparr>)) (\<lambda>u s1a. hinv {} {} s1a \<and> fewer (s1\<lparr>m_dfSet := ?d\<rparr>) s1a)"
    using removeFileFlow_key_mem [OF h, of f] r qf by simp
  moreover have "removeFileFlow_key ?oid None r ?k (s1\<lparr>m_dfSet := ?d\<rparr>) = Some ((), s2\<lparr>m_dfSet := ?d\<rparr>)"
    using p r qf by (simp add: removeFileFlow_key_def upd_proc_def free_def put_proc_def s2_def)
  ultimately have h2: "hinv {} {} (s2\<lparr>m_dfSet := ?d\<rparr>)" "fewer s1 s2" by simp_all
  have "hinv {} {} (s3\<lparr>m_dfSet := ?d\<rparr>) = hinv {} {} (s2\<lparr>m_dfSet := ?d\<rparr>)"
    by (rule hinv_mem) (use files_only_fields(1) [OF q3] in \<open>simp add: mem_def\<close>)
  moreover have "m_dfSet s3 = m_dfSet s" using files_only_fields(5) [OF q3] qf(5) by (simp add: s2_def)
  moreover have "fewer s s3" using fewer_trans [OF qf(8) fewer_trans [OF h2(2) files_only_fields(8) [OF q3]]] .
  ultimately show ?thesis using h2 by (simp add: e)
qed

lemma exportFileFlow_mem:
  assumes "hinv {} {} s" and r: "heap s r = Some (Fil f)"
  shows "wp (exportFileFlow I r s) (\<lambda>u s1. hinv {} {} s1 \<and> m_dfSet s1 = m_dfSet s \<and> fewer s s1 \<and> dom (heap s1) = dom (heap s))"
proof -
  obtain t s1 where s1: "getSinspTime I s = (t, s1)" by fastforce
  let ?ff = "(fileflow f)\<lparr>ff_endTs := t\<rparr>"
  obtain P s2 where s2: "exportProcess I (ff_procOID (fileflow f)) s1 = (P, s2)" by fastforce
  obtain fo s3 where s3: "exportFile I (filekey f) s2 = (fo, s3)" by fastforce
  let ?w = "SHOULD_WRITE I (f\<lparr>fileflow := ?ff\<rparr>) (map_option p_proc P) (map_option f_file fo) s3"
  obtain t2 s4 where s4: "getSinspTime I ?w = (t2, s4)" by fastforce
  let ?f = "f\<lparr>fileflow := ff_reup t2 ?ff\<rparr>"
  obtain i j where ij: "s1 = s\<lparr>reads := i\<rparr>" "s4 = ?w\<lparr>reads := j\<rparr>" using clock_frame s1 s4 by metis
  have "files_only s2 s3" using files_only_files(2) [of s2 I "filekey f"] s3 by simp
  from files_only_trans [OF this files_only_write] have "files_only s2 ?w" .
  from files_only_trans [OF this files_only_reads, of j] have q: "files_only s2 s4" by (simp add: ij)
  have m: "mem s4 = mem s" using files_only_fields(1) [OF q] exportProcess_mem(1) [OF s2] by (simp add: ij)
  then have h: "hinv {} {} s4" "heap s4 r = Some (Fil f)" "m_dfSet s4 = m_dfSet s" "heap s4 = heap s" "tabs s4 = tabs s"
    using hinv_mem [OF m] assms by (simp_all add: mem_def)
  have "hinv {} {} (put_flow r (Fil ?f) s4)" by (rule hinv_put [OF h(1,2)]) (simp_all add: ff_reup_def)
  moreover have "fewer s (put_flow r (Fil ?f) s4)"
    using exportProcess_mem(2,3) [OF s2] files_only_fields(3,4) [OF q] h(5) by (simp add: put_flow_def fewer_def ij)
  ultimately show ?thesis using r h(3,4)
    by (simp add: exportFileFlow_def deref_file_def s1 s2 s3 s4 Let_def) (auto simp: put_flow_def)
qed

end
