(* ===== verification/MemProc.thy ===== *)
theory MemProc
  imports MemFile
begin

text \<open>
  The operations on processes, and the events that concern no flow, leave the flows and their tables
  alone. A new process must not take the place of one in the table: what the library says of the main
  thread of a main thread is a hypothesis.
\<close>

definition main_threads :: "inspector \<Rightarrow> bool" where
  "main_threads I = (\<forall>ti. (ti_is_main ti \<longrightarrow> thread_oid (main_thread_or_self I ti) = thread_oid ti) \<and>
     (\<forall>m. get_main_thread I ti = Some m \<longrightarrow> thread_oid (main_thread_or_self I m) = thread_oid m))"

lemma to_main_oid: "main_threads I \<Longrightarrow> thread_oid (main_thread_or_self I (to_main I ti)) = thread_oid (to_main I ti)"
  by (auto simp: main_threads_def to_main_def main_thread_or_self_def split: option.split)

text \<open>What the operations here leave alone.\<close>

definition calm :: "sf \<Rightarrow> sf \<Rightarrow> bool" where
  "calm s s1 = (mem s1 = mem s \<and> m_delProcQue s1 = m_delProcQue s)"

lemma calm_refl [simp]: "calm s s"
  by (simp add: calm_def)

lemma calm_trans: "calm s s1 \<Longrightarrow> calm s1 s2 \<Longrightarrow> calm s s2"
  by (simp add: calm_def)

lemma calm_core: "core s1 = core s \<Longrightarrow> calm s s1"
  using mem_core [of s1 s] core_fields(4) [of s1 s] by (simp add: calm_def)

lemma calm_fstep: "fstep s s1 \<Longrightarrow> calm s s1"
  by (rule calm_core) (simp add: fstep_def)

lemma calm_emit [simp]: "calm s (emit I c s1) = calm s s1"
  using core_fields(4) [OF core_emit] by (simp add: calm_def)

lemma calm_put:
  assumes "calm s s1" and "tabs s1 oid = (netflows p, fileflows p)"
  shows "calm s (put_proc oid p s1)"
  using assms by (simp add: calm_def mem_put)

lemma calm_put_find:
  "calm s s1 \<Longrightarrow> find_proc s1 oid = Some p \<Longrightarrow> netflows p1 = netflows p \<Longrightarrow> fileflows p1 = fileflows p \<Longrightarrow> calm s (put_proc oid p1 s1)"
  by (rule calm_put) (simp_all add: tabs_find)

lemma calm_clock:
  "getCurrentTime I s1 = (t, s2) \<Longrightarrow> calm s s1 \<Longrightarrow> calm s s2" "getSinspTime I s1 = (t, s2) \<Longrightarrow> calm s s1 \<Longrightarrow> calm s s2"
  by (auto simp: calm_def getCurrentTime_def getSinspTime_def split: if_splits)

lemma calm_upd [simp]:
  "calm s (s1\<lparr>m_pfSet := q\<rparr>) = calm s s1" "calm s (s1\<lparr>m_uid := u\<rparr>) = calm s s1" "calm s (s1\<lparr>m_k8sEvt := e\<rparr>) = calm s s1"
  "calm s (s1\<lparr>cf_lastCheck := t\<rparr>) = calm s s1" "calm s (s1\<lparr>m_delProcTime := t\<rparr>) = calm s s1"
  by (simp_all add: calm_def)

lemma calm_hinv: "calm s s1 \<Longrightarrow> hinv R D s1 = hinv R D s"
  by (rule hinv_mem) (simp add: calm_def)

lemma calm_wlp: "calm s s1 \<Longrightarrow> wlp m (\<lambda>r s2. calm s1 s2) \<Longrightarrow> wlp m (\<lambda>r s2. calm s s2)"
  by (erule wlp_conseq) (rule calm_trans)

section \<open>The process of an event\<close>

text \<open>New processes have no flows, and nor has the entry of the table they will be stored in.\<close>

definition fresh_news :: "sf \<Rightarrow> procref list \<Rightarrow> bool" where
  "fresh_news s ps = (\<forall>p. New p \<in> set ps \<longrightarrow> netflows p = [] \<and> fileflows p = [] \<and> tabs s (proc_oid (p_proc p)) = ([], []))"

lemma fresh_news_simps [simp]:
  "fresh_news s []" "fresh_news s (Old o1 # ps) = fresh_news s ps"
  "fresh_news s (New p # ps) = (netflows p = [] \<and> fileflows p = [] \<and> tabs s (proc_oid (p_proc p)) = ([], []) \<and> fresh_news s ps)"
  "fresh_news s (ps @ qs) = (fresh_news s ps \<and> fresh_news s qs)" "fresh_news s (rev ps) = fresh_news s ps"
  by (auto simp: fresh_news_def)

lemma calm_fresh: "calm s s1 \<Longrightarrow> fresh_news s1 ps = fresh_news s ps"
  by (simp add: calm_def mem_def fresh_news_def)

lemma createProcess_calm:
  assumes "createProcess I ti ev st s = (p, s1)" and "find_proc s (thread_oid (main_thread_or_self I ti)) = None"
  shows "calm s s1" "fresh_news s [New (add_child o1 p)]" "fresh_news s [New p]"
  using createProcess_step [OF assms(1)] assms(2) by (auto simp: calm_fstep proc_new_def add_child_def tabs_def)

lemma reup_calm:
  assumes "find_proc s oid = Some p" and "reupContainer I ti (proc_reup p) s = (p1, s1)"
  shows "calm s (put_proc oid p1 s1)" and "calm s (put_proc oid (add_child o1 p1) s1)"
proof -
  note r = reupContainer_step [OF assms(2)]
  have c: "calm s s1" by (rule calm_fstep [OF r(1)])
  have f: "find_proc s1 oid = Some p" using r(1) assms(1) core_find_proc [of s1 s] by (simp add: fstep_def)
  show "calm s (put_proc oid p1 s1)" "calm s (put_proc oid (add_child o1 p1) s1)"
    by (rule calm_put_find [OF c f]; simp add: r proc_reup_def add_child_def)+
qed

lemma ancestor_loop_calm:
  "ancestor_loop I ev ct mt ps s = Some y \<Longrightarrow>
     main_threads I \<longrightarrow> fresh_news s ps \<longrightarrow> calm s (snd y) \<and> fresh_news s (snd (snd (fst y)))"
proof (induction rule: ancestor_loop_induct)
  case (step loop I ev ct mt ps s y)
  note IH = step(1) and eq = step(2)
  let ?goal = "calm s (snd y) \<and> fresh_news s (snd (snd (fst y)))"
  show ?case
  proof (intro impI)
    assume main: "main_threads I" and new: "fresh_news s ps"
    have rec: ?goal if "loop I ev ct2 mt2 (ps @ qs) s2 = Some y" "calm s s2" "fresh_news s qs" for ct2 mt2 qs s2
      using IH [OF that(1)] that(2,3) new main calm_fresh [OF that(2)] by (auto intro: calm_trans)
    have stop: ?goal if "Some ((ct2, mt2, ps), s) = Some y" for ct2 mt2 using that new by auto
    show ?goal
    proof (cases mt)
      case None
      then show ?thesis using eq stop by simp
    next
      case (Some m0)
      define m where "m = to_main I m0"
      define key where "key = thread_oid m"
      have eq1: "(if ti_tid m0 = -1 then Some ((ct, Some m0, ps), s)
        else if ti_clone_ts m = 0 \<and> ti_pid m = 0 then loop I ev m (get_parent_thread I m) ps s
        else case find_proc s key of
          Some p \<Rightarrow> if p_written p then Some ((ct, Some m, ps), s)
            else (case reupContainer I m (proc_reup p) s of (p1, s1) \<Rightarrow>
              loop I ev m (get_parent_thread I m) (ps @ [Old key]) (put_proc key (add_child (ref_oid (last ps)) p1) s1))
        | None \<Rightarrow> (case createProcess I m ev REUP s of (p1, s1) \<Rightarrow>
              loop I ev m (get_parent_thread I m) (ps @ [New (add_child (ref_oid (last ps)) p1)]) s1)) = Some y"
        using eq unfolding Some option.case Let_def m_def key_def .
      show ?thesis
      proof (cases "ti_tid m0 = -1 \<or> (ti_clone_ts m = 0 \<and> ti_pid m = 0)")
        case True
        then show ?thesis using eq1 stop rec [of _ _ "[]" s] by (auto split: if_splits)
      next
        case False
        show ?thesis
        proof (cases "find_proc s key")
          case None
          obtain p1 s1 where c: "createProcess I m ev REUP s = (p1, s1)" by fastforce
          have "find_proc s (thread_oid (main_thread_or_self I m)) = None"
            using None to_main_oid [OF main] by (simp add: m_def key_def)
          from createProcess_calm [OF c this] show ?thesis using eq1 False None c rec by auto
        next
          case (Some p)
          obtain p1 s1 where c: "reupContainer I m (proc_reup p) s = (p1, s1)" by fastforce
          from reup_calm(2) [OF Some c] show ?thesis using eq1 False Some c rec stop by (auto split: if_splits)
        qed
      qed
    qed
  qed
qed

lemma pid_loop_calm:
  "pid_loop o1 prt ps s = Some y \<Longrightarrow> fresh_news s ps \<longrightarrow> calm s (snd y) \<and> fresh_news s (fst y)"
proof (induction rule: pid_loop_induct)
  case (step loop o1 prt ps s y)
  note IH = step(1) and eq = step(2)
  show ?case
  proof (cases "\<exists>oid p. prt = Some oid \<and> find_proc s oid = Some p")
    case False
    then show ?thesis using eq by (auto split: option.splits)
  next
    case True
    then obtain oid p where o: "prt = Some oid" "find_proc s oid = Some p" by blast
    let ?ps = "if \<not> p_written p then ps @ [Old oid] else ps"
    let ?s = "put_proc oid (add_child o1 p) s"
    have st: "calm s ?s" by (rule calm_put_find [OF calm_refl o(2)]) (simp_all add: add_child_def)
    have eq1: "(case proc_poid (p_proc p) of None \<Rightarrow> Some (?ps, ?s) | Some poid \<Rightarrow> loop oid (Some poid) ?ps ?s) = Some y"
      using eq o by (simp add: Let_def)
    have n: "fresh_news ?s ?ps = fresh_news s ps" using calm_fresh [OF st] by simp
    show ?thesis
    proof (cases "proc_poid (p_proc p)")
      case None
      then show ?thesis using eq1 st by auto
    next
      case (Some poid)
      then have "loop oid (Some poid) ?ps ?s = Some y" using eq1 by simp
      from IH [OF this] show ?thesis using st n calm_fresh [OF st] by (auto intro: calm_trans)
    qed
  qed
qed

lemma write_procs_calm:
  "write_procs I rs s = Some (u, s1) \<Longrightarrow> fresh_news s rs \<Longrightarrow> calm s s1"
proof (induction rs arbitrary: s)
  case (Cons r rs)
  obtain p where p: "(case r of New p \<Rightarrow> Some p | Old oid \<Rightarrow> find_proc s oid) = Some p"
    using Cons.prems(1) by (cases "case r of New p \<Rightarrow> Some p | Old oid \<Rightarrow> find_proc s oid") auto
  let ?s1 = "emit I (Write1 (R_Process (p_proc p))) s"
  let ?s2 = "put_proc (ref_oid r) (p\<lparr>p_written := True\<rparr>) ?s1"
  have "tabs ?s1 = tabs s" using mem_emit [of I "Write1 (R_Process (p_proc p))" s] by (simp add: mem_def)
  then have c: "calm s ?s2" using p Cons.prems(2) by (intro calm_put) (auto simp: tabs_find split: procref.splits)
  have "write_procs I rs ?s2 = Some (u, s1)" using Cons.prems(1) p by (simp add: writeProcess_def)
  moreover have "fresh_news ?s2 rs" using Cons.prems(2) calm_fresh [OF c] by (cases r) simp_all
  ultimately have "calm ?s2 s1" by (rule Cons.IH)
  with c show ?case by (rule calm_trans)
qed simp

lemma finish_process_calm:
  assumes "finish_process I ev mt r s = Some (u, s1)" and "fresh_news s [r]" and main: "main_threads I"
  shows "calm s s1"
proof -
  obtain ct mt1 ps s2 where a: "ancestor_loop I ev mt (get_parent_thread I mt) [r] s = Some ((ct, mt1, ps), s2)"
    and b: "Option.bind (if mt1 = None \<and> ti_ptid ct \<noteq> -1 then pid_loop (thread_oid ct) (getProcess_pid (ti_ptid ct) s2) ps s2
        else Some (ps, s2)) (\<lambda>(ps, s). write_procs I (rev ps) s) = Some (u, s1)"
    using assms(1) by (auto simp: finish_process_def split: bind_splits)
  from ancestor_loop_calm [OF a] assms(2) main have c2: "calm s s2" "fresh_news s ps" by auto
  from b obtain ps2 s3 where c: "(if mt1 = None \<and> ti_ptid ct \<noteq> -1 then pid_loop (thread_oid ct) (getProcess_pid (ti_ptid ct) s2) ps s2
        else Some (ps, s2)) = Some (ps2, s3)" and d: "write_procs I (rev ps2) s3 = Some (u, s1)"
    by (auto split: bind_splits)
  have "fresh_news s2 ps" using c2 calm_fresh [OF c2(1)] by simp
  then have c3: "calm s2 s3" "fresh_news s2 ps2"
    using c pid_loop_calm [of _ _ ps s2 "(ps2, s3)"] by (auto split: if_splits)
  then have "fresh_news s3 (rev ps2)" using calm_fresh [OF c3(1)] by simp
  from write_procs_calm [OF d this] show ?thesis using c2(1) c3(1) by (blast intro: calm_trans)
qed

lemma getProcess_calm:
  assumes "getProcess I ev st s = Some ((oid, b), s1)" and main: "main_threads I"
  shows "calm s s1" "\<exists>p. find_proc s1 oid = Some p"
proof -
  show "\<exists>p. find_proc s1 oid = Some p" using getProcess_step [OF assms(1)] by (auto simp: proc_written_def)
  obtain ti where ti: "ev_tinfo ev = Some ti" using assms(1) by (auto simp: getProcess_def split: option.splits)
  define mt where "mt = main_thread_or_self I ti"
  define key where "key = thread_oid mt"
  show "calm s s1"
  proof (cases "find_proc s key")
    case None
    obtain p1 s2 where c: "createProcess I ti ev st s = (p1, s2)" by fastforce
    note cp = createProcess_calm [OF c None [unfolded key_def mt_def]]
    obtain u where f: "finish_process I ev mt (New p1) s2 = Some (u, s1)"
      using assms ti None c by (auto simp: getProcess_def Let_def mt_def key_def split: bind_splits)
    have "fresh_news s2 [New p1]" using cp(3) unfolding calm_fresh [OF cp(1)] .
    from finish_process_calm [OF f this main] cp(1) show ?thesis by (rule calm_trans [rotated])
  next
    case (Some p)
    show ?thesis
    proof (cases "p_written p")
      case True
      then show ?thesis using assms ti Some by (auto simp: getProcess_def Let_def mt_def key_def)
    next
      case False
      obtain p1 s2 where c: "reupContainer I ti (proc_reup p) s = (p1, s2)" by fastforce
      obtain u where f: "finish_process I ev mt (Old key) (put_proc key p1 s2) = Some (u, s1)"
        using assms ti Some c False by (auto simp: getProcess_def Let_def mt_def key_def split: bind_splits)
      show ?thesis by (rule calm_trans [OF reup_calm(1) [OF Some c] finish_process_calm [OF f _ main]]) simp
    qed
  qed
qed

lemma getProcess_then_calm:
  assumes "main_threads I" and "\<And>oid b s1 p. calm s s1 \<Longrightarrow> find_proc s1 oid = Some p \<Longrightarrow> wlp (f ((oid, b), s1)) Q"
  shows "wlp (Option.bind (getProcess I ev st s) f) Q"
proof (cases "getProcess I ev st s")
  case (Some y)
  obtain oid b s1 where y: "y = ((oid, b), s1)" by (metis surj_pair)
  from getProcess_calm [OF Some [unfolded y] assms(1)] show ?thesis using assms(2) Some y by auto
qed simp

section \<open>File events\<close>

lemma files_only_calm: "files_only s s1 \<Longrightarrow> calm s s1"
  by (simp add: files_only_def calm_core)

lemma getFile_calm: "getFile I ev ti path tc st s1 = (k, s2) \<Longrightarrow> calm s s1 \<Longrightarrow> calm s s2"
  using files_only_getFile(1) [of I ev ti path tc st s1 "fst k" "snd k" s2] by (auto intro: calm_trans files_only_calm)

lemmas file_event_simps = wlp_pure deref_proc_def deref_fileobj_def writeFileEvent1_def writeFileEvent2_def Let_def

lemma writeLinkEvent_calm: "main_threads I \<Longrightarrow> wlp (writeLinkEvent I ev flag s) (\<lambda>n s1. calm s s1)"
  unfolding writeLinkEvent_def
  by (rule getProcess_then_calm) (auto simp: file_event_simps split: prod.split simp del: wlp_bind intro: getFile_calm)

lemma writeFileEvent_calm: "main_threads I \<Longrightarrow> wlp (writeFileEvent I ev flag s) (\<lambda>n s1. calm s s1)"
  unfolding writeFileEvent_def
  by (rule getProcess_then_calm) (auto simp: file_event_simps split: prod.split simp del: wlp_bind intro: getFile_calm)

lemma handleFileEvent_calm: "main_threads I \<Longrightarrow> wlp (handleFileEvent I ev flag s) (\<lambda>n s1. calm s s1)"
  by (simp add: handleFileEvent_def writeLinkEvent_calm writeFileEvent_calm)

section \<open>Process events and process flows\<close>

lemma writeCloneEvent_calm: "main_threads I \<Longrightarrow> wlp (writeCloneEvent I ev ti s) (\<lambda>u s1. calm s s1)"
  unfolding writeCloneEvent_def by (rule getProcess_then_calm) (auto simp: writeProcessEvent_def)

lemma rewrite_process_calm: "calm s s1 \<Longrightarrow> wlp (rewrite_process I ev ti oid b s1) (\<lambda>u s2. calm s s2)"
proof -
  assume c: "calm s s1"
  have "calm s (put_proc oid (p\<lparr>p_proc := q, p_written := True\<rparr>) (writeProcess I q s1))" if "find_proc s1 oid = Some p" for p q
  proof (rule calm_put)
    show "calm s (writeProcess I q s1)" using c by (simp add: writeProcess_def)
    have "tabs (writeProcess I q s1) = tabs s1" using mem_emit [of I "Write1 (R_Process q)" s1] by (simp add: writeProcess_def mem_def)
    then show "tabs (writeProcess I q s1) oid = (netflows (p\<lparr>p_proc := q, p_written := True\<rparr>), fileflows (p\<lparr>p_proc := q, p_written := True\<rparr>))"
      using tabs_find [OF that] by simp
  qed
  with c show ?thesis by (auto simp: rewrite_process_def Let_def)
qed

lemma writeSetUIDEvent_calm: "main_threads I \<Longrightarrow> wlp (writeSetUIDEvent I ev ti s) (\<lambda>u s1. calm s s1)"
  unfolding writeSetUIDEvent_def
  by (rule getProcess_then_calm) (auto simp: writeProcessEvent_def intro: wlp_conseq [OF rewrite_process_calm])

lemma writeExecEvent_calm: "main_threads I \<Longrightarrow> wlp (writeExecEvent I ev ti s) (\<lambda>u s1. calm s s1)"
  unfolding writeExecEvent_def
  by (rule getProcess_then_calm) (auto simp: writeProcessEvent_def intro: wlp_conseq [OF rewrite_process_calm])

lemma upd_pfo_calm: "calm s s1 \<Longrightarrow> wlp (upd_proc oid (\<lambda>p. p\<lparr>pfo := x\<rparr>) s1) (\<lambda>u s2. calm s s2)"
  unfolding upd_wlp by (auto intro: calm_put_find)

lemma pfset_insert_calm: "calm s s1 \<Longrightarrow> wlp (pfset_insert oid s1) (\<lambda>u s2. calm s s2)"
  by (simp add: pfset_insert_def)

lemma removeProcessFromSet_calm: "calm s s1 \<Longrightarrow> wlp (removeProcessFromSet oid s1) (\<lambda>n s2. calm s s2)"
  by (auto simp: removeProcessFromSet_def split: option.split prod.split intro: calm_put_find)

lemma updateProcFlow_calm: "updateProcFlow I flag ev f s1 = (f1, s2) \<Longrightarrow> calm s s1 \<Longrightarrow> calm s s2"
  by (auto simp: updateProcFlow_def split: prod.splits intro: calm_clock)

lemma processFlow_calm:
  assumes "main_threads I"
  shows "wlp (processFlow I ev flag s) (\<lambda>u s1. calm s s1)"
proof -
  have new: "wlp (processNewPF I ev oid flag s1) (\<lambda>u s2. calm s s2)" if c: "calm s s1" for oid s1
  proof -
    obtain t2 s2 t3 s3 where t: "getCurrentTime I s1 = (t2, s2)" "getCurrentTime I s2 = (t3, s3)" by fastforce
    obtain f s4 where u: "updateProcFlow I flag ev \<lparr>exportTime = t2, lastUpdate = t3, procflow = populateProcFlow flag ev oid\<rparr> s3 = (f, s4)" by fastforce
    have "calm s s4" by (rule updateProcFlow_calm [OF u calm_clock(1) [OF t(2) calm_clock(1) [OF t(1) c]]])
    then show ?thesis using t u by (auto simp: processNewPF_def intro!: wlp_conseq [OF upd_pfo_calm] pfset_insert_calm)
  qed
  show ?thesis unfolding processFlow_def
    by (rule getProcess_then_calm [OF assms])
      (auto split: option.split prod.split intro: new upd_pfo_calm updateProcFlow_calm)
qed

lemma calm_writeProcessFlow [simp]: "calm s (writeProcessFlow I pf p s1) = calm s s1"
  by (simp add: writeProcessFlow_def)

lemma removeAndWriteProcessFlow_calm: "calm s s1 \<Longrightarrow> wlp (removeAndWriteProcessFlow I oid s1) (\<lambda>u s2. calm s s2)"
proof -
  assume c: "calm s s1"
  have "wlp (removeProcessFromSet oid (writeProcessFlow I pf p s1)) (\<lambda>n s2. wlp (upd_proc oid (\<lambda>p. p\<lparr>pfo := None\<rparr>) s2) (\<lambda>u s3. calm s s3))" for pf p
    by (rule wlp_conseq [OF removeProcessFromSet_calm upd_pfo_calm]) (simp_all add: c)
  then have "wlp (removeProcessFromSet oid (writeProcessFlow I pf p s1) \<bind> (\<lambda>(n, s). upd_proc oid (\<lambda>p. p\<lparr>pfo := None\<rparr>) s)) (\<lambda>u s2. calm s s2)" for pf p
    by simp
  then show ?thesis unfolding removeAndWriteProcessFlow_def by (auto simp: wlp_pure [of "pfo p" for p] deref_proc_def simp del: wlp_bind split: bind_splits intro!: wlpI)
qed

lemma handleClone_calm: "main_threads I \<Longrightarrow> wlp (handleClone I ev ti s) (\<lambda>u s1. calm s s1)"
  by (auto simp: handleClone_def Let_def writeCloneEvent_calm processFlow_calm split: option.split)

lemma exportProcess_calm: "exportProcess I oid s1 = (q, s2) \<Longrightarrow> calm s s1 \<Longrightarrow> calm s s2"
  using exportProcess_mem(1,3) by (simp add: calm_def)

lemma exportProcessFlow_calm: "calm s s1 \<Longrightarrow> wlp (exportProcessFlow I oid f s1) (\<lambda>u s2. calm s s2)"
proof -
  assume c: "calm s s1"
  obtain t2 s2 where t: "getSinspTime I s1 = (t2, s2)" by fastforce
  let ?pf = "(procflow f)\<lparr>pf_endTs := t2\<rparr>"
  obtain q s3 where e: "exportProcess I (pf_procOID ?pf) s2 = (q, s3)" by fastforce
  obtain t4 s4 where t4: "getSinspTime I (writeProcessFlow I ?pf (map_option p_proc q) s3) = (t4, s4)" by fastforce
  have "calm s s3" by (rule exportProcess_calm [OF e calm_clock(2) [OF t c]])
  then have "calm s s4" by (intro calm_clock(2) [OF t4]) simp
  from upd_pfo_calm [OF this] show ?thesis using t e [simplified] t4 by (simp add: exportProcessFlow_def Let_def)
qed

lemma reinsertPF_calm: "calm s s1 \<Longrightarrow> wlp (reinsertPF I i oid s1) (\<lambda>j s2. calm s s2)"
proof -
  assume c: "calm s s1"
  obtain t s2 where t: "getCurrentTime I (s1\<lparr>m_pfSet := erase_at i (m_pfSet s1)\<rparr>) = (t, s2)" by fastforce
  have c2: "calm s s2" by (rule calm_clock(1) [OF t]) (simp add: c)
  have "wlp (pfset_insert oid (put_proc oid (p\<lparr>pfo := x\<rparr>) s2)) (\<lambda>u s3. calm s s3)" if "find_proc s2 oid = Some p" for p x
    by (rule pfset_insert_calm, rule calm_put_find [OF c2 that]) simp_all
  then show ?thesis using t
    by (cases "find_proc s2 oid"; cases "pfo (the (find_proc s2 oid))") (auto simp: reinsertPF_def Let_def deref_proc_def)
qed

lemma pf_expire_loop_calm: "pf_expire_loop I now i n s = Some y \<Longrightarrow> calm s (snd y)"
proof (induction rule: pf_expire_loop_induct)
  case (step loop I now i n s y)
  note IH = step(1) and eq = step(2)
  show ?case
  proof (cases "i < length (m_pfSet s) \<and> (\<exists>p f. find_proc s (m_pfSet s ! i) = Some p \<and> pfo p = Some f)")
    case False
    then show ?thesis using eq by (auto simp: Let_def split: if_splits option.splits)
  next
    case True
    then obtain p f where i: "i < length (m_pfSet s)" and p: "find_proc s (m_pfSet s ! i) = Some p" "pfo p = Some f" by auto
    let ?oid = "m_pfSet s ! i"
    have rm: "calm s (put_proc ?oid (p\<lparr>pfo := None\<rparr>) s)" by (rule calm_put_find [OF calm_refl p(1)]) simp_all
    have ex: "calm s s2" if "exportProcessFlow I ?oid f s = Some (u, s1)" "reinsertPF I i ?oid s1 = Some (j, s2)" for u s1 j s2
      using wlpD [OF exportProcessFlow_calm [OF calm_refl] that(1)] wlpD [OF reinsertPF_calm that(2)] by blast
    have rec: "calm s (snd y)" if "loop I now j m s2 = Some y" "calm s s2" for j m s2
      by (rule calm_trans [OF that(2) IH [OF that(1)]])
    show ?thesis using eq i p rm ex rec by (auto simp: Let_def split: if_splits option.splits prod.splits)
  qed
qed

lemma cf_checkForExpiredRecords_calm: "wlp (cf_checkForExpiredRecords I s) (\<lambda>n s1. calm s s1)"
proof -
  obtain t s1 where t: "getCurrentTime I s = (t, s1)" by fastforce
  have c: "calm s s1" by (rule calm_clock(1) [OF t]) simp
  have "wlp (pf_expire_loop I t 0 0 (s1\<lparr>cf_lastCheck := t\<rparr>)) (\<lambda>n s2. calm s s2)"
    by (rule wlpI, drule pf_expire_loop_calm) (use c calm_trans [of s "s1\<lparr>cf_lastCheck := t\<rparr>"] in auto)
  then show ?thesis using t c by (simp add: cf_checkForExpiredRecords_def)
qed

lemma handleK8sEvent_calm: "wlp (handleK8sEvent I ev s) (\<lambda>n s1. calm s s1)"
  by (auto simp: handleK8sEvent_def Let_def writeK8sEvent_def split: option.split list.split intro!: wlpI dest!: updateCompState_same)

end
