(* ===== verification/MemRun.thy ===== *)
theory MemRun
  imports MemProc
begin

text \<open>
  The memory of the flows over a run. Every step keeps the tables, the set and the heap in agreement,
  as long as no process is deleted that still has flows.
\<close>

section \<open>Events on flows\<close>

lemma wlp_calm_hinv: "wlp m (\<lambda>r s1. calm s s1) \<Longrightarrow> hinv {} {} s \<Longrightarrow> wlp m (\<lambda>r s1. hinv {} {} s1)"
  by (erule wlp_conseq) (simp add: calm_hinv)

text \<open>Given the process, the handlers of flows have an outcome and keep the memory in order.\<close>

lemma handleNetFlowEvent_wp:
  assumes "hinv {} {} s" and "main_threads I" and "getProcess I ev REUP s \<noteq> None"
  shows "wp (handleNetFlowEvent I ev flag s) (\<lambda>n s1. hinv {} {} s1)"
proof -
  obtain oid b s1 where g: "getProcess I ev REUP s = Some ((oid, b), s1)" using assms(3) by auto
  from getProcess_calm [OF g assms(2)] obtain p where c: "calm s s1" "find_proc s1 oid = Some p" by auto
  obtain ti where ti: "ev_tinfo ev = Some ti" using g by (auto simp: getProcess_def split: option.splits)
  have h: "hinv {} {} s1" using assms(1) calm_hinv [OF c(1)] by simp
  have "wp (case map_of (netflows p) key of None \<Rightarrow> processNewNF I ev ti fdinfo oid flag key s1
      | Some r \<Rightarrow> processExistingNF I ev oid flag key r s1) (\<lambda>u s2. hinv {} {} s2)"
    if "key = canonicalizeKey_fd fdinfo (ti_tid ti) (ev_fdnum ev)" for key fdinfo
    using processNewNF_mem [OF h c(2) _ that] processExistingNF_mem [OF h c(2)] by (simp split: option.split)
  then show ?thesis using assms(1) g ti c(2)
    by (simp add: handleNetFlowEvent_def deref_proc_def Let_def split: option.split)
qed

lemma createConsumerRecord_files_only:
  assumes "find_proc s oid = Some p" and "find_file s fk = Some f"
  shows "wp (createConsumerRecord I ev ti oid fk flag fdinfo fd s) (\<lambda>n s1. files_only s s1)"
  using assms files_only_write by (simp add: createConsumerRecord_def deref_proc_def deref_fileobj_def Let_def)

lemma handleFileFlowEvent_wp:
  assumes "hinv {} {} s" and "main_threads I" and "getProcess I ev REUP s \<noteq> None"
    and "find_fdinfo I ev flag = Some (fdi, fd)" and "\<And>fdinfo ti. fdi = Some fdinfo \<Longrightarrow> ev_tinfo ev = Some ti \<Longrightarrow> file_flow_key fdinfo ti fd \<noteq> None"
  shows "wp (handleFileFlowEvent I ev flag s) (\<lambda>n s1. hinv {} {} s1)"
proof (cases fdi)
  case (Some fdinfo)
  obtain oid b s1 where g: "getProcess I ev REUP s = Some ((oid, b), s1)" using assms(3) by auto
  from getProcess_calm [OF g assms(2)] obtain p where c: "calm s s1" "find_proc s1 oid = Some p" by auto
  obtain ti where ti: "ev_tinfo ev = Some ti" using g by (auto simp: getProcess_def split: option.splits)
  obtain fk b2 s2 where f: "getFile I ev ti (fd_name fdinfo) (fd_typechar fdinfo) REUP s1 = ((fk, b2), s2)" by (metis surj_pair)
  note q = files_only_getFile [OF f]
  have h: "hinv {} {} s2" using assms(1) calm_hinv [OF c(1)] files_only_fields(7) [OF q(1)] by simp
  have p: "find_proc s2 oid = Some p" using c(2) files_only_fields(3) [OF q(1)] by simp
  obtain key where key: "file_flow_key fdinfo ti fd = Some key" using assms(5) [OF Some ti] by auto
  have "wp (createConsumerRecord I ev ti oid fk flag fdinfo fd s2) (\<lambda>n s3. hinv {} {} s3)"
    using createConsumerRecord_files_only [OF p] q(2) h files_only_fields(7) by (fastforce elim: wp_conseq)
  moreover have "wp (case map_of (fileflows p) key of None \<Rightarrow> processNewFF I ev ti oid fk flag key fdinfo fd s2
      | Some r \<Rightarrow> processExistingFF I ev oid fk flag key r fdinfo s2) (\<lambda>u s3. hinv {} {} s3)" if "\<not> isConsumerMode (m_cxt s2)"
    using processNewFF_mem [OF h p _ q(2) that] processExistingFF_mem [OF h p _ q(2)] by (simp split: option.split)
  ultimately show ?thesis using assms(1,4) Some g ti f key p by (simp add: handleFileFlowEvent_def deref_proc_def)
qed (use assms in \<open>simp add: handleFileFlowEvent_def\<close>)

text \<open>Whatever their outcome, it keeps the memory in order.\<close>

lemma handleNetFlowEvent_hinv:
  assumes "hinv {} {} s" and "main_threads I"
  shows "wlp (handleNetFlowEvent I ev flag s) (\<lambda>n s1. hinv {} {} s1)"
proof (cases "getProcess I ev REUP s = None")
  case True
  then show ?thesis using assms(1) by (simp add: handleNetFlowEvent_def split: option.split)
next
  case False
  from wp_imp_wlp [OF handleNetFlowEvent_wp [OF assms False]] show ?thesis .
qed

lemma handleFileFlowEvent_hinv:
  assumes "hinv {} {} s" and "main_threads I"
  shows "wlp (handleFileFlowEvent I ev flag s) (\<lambda>n s1. hinv {} {} s1)"
proof (cases "find_fdinfo I ev flag")
  case (Some x)
  obtain fdi fd where x: "x = (fdi, fd)" by fastforce
  have tail: "wlp (case getFile I ev ti (fd_name fdinfo) tc REUP s1 of ((fk, c), s) \<Rightarrow>
      if isConsumerMode (m_cxt s) then createConsumerRecord I ev ti oid fk flag fdinfo fd s
      else do { fkey \<leftarrow> file_flow_key fdinfo ti fd; (p, s) \<leftarrow> deref_proc oid s;
        (u, s) \<leftarrow> (case map_of (fileflows p) fkey of None \<Rightarrow> processNewFF I ev ti oid fk flag fkey fdinfo fd s
                   | Some r \<Rightarrow> processExistingFF I ev oid fk flag fkey r fdinfo s); Some (0, s) }) (\<lambda>n s2. hinv {} {} s2)"
    if c: "calm s s1" "find_proc s1 oid = Some p" for ti fdinfo tc oid s1 p
  proof -
    obtain fk b2 s2 where f: "getFile I ev ti (fd_name fdinfo) tc REUP s1 = ((fk, b2), s2)" by (metis surj_pair)
    note q = files_only_getFile [OF f]
    have h: "hinv {} {} s2" using assms(1) calm_hinv [OF c(1)] files_only_fields(7) [OF q(1)] by simp
    have p: "find_proc s2 oid = Some p" using c(2) files_only_fields(3) [OF q(1)] by simp
    have "wlp (createConsumerRecord I ev ti oid fk flag fdinfo fd s2) (\<lambda>n s3. hinv {} {} s3)"
      using h files_only_fields(7) [OF files_only_write] by (auto simp: createConsumerRecord_def Let_def)
    moreover have "wlp (case map_of (fileflows p) key of None \<Rightarrow> processNewFF I ev ti oid fk flag key fdinfo fd s2
        | Some r \<Rightarrow> processExistingFF I ev oid fk flag key r fdinfo s2) (\<lambda>u s3. hinv {} {} s3)" if "\<not> isConsumerMode (m_cxt s2)" for key
      using wp_imp_wlp [OF processNewFF_mem [OF h p _ q(2) that]] wp_imp_wlp [OF processExistingFF_mem [OF h p _ q(2)]]
      by (simp split: option.split)
    ultimately show ?thesis using f p by (cases "file_flow_key fdinfo ti fd") simp_all
  qed
  show ?thesis using assms(1) Some x
    by (cases fdi) (auto simp: handleFileFlowEvent_def simp del: wlp_bind split: option.split intro!: getProcess_then_calm [OF assms(2)] tail)
qed (simp add: handleFileFlowEvent_def)

lemma handleDataEvent_hinv:
  "hinv {} {} s \<Longrightarrow> main_threads I \<Longrightarrow> wlp (handleDataEvent I ev flag s) (\<lambda>n s1. hinv {} {} s1)"
  by (auto simp: handleDataEvent_def handleFileFlowEvent_hinv handleNetFlowEvent_hinv split: option.split
      intro!: wlp_calm_hinv [OF handleFileEvent_calm])

section \<open>Exits\<close>

lemma removeAndWriteDFFromProc_mem:
  assumes "hinv {} {} s" and p: "find_proc s oid = Some p"
  shows "wlp (removeAndWriteDFFromProc I oid tid s) (\<lambda>n s1. hinv {} {} s1 \<and> fewer s s1 \<and> (tid = -1 \<longrightarrow> tabs s1 oid = ([], [])))"
proof -
  have "wlp (removeAndWriteFFFromProc I oid tid s) (\<lambda>n s1. wlp (removeAndWriteNFFromProc I oid tid s1)
      (\<lambda>m s2. hinv {} {} s2 \<and> fewer s s2 \<and> (tid = -1 \<longrightarrow> tabs s2 oid = ([], []))))"
  proof (rule wlp_conseq [OF removeAndWriteFFFromProc_mem [OF assms]], elim conjE)
    fix n s1 assume s1: "hinv {} {} s1" "fewer s s1" "tid = -1 \<longrightarrow> snd (tabs s1 oid) = []"
    obtain p1 where p1: "find_proc s1 oid = Some p1" using fewer_find [OF s1(2) p] by auto
    show "wlp (removeAndWriteNFFromProc I oid tid s1) (\<lambda>m s2. hinv {} {} s2 \<and> fewer s s2 \<and> (tid = -1 \<longrightarrow> tabs s2 oid = ([], [])))"
    proof (rule wlp_conseq [OF wp_imp_wlp [OF removeAndWriteNFFromProc_mem [OF s1(1) p1]]], elim conjE, intro conjI impI)
      fix m s2 assume s2: "fewer s1 s2" "tid = -1 \<longrightarrow> fst (tabs s2 oid) = []" "tid = -1"
      have "snd (tabs s2 oid) = []"
      proof (rule map_of_None_Nil)
        fix k
        have "slot (tabs s1) (FId oid k) = None" using s1(3) s2(3) by (simp add: slot.simps)
        from fewer_slot [OF s2(1) this] show "map_of (snd (tabs s2 oid)) k = None" by (simp add: slot.simps)
      qed
      then show "tabs s2 oid = ([], [])" using s2(2,3) by (simp add: prod_eq_iff)
    qed (use s1(2) in \<open>auto intro: fewer_trans\<close>)
  qed
  then show ?thesis by (simp add: removeAndWriteDFFromProc_def)
qed

lemma writeExitEvent_hinv:
  assumes "hinv {} {} s" and "main_threads I"
  shows "wlp (writeExitEvent I ev ti s) (\<lambda>u s1. hinv {} {} s1)"
proof -
  have m: "hinv {} {} (markForDeletion I oid s1) = hinv {} {} s1" for oid s1
    by (rule hinv_mem) (auto simp: markForDeletion_def split: prod.split dest: mem_clock)
  have w: "hinv {} {} (writeProcessEvent I e p s1) = hinv {} {} s1" for e p s1
    by (rule hinv_mem) (simp add: writeProcessEvent_def)
  have df: "wlp (removeAndWriteDFFromProc I oid tid s1) (\<lambda>n s2. hinv {} {} s2)" if "calm s s1" "find_proc s1 oid = Some p" for oid tid s1 p
    using removeAndWriteDFFromProc_mem [OF _ that(2)] assms(1) calm_hinv [OF that(1)] by (fastforce elim: wlp_conseq)
  show ?thesis unfolding writeExitEvent_def
    by (intro getProcess_then_calm [OF assms(2)]) (auto simp: Let_def m w intro: wlp_conseq [OF df])
qed

lemma handleExit_hinv:
  assumes h: "hinv {} {} s" and main: "main_threads I"
  shows "wlp (handleExit I ev ti s) (\<lambda>u s1. hinv {} {} s1)"
proof -
  have e: "wlp (writeExitEvent I ev ti s1) (\<lambda>u s2. hinv {} {} s2)" if "calm s s1" for s1
    using writeExitEvent_hinv [OF _ main] h calm_hinv [OF that] by simp
  have pf: "wlp (do { ((oid, b), s1) \<leftarrow> getProcess I ev REUP s; (p, s1) \<leftarrow> deref_proc oid s1;
      (case pfo p of None \<Rightarrow> Some ((), s1) | Some f \<Rightarrow> do {
        (u, s1) \<leftarrow> upd_proc oid (\<lambda>p. p\<lparr>pfo := Some (f\<lparr>procflow := (procflow f)\<lparr>pf_endTs := ev_ts ev\<rparr>\<rparr>)\<rparr>) s1;
        removeAndWriteProcessFlow I oid s1 }) }) (\<lambda>u s1. calm s s1)"
    by (rule getProcess_then_calm [OF main])
      (auto split: option.split intro: wlp_conseq [OF upd_pfo_calm removeAndWriteProcessFlow_calm])
  have e2: "wlp m (\<lambda>u s1. calm s s1) \<Longrightarrow> wlp (Option.bind m (\<lambda>(u, s1). writeExitEvent I ev ti s1)) (\<lambda>u s1. hinv {} {} s1)" for m :: "(unit \<times> sf) option"
    by (auto intro: wlp_conseq e)
  show ?thesis
  proof (cases "enableProcessFlow (config s)")
    case True
    have "wlp (processFlow I ev OP_EXIT s) (\<lambda>u s1. (\<not> enableProcessFlow (config s1) \<longrightarrow> wlp (writeExitEvent I ev ti s1) (\<lambda>u s2. hinv {} {} s2)) \<and>
        (enableProcessFlow (config s1) \<longrightarrow> hinv {} {} s1))"
      by (rule wlp_conseq [OF processFlow_calm [OF main]]) (use e h calm_hinv in blast)
    then show ?thesis using e2 [OF pf] True by (cases "ti_is_main ti") (simp_all add: handleExit_def)
  next
    case False
    then show ?thesis using e [OF calm_refl] by (simp add: handleExit_def)
  qed
qed

lemma handleProcEvent_hinv:
  "hinv {} {} s \<Longrightarrow> main_threads I \<Longrightarrow> wlp (handleProcEvent I ev flag s) (\<lambda>n s1. hinv {} {} s1)"
  by (auto simp: handleProcEvent_def handleExit_hinv split: option.split OpFlags.split
      intro: wlp_calm_hinv [OF writeExecEvent_calm] wlp_calm_hinv [OF writeSetUIDEvent_calm] wlp_calm_hinv [OF handleClone_calm])

lemma dispatch_hinv:
  assumes "hinv {} {} s" and "main_threads I"
  shows "wlp (dispatch I ev s) (\<lambda>u s1. hinv {} {} s1)"
proof -
  have m: "wlp (map_option (\<lambda>(n, s). ((), s)) x) (\<lambda>u s1. hinv {} {} s1)" if "wlp x (\<lambda>n s1. hinv {} {} s1)" for x :: "(int \<times> sf) option"
    using that by (cases x) auto
  have u: "hinv {} {} (s\<lparr>m_uid := x\<rparr>) = hinv {} {} s" for x by (rule hinv_mem) simp
  show ?thesis using assms u wlp_calm_hinv [OF handleK8sEvent_calm assms(1)]
    by (auto simp: dispatch_def setUID_def m handleProcEvent_hinv handleDataEvent_hinv split: evt_class.split)
qed

lemma handle_event_hinv: "hinv {} {} s \<Longrightarrow> main_threads I \<Longrightarrow> wlp (handle_event I ev s) (\<lambda>u s1. hinv {} {} s1)"
  by (auto simp: handle_event_def dispatch_hinv split: option.split)

section \<open>Expired flows\<close>

lemma erase_at_remove1: "distinct xs \<Longrightarrow> i < length xs \<Longrightarrow> erase_at i xs = remove1 (xs ! i) xs"
proof -
  assume d: "distinct xs" and i: "i < length xs"
  have xs: "xs = take i xs @ xs ! i # drop (Suc i) xs" by (rule id_take_nth_drop [OF i])
  have "xs ! i \<notin> set (take i xs)" using d i by (auto simp: in_set_conv_nth nth_eq_iff_index_eq)
  then have "remove1 (xs ! i) (take i xs @ xs ! i # drop (Suc i) xs) = take i xs @ drop (Suc i) xs" by (simp add: remove1_append)
  then show ?thesis using xs by (simp add: erase_at_def)
qed

lemma ident_exportTime [simp]: "ident (df_set_exportTime t d) = ident d"
  by (cases d) simp_all

lemma reinsertFlow_mem:
  assumes h: "hinv {} {} s" and i: "i < length (m_dfSet s)"
  shows "wp (reinsertFlow I i (m_dfSet s ! i) s) (\<lambda>j s1. hinv {} {} s1 \<and> fewer s s1)"
proof -
  let ?r = "m_dfSet s ! i"
  have "?r \<in> set (m_dfSet s)" using i by simp
  then obtain d where d: "heap s ?r = Some d" using hinvD(2) [OF h] by auto
  have e: "erase_at i (m_dfSet s) = remove1 ?r (m_dfSet s)" by (rule erase_at_remove1 [OF hinvD(1) [OF h] i])
  obtain t s1 where t: "getCurrentTime I (s\<lparr>m_dfSet := erase_at i (m_dfSet s)\<rparr>) = (t, s1)" by fastforce
  then obtain n where n: "s1 = s\<lparr>m_dfSet := remove1 ?r (m_dfSet s), reads := n\<rparr>" using clock_frame e by metis
  let ?s = "put_flow ?r (df_set_exportTime t d) s1"
  have "hinv {} {?r} s1" using hinv_unset [OF h d] hinv_mem [of s1 "s\<lparr>m_dfSet := remove1 ?r (m_dfSet s)\<rparr>"] by (simp add: n)
  then have "hinv {} {?r} ?s" by (rule hinv_put) (use d in \<open>simp_all add: n\<close>)
  from dfset_insert_hinv [OF this singletonI]
  have "wp (dfset_insert ?r ?s) (\<lambda>u s2. hinv {} {} s2 \<and> m_procs s2 = m_procs s \<and> m_delProcQue s2 = m_delProcQue s)"
    by (simp add: n put_flow_def)
  then have "wp (dfset_insert ?r ?s) (\<lambda>u s2. hinv {} {} s2 \<and> fewer s s2)" by (rule wp_conseq) (simp add: fewer_same)
  then show ?thesis using t d n by (simp add: reinsertFlow_def deref_def Let_def)
qed

lemma removeFlow_mem:
  assumes "hinv {} {} s" and "heap s r = Some d"
  shows "wp (removeFlow I r d s) (\<lambda>u s1. m_dfSet s1 = m_dfSet s \<and> hinv {} {} (s1\<lparr>m_dfSet := remove1 r (m_dfSet s)\<rparr>) \<and> fewer s s1)"
  using expire_net_mem [OF assms(1)] expire_file_mem [OF assms(1)] assms(2) by (cases d) (auto simp: removeFlow_def)

lemma exportFlow_mem:
  assumes "hinv {} {} s" and "heap s r = Some d"
  shows "wp (exportFlow I r d s) (\<lambda>u s1. hinv {} {} s1 \<and> m_dfSet s1 = m_dfSet s \<and> fewer s s1)"
proof (cases d)
  case (Net n)
  then show ?thesis using exportNetworkFlow_mem [OF assms(1), of r n I] assms(2) by (auto simp: exportFlow_def elim: wp_conseq)
next
  case (Fil f)
  then show ?thesis using exportFileFlow_mem [OF assms(1), of r f I] assms(2) by (auto simp: exportFlow_def elim: wp_conseq)
qed

lemma expire_loop_mem: "expire_loop I now i n s = Some y \<Longrightarrow> hinv {} {} s \<longrightarrow> hinv {} {} (snd y) \<and> fewer s (snd y)"
proof (induction rule: expire_loop_induct)
  case (step loop I now i n s y)
  note IH = step(1) and eq = step(2)
  show ?case
  proof
    assume h: "hinv {} {} s"
    have rec: "hinv {} {} (snd y) \<and> fewer s (snd y)" if "loop I now j m s2 = Some y" "hinv {} {} s2" "fewer s s2" for j m s2
      using IH [OF that(1)] that(2) fewer_trans [OF that(3)] by blast
    show "hinv {} {} (snd y) \<and> fewer s (snd y)"
    proof (cases "i < length (m_dfSet s) \<and> heap s (m_dfSet s ! i) \<noteq> None")
      case False
      then show ?thesis using eq h by (auto simp: Let_def split: if_splits)
    next
      case True
      then obtain d where d: "heap s (m_dfSet s ! i) = Some d" and i: "i < length (m_dfSet s)" by auto
      let ?r = "m_dfSet s ! i"
      have rm: "hinv {} {} (s1\<lparr>m_dfSet := erase_at i (m_dfSet s1)\<rparr>) \<and> fewer s (s1\<lparr>m_dfSet := erase_at i (m_dfSet s1)\<rparr>)"
        if "removeFlow I ?r d s = Some (u, s1)" for u s1
        using removeFlow_mem [OF h d, of I] that erase_at_remove1 [OF hinvD(1) [OF h] i] by simp
      have ex: "hinv {} {} s2 \<and> fewer s s2" if "exportFlow I ?r d s = Some (u, s1)" "reinsertFlow I i ?r s1 = Some (j, s2)" for u s1 j s2
      proof -
        have s1: "hinv {} {} s1" "m_dfSet s1 = m_dfSet s" "fewer s s1" using exportFlow_mem [OF h d, of I] that(1) by simp_all
        with reinsertFlow_mem [OF s1(1), of i I] i that(2) show ?thesis by (auto intro: fewer_trans)
      qed
      show ?thesis using eq d i rm ex rec h by (auto simp: Let_def split: if_splits option.splits prod.splits)
    qed
  qed
qed

lemma df_checkForExpiredRecords_mem:
  assumes h: "hinv {} {} s"
  shows "wlp (df_checkForExpiredRecords I s) (\<lambda>n s1. hinv {} {} s1 \<and> fewer s s1)"
proof -
  obtain t s1 where t: "getCurrentTime I s = (t, s1)" by fastforce
  obtain n where n: "s1 = s\<lparr>reads := n\<rparr>" using t clock_frame by blast
  have h1: "hinv {} {} (s1\<lparr>df_lastCheck := x\<rparr>)" "fewer s (s1\<lparr>df_lastCheck := x\<rparr>)" "hinv {} {} s1" "fewer s s1" for x
    using h hinv_mem [of "s1\<lparr>df_lastCheck := x\<rparr>" s] hinv_mem [of s1 s] by (simp_all add: n fewer_same)
  have "wlp (expire_loop I t 0 0 (s1\<lparr>df_lastCheck := t\<rparr>)) (\<lambda>n s2. hinv {} {} s2 \<and> fewer s s2)"
    by (rule wlpI, drule expire_loop_mem) (use h1 in \<open>auto intro: fewer_trans\<close>)
  then show ?thesis using t h1 by (simp add: df_checkForExpiredRecords_def)
qed

section \<open>Deletion and rotation\<close>

text \<open>No process that waits for its deletion has flows.\<close>

definition queue_tidy :: "sf \<Rightarrow> bool" where
  "queue_tidy s = list_all (\<lambda>e. case find_proc s (o_oid e) of None \<Rightarrow> True | Some p \<Rightarrow> netflows p = [] \<and> fileflows p = []) (m_delProcQue s)"

lemma queue_tidy_tabs: "queue_tidy s = (\<forall>e \<in> set (m_delProcQue s). tabs s (o_oid e) = ([], []))"
  by (auto simp: queue_tidy_def list_all_iff tabs_def split: option.splits)

lemma fewer_tabs: "fewer s s1 \<Longrightarrow> tabs s oid = ([], []) \<Longrightarrow> tabs s1 oid = ([], [])"
  using fewer_slot [of s s1 "NId oid k" for k] fewer_slot [of s s1 "FId oid k" for k]
  by (auto simp: slot.simps prod_eq_iff intro!: map_of_None_Nil)

lemma queue_tidy_fewer: "fewer s s1 \<Longrightarrow> queue_tidy s \<Longrightarrow> queue_tidy s1"
  using fewer_tabs by (auto simp: queue_tidy_tabs fewer_def)

lemma queue_tidy_calm: "calm s s1 \<Longrightarrow> queue_tidy s1 = queue_tidy s"
  by (simp add: queue_tidy_tabs calm_def mem_def)

lemma tabs_delete: "tabs (s\<lparr>m_procs := AList.delete oid (m_procs s)\<rparr>) = (tabs s)(oid := ([], []))"
  by (auto simp: tabs_def fun_eq_iff)

lemma calm_drop: "calm s s1 \<Longrightarrow> tabs s oid = ([], []) \<Longrightarrow> calm s (s1\<lparr>m_procs := AList.delete oid (m_procs s1)\<rparr>)"
  by (simp add: calm_def mem_def tabs_delete fun_upd_idem)

lemma deleteProcess_calm:
  assumes "tabs s oid = ([], [])"
  shows "wlp (deleteProcess oid s) (\<lambda>u s1. calm s s1)"
proof (cases "find_proc s oid")
  case (Some p)
  define s1 where "s1 = (case proc_poid (p_proc p) of None \<Rightarrow> s | Some key \<Rightarrow>
      (case find_proc s key of None \<Rightarrow> s | Some q \<Rightarrow> put_proc key (erase_child oid q) s))"
  define s2 where "s2 = (case proc_containerId (p_proc p) of None \<Rightarrow> s1 | Some c \<Rightarrow> snd (derefContainer c s1))"
  have "calm s s1" by (auto simp: s1_def erase_child_def split: option.split intro: calm_put_find)
  moreover have "calm s1 s2" by (auto simp: s2_def derefContainer_frame split: option.split intro: calm_core)
  ultimately have c: "calm s s2" by (rule calm_trans)
  have "wlp (removeProcessFromSet oid s2) (\<lambda>n s3. calm s (s3\<lparr>m_procs := AList.delete oid (m_procs s3)\<rparr>))"
    by (rule wlp_conseq [OF removeProcessFromSet_calm [OF c]]) (rule calm_drop [OF _ assms])
  then show ?thesis using Some calm_drop [OF c assms] by (simp add: deleteProcess_def Let_def flip: s1_def s2_def)
qed (simp add: deleteProcess_def)

lemma del_loop_mem: "queue_tidy s \<Longrightarrow> wlp (del_loop t i s) (\<lambda>u s1. mem s1 = mem s)"
proof (induction t i s rule: del_loop.induct)
  case (1 t i s)
  show ?case
  proof (cases "i < length (m_delProcQue s) \<and> difftime t (o_exportTime (m_delProcQue s ! i)) \<ge> PROC_DEL_EXPIRED")
    case True
    let ?e = "m_delProcQue s ! i"
    have "tabs s (o_oid ?e) = ([], [])" using "1.prems" True by (simp add: queue_tidy_tabs)
    then have d: "wlp (case find_proc s (o_oid ?e) of None \<Rightarrow> Some ((), s) | Some p \<Rightarrow> deleteProcess (o_oid ?e) s) (\<lambda>u s1. calm s s1)"
      using deleteProcess_calm by (simp split: option.split)
    let ?q = "take i (m_delProcQue s) @ drop (Suc i) (m_delProcQue s)"
    have "wlp (del_loop t (erase_next i (length ?q)) (s1\<lparr>m_delProcQue := ?q\<rparr>)) (\<lambda>u s2. mem s2 = mem s)"
      if eq: "(case find_proc s (o_oid ?e) of None \<Rightarrow> Some ((), s) | Some p \<Rightarrow> deleteProcess (o_oid ?e) s) = Some (u, s1)" for u s1
    proof -
      have c: "calm s s1" by (rule wlpD [OF d eq])
      have "set ?q \<subseteq> set (m_delProcQue s)" using set_take_subset set_drop_subset by fastforce
      moreover have "tabs (s1\<lparr>m_delProcQue := ?q\<rparr>) = tabs s" using c by (simp add: calm_def mem_def tabs_def fun_eq_iff)
      ultimately have "queue_tidy (s1\<lparr>m_delProcQue := ?q\<rparr>)" using "1.prems" by (auto simp: queue_tidy_tabs)
      then have "wlp (del_loop t (erase_next i (length ?q)) (s1\<lparr>m_delProcQue := ?q\<rparr>)) (\<lambda>u s2. mem s2 = mem (s1\<lparr>m_delProcQue := ?q\<rparr>))"
        using "1.IH" [OF _ refl _ eq refl refl] True by simp
      then show ?thesis using c by (simp add: calm_def)
    qed
    then show ?thesis using True by (subst del_loop.simps) (auto simp: Let_def intro!: wlpI)
  next
    case False
    then show ?thesis using "1.prems" by (subst del_loop.simps) auto
  qed
qed

lemma checkForDeletion_mem: "queue_tidy s \<Longrightarrow> wlp (checkForDeletion I s) (\<lambda>u s1. mem s1 = mem s)"
proof -
  assume q: "queue_tidy s"
  obtain t s1 where t: "getCurrentTime I s = (t, s1)" by fastforce
  have c: "calm s s1" by (rule calm_clock(1) [OF t]) simp
  have "wlp (del_loop t 0 s1) (\<lambda>u s2. wlp (case getCurrentTime I s2 of (t, s3) \<Rightarrow> Some ((), s3\<lparr>m_delProcTime := t\<rparr>)) (\<lambda>u s3. mem s3 = mem s))"
    using c queue_tidy_calm [OF c] q
    by (intro wlp_conseq [OF del_loop_mem]) (auto simp: calm_def split: prod.split dest: mem_clock)
  then show ?thesis using t c by (auto simp: checkForDeletion_def calm_def)
qed

text \<open>The purge drops processes without flows only.\<close>

lemma clearTables_mem:
  assumes "clearTables s = Some (u, s1)"
  shows "mem s1 = mem s"
proof -
  obtain s2 where c: "clearProcesses s = Some ((), s2)"
    and s1: "s1 = clearFiles (if m_k8sEnabled (m_cxt (clearContainers s2)) then clearPods (clearContainers s2) else clearContainers s2)"
    using assms by (auto simp: clearTables_def Let_def split: bind_splits)
  have "core s1 = core s2" by (simp add: s1 clearFiles_def clearPods_def clearContainers_unmarks)
  moreover have "pcore s2 = pcore s" using clearProcesses_purge [OF c] by (simp add: purge_def)
  ultimately have f: "heap s1 = heap s" "m_dfSet s1 = m_dfSet s" "nextref s1 = nextref s"
    using core_fields [of s1 s2] pcore_fields [of s2 s] by simp_all
  have "tabs s1 oid = tabs s oid" for oid
  proof (cases "find_proc s1 oid")
    case (Some p1)
    then show ?thesis using clearTables_result(8) [OF assms Some] by (auto simp: tabs_def keeps_flows_def)
  next
    case None
    then have "\<not> busy p" if "find_proc s oid = Some p" for p using clearTables_spares [OF assms] that by (fastforce simp: spares_def)
    then show ?thesis using None by (auto simp: tabs_def busy_def split: option.split)
  qed
  then show ?thesis using f by (simp add: mem_def fun_eq_iff)
qed

lemma set_exporter_mem: "mem (set_exporter ex s) = mem s"
  by (simp add: set_exporter_def mem_def tabs_def fun_eq_iff)

lemma writer_reset_mem: "writer_reset I t s = Some (u, s1) \<Longrightarrow> mem s1 = mem s"
  using wlpD [OF getExporterID_wlp] set_exporter_mem by (fastforce simp: writer_reset_def split: bind_splits prod.splits)

lemma checkAndRotateFile_mem: "wlp (checkAndRotateFile I s) (\<lambda>b s1. mem s1 = mem s)"
proof (rule wlpI)
  fix b s1 assume "checkAndRotateFile I s = Some (b, s1)"
  then show "mem s1 = mem s"
    by (cases rule: rotation_cases) (auto simp: mem_clock(1) writer_reset_mem clearTables_mem)
qed

section \<open>The run\<close>

lemma checkForExpiredRecords_mem:
  assumes "hinv {} {} s" and "queue_tidy s"
  shows "wlp (checkForExpiredRecords I s) (\<lambda>n s1. hinv {} {} s1 \<and> queue_tidy s1)"
proof -
  have "wlp (df_checkForExpiredRecords I s) (\<lambda>n s1. wlp (cf_checkForExpiredRecords I s1) (\<lambda>m s2. hinv {} {} s2 \<and> queue_tidy s2))"
  proof (rule wlp_conseq [OF df_checkForExpiredRecords_mem [OF assms(1)]], elim conjE)
    fix n s1 assume "hinv {} {} s1" "fewer s s1"
    then show "wlp (cf_checkForExpiredRecords I s1) (\<lambda>m s2. hinv {} {} s2 \<and> queue_tidy s2)"
      using assms(2) queue_tidy_fewer by (intro wlp_conseq [OF cf_checkForExpiredRecords_calm]) (simp add: calm_hinv queue_tidy_calm)
  qed
  then show ?thesis by (simp add: checkForExpiredRecords_def)
qed

lemma housekeeping_hinv:
  assumes "hinv {} {} s" and "queue_tidy s"
  shows "wlp (housekeeping I s) (\<lambda>u s1. hinv {} {} s1)"
proof -
  have r: "wlp (checkAndRotateFile I s1) (\<lambda>b s2. hinv {} {} s2)" if "hinv {} {} s1" for s1
    by (rule wlp_conseq [OF checkAndRotateFile_mem]) (use that hinv_mem in blast)
  have "wlp (checkForDeletion I s1) (\<lambda>u s2. wlp (checkAndRotateFile I s2) (\<lambda>b s3. hinv {} {} s3))" if "hinv {} {} s1" "queue_tidy s1" for s1
    by (rule wlp_conseq [OF checkForDeletion_mem [OF that(2)]]) (use that(1) hinv_mem r in blast)
  then have "wlp (checkForExpiredRecords I s) (\<lambda>n s1. wlp (checkForDeletion I s1) (\<lambda>u s2. wlp (checkAndRotateFile I s2) (\<lambda>b s3. hinv {} {} s3)))"
    by (intro wlp_conseq [OF checkForExpiredRecords_mem [OF assms]]) blast
  then show ?thesis by (simp add: housekeeping_def)
qed

lemma step_hinv:
  assumes "hinv {} {} s" and "queue_tidy s" and "main_threads I"
  shows "wlp (step I res s) (\<lambda>c s1. hinv {} {} s1)"
proof -
  have t: "hinv {} {} (s\<lparr>timeStamp := t\<rparr>)" "queue_tidy (s\<lparr>timeStamp := t\<rparr>)" for t
    using assms hinv_mem [of "s\<lparr>timeStamp := t\<rparr>" s] by (simp_all add: queue_tidy_def)
  have "wlp (housekeeping I (s\<lparr>timeStamp := ev_ts ev\<rparr>)) (\<lambda>u s1. wlp (handle_event I ev s1) (\<lambda>u s2. hinv {} {} s2))" for ev
    by (rule wlp_conseq [OF housekeeping_hinv [OF t]]) (rule handle_event_hinv [OF _ assms(3)])
  then show ?thesis using assms t housekeeping_hinv [OF assms(1,2)] by (auto simp: step_def Let_def split: scap_result.split)
qed

text \<open>At every iteration of the loop no process that waits for its deletion has flows.\<close>

fun tidy_run :: "(inspector \<times> bool \<times> scap_result) list \<Rightarrow> sf \<Rightarrow> bool" where
  "tidy_run [] s = True"
| "tidy_run ((I, sig, res) # inputs) s =
     (queue_tidy s \<and> (case step I res (s\<lparr>m_exit := (m_exit s \<or> sig)\<rparr>) of Some (Continue, s1) \<Rightarrow> tidy_run inputs s1 | _ \<Rightarrow> True))"

lemma start_hinv:
  assumes "SysFlowProcessor_new I version cxt = Some s0" and "writer_initialize I2 s0 = Some (u, s)"
  shows "hinv {} {} s"
proof -
  have s0: "heap s0 = (\<lambda>_. None)" "m_dfSet s0 = []" "m_procs s0 = []"
    using assms(1) by (auto simp: SysFlowProcessor_new_def constructor_defs getCurrentTime_def Let_def split: if_splits option.splits)
  have "tabs s0 = (\<lambda>_. ([], []))" by (simp add: tabs_def fun_eq_iff s0)
  then have "hinv {} {} s0" by (intro hinvI) (auto simp: s0 slot.simps intro: flow_id.exhaust elim: slot.elims)
  moreover have "mem s = mem s0"
    using assms(2) wlpD [OF getExporterID_wlp] set_exporter_mem by (fastforce simp: writer_initialize_def split: bind_splits prod.splits)
  ultimately show ?thesis using hinv_mem by blast
qed

text \<open>
  The states of such runs: a new processor whose output has been opened, a signal, and an answer of
  the library handled in a state in which no process that waits for its deletion has flows.
\<close>

inductive tidy_reach :: "sf \<Rightarrow> bool" where
  opened: "SysFlowProcessor_new I version cxt = Some s0 \<Longrightarrow> writer_initialize I2 s0 = Some (u, s) \<Longrightarrow> tidy_reach s"
| signal: "tidy_reach s \<Longrightarrow> tidy_reach (s\<lparr>m_exit := True\<rparr>)"
| handled: "tidy_reach s \<Longrightarrow> queue_tidy s \<Longrightarrow> main_threads I \<Longrightarrow> step I res s = Some (c, s1) \<Longrightarrow> tidy_reach s1"

lemma tidy_reach_hinv: "tidy_reach s \<Longrightarrow> hinv {} {} s"
proof (induction rule: tidy_reach.induct)
  case (opened I version cxt s0 I2 u s)
  then show ?case by (rule start_hinv)
next
  case (signal s)
  then show ?case using hinv_mem [of "s\<lparr>m_exit := True\<rparr>" s] by simp
next
  case (handled s I res c s1)
  from wlpD [OF step_hinv [OF handled.IH handled.hyps(2,3)] handled.hyps(4)] show ?case .
qed

lemma run_loop_tidy:
  assumes "tidy_reach s" and "\<forall>(I, x) \<in> set inputs. main_threads I" and "tidy_run inputs s" and "run_loop inputs s = Some (c, s1)"
  shows "tidy_reach s1"
  using assms
proof (induction inputs s arbitrary: c s1 rule: run_loop.induct)
  case (2 I sig res inputs s)
  let ?s = "s\<lparr>m_exit := (m_exit s \<or> sig)\<rparr>"
  obtain d s2 where st: "step I res ?s = Some (d, s2)" and rest: "(case d of Continue \<Rightarrow> run_loop inputs s2 | _ \<Rightarrow> Some (d, s2)) = Some (c, s1)"
    using "2.prems"(4) by (auto split: bind_splits)
  have "s\<lparr>m_exit := m_exit s\<rparr> = s" by simp
  then have "tidy_reach ?s" using "2.prems"(1) tidy_reach.signal [of s] by (cases sig) auto
  moreover have "queue_tidy ?s" "main_threads I" using "2.prems"(2,3) by (simp_all add: queue_tidy_def)
  ultimately have r: "tidy_reach s2" using st by (rule tidy_reach.handled)
  show ?case
  proof (cases d)
    case Continue
    then show ?thesis using "2.IH" [OF st refl Continue r] rest st "2.prems"(2,3) by simp
  qed (use rest r in auto)
qed simp

text \<open>What the invariant says of a state between two events.\<close>

fun df_owner :: "DataFlow \<Rightarrow> OID" where
  "df_owner (Net n) = nf_procOID (netflow n)"
| "df_owner (Fil f) = ff_procOID (fileflow f)"

definition flows_indexed :: "sf \<Rightarrow> bool" where
  "flows_indexed s =
     (distinct (m_dfSet s) \<and> set (m_dfSet s) = dom (heap s) \<and>
      (\<forall>r d. heap s r = Some d \<longrightarrow> find_proc s (df_owner d) \<noteq> None) \<and>
      (\<forall>oid p. find_proc s oid = Some p \<longrightarrow>
         (\<forall>k r. map_of (netflows p) k = Some r \<longleftrightarrow>
            (\<exists>n. heap s r = Some (Net n) \<and> nf_procOID (netflow n) = oid \<and> canonicalizeKey (netflow n) = k)) \<and>
         (\<forall>k r. map_of (fileflows p) k = Some r \<longleftrightarrow>
            (\<exists>f. heap s r = Some (Fil f) \<and> ff_procOID (fileflow f) = oid \<and> flowkey f = k))))"

lemma hinv_indexed:
  assumes "hinv {} {} s"
  shows "flows_indexed s"
proof -
  have owner: "find_proc s (df_owner d) \<noteq> None" if "heap s r = Some d" for r d
    using hinv_slot [OF assms that] slot_proc by (cases d) auto
  have nets: "map_of (netflows p) k = Some r \<longleftrightarrow> (\<exists>n. heap s r = Some (Net n) \<and> nf_procOID (netflow n) = oid \<and> canonicalizeKey (netflow n) = k)"
    if p: "find_proc s oid = Some p" for oid p k r
  proof
    show "\<exists>n. heap s r = Some (Net n) \<and> nf_procOID (netflow n) = oid \<and> canonicalizeKey (netflow n) = k" if "map_of (netflows p) k = Some r"
      using hinv_table(1) [OF assms p that] by blast
    assume "\<exists>n. heap s r = Some (Net n) \<and> nf_procOID (netflow n) = oid \<and> canonicalizeKey (netflow n) = k"
    then show "map_of (netflows p) k = Some r" using hinv_slot [OF assms] slot_find(1) [OF p] by fastforce
  qed
  have fils: "map_of (fileflows p) k = Some r \<longleftrightarrow> (\<exists>f. heap s r = Some (Fil f) \<and> ff_procOID (fileflow f) = oid \<and> flowkey f = k)"
    if p: "find_proc s oid = Some p" for oid p k r
  proof
    show "\<exists>f. heap s r = Some (Fil f) \<and> ff_procOID (fileflow f) = oid \<and> flowkey f = k" if "map_of (fileflows p) k = Some r"
      using hinv_table(2) [OF assms p that] by blast
    assume "\<exists>f. heap s r = Some (Fil f) \<and> ff_procOID (fileflow f) = oid \<and> flowkey f = k"
    then show "map_of (fileflows p) k = Some r" using hinv_slot [OF assms] slot_find(2) [OF p] by fastforce
  qed
  show ?thesis unfolding flows_indexed_def using hinvD(1,2) [OF assms] owner nets fils by simp
qed

end
