(* ===== verification/Caches.thy ===== *)
theory Caches
  imports Processes
begin

text \<open>
  What the four caches have in common: an object is written to an output at most once, when it is
  first exported (\<open>exportPod\<close>, \<open>exportContainer\<close>, \<open>exportFile\<close>, \<open>exportProcess\<close>), and a purge keeps
  exactly the objects that something refers to (\<open>clearPods\<close>, \<open>clearContainers\<close>, \<open>clearFiles\<close>).
\<close>

section \<open>Objects that are written once\<close>

text \<open>The records of a kind among those written to the current output, in their order.\<close>

definition recs_of :: "(sfrec \<Rightarrow> bool) \<Rightarrow> sf \<Rightarrow> sfrec list" where
  "recs_of own s = filter own (map wrec (trace s))"

locale write_once =
  fixes look :: "sf \<Rightarrow> 'k \<Rightarrow> 'o option"
    and marked :: "'o \<Rightarrow> bool"
    and mark :: "'o \<Rightarrow> 'o"
    and recd :: "'o \<Rightarrow> sfrec"
    and own :: "sfrec \<Rightarrow> bool"
    and export :: "'k \<Rightarrow> sf \<Rightarrow> sf"
  assumes marked_mark: "marked (mark x)"
    and look_export: "look (export k s) =
      (case look s k of None \<Rightarrow> look s | Some x \<Rightarrow> if marked x then look s else (look s)(k \<mapsto> mark x))"
    and recs_export: "recs_of own (export k s) = recs_of own s @
      (case look s k of None \<Rightarrow> [] | Some x \<Rightarrow> if marked x then [] else [recd x])"
begin

definition due :: "sf \<Rightarrow> 'k \<Rightarrow> bool" where
  "due s k = (case look s k of None \<Rightarrow> False | Some x \<Rightarrow> \<not> marked x)"

lemma due_export: "due (export k s) j \<longleftrightarrow> due s j \<and> j \<noteq> k"
  by (auto simp: due_def look_export marked_mark split: option.splits if_splits)

lemma look_other: "j \<noteq> k \<Longrightarrow> look (export k s) j = look s j"
  by (auto simp: look_export split: option.splits)

lemma due_exports: "due (fold export ks s) j \<longleftrightarrow> due s j \<and> j \<notin> set ks"
  by (induction ks arbitrary: s) (auto simp: due_export)

lemma recs_not_due: "\<not> due s k \<Longrightarrow> recs_of own (export k s) = recs_of own s"
  by (auto simp: due_def recs_export split: option.splits)

lemma recs_due: "due s k \<Longrightarrow> recs_of own (export k s) = recs_of own s @ [recd (the (look s k))]"
  by (auto simp: due_def recs_export split: option.splits)

lemma exports_not_due: "\<forall>k \<in> set ks. \<not> due s k \<Longrightarrow> recs_of own (fold export ks s) = recs_of own s"
  by (induction ks arbitrary: s) (auto simp: due_export recs_not_due)

lemma exports_distinct:
  "distinct ks \<Longrightarrow>
     recs_of own (fold export ks s) = recs_of own s @ map (\<lambda>k. recd (the (look s k))) (filter (due s) ks)"
proof (induction ks arbitrary: s)
  case (Cons k ks)
  have d: "filter (due (export k s)) ks = filter (due s) ks"
    using Cons.prems by (intro filter_cong) (auto simp: due_export)
  have l: "map (\<lambda>j. recd (the (look (export k s) j))) (filter (due s) ks) =
      map (\<lambda>j. recd (the (look s j))) (filter (due s) ks)"
    using Cons.prems look_other [of _ k s] by (intro map_cong refl) (metis distinct.simps(2) filter_is_subset subsetD)
  show ?case using Cons by (simp add: d l recs_due recs_not_due)
qed simp

text \<open>However often the objects are exported after that, nothing is written again.\<close>

lemma exports_once:
  assumes "distinct ks" and "set js \<subseteq> set ks"
  shows "recs_of own (fold export (ks @ js) s) =
    recs_of own s @ map (\<lambda>k. recd (the (look s k))) (filter (due s) ks)"
  using exports_not_due [of js "fold export ks s"] exports_distinct [OF assms(1)] assms(2)
  by (auto simp: due_exports)

end

text \<open>The kinds of the records.\<close>

fun is_pod_rec :: "sfrec \<Rightarrow> bool" where "is_pod_rec (R_Pod p) = True" | "is_pod_rec _ = False"
fun is_cont_rec :: "sfrec \<Rightarrow> bool" where "is_cont_rec (R_Container c) = True" | "is_cont_rec _ = False"
fun is_file_rec :: "sfrec \<Rightarrow> bool" where "is_file_rec (R_File f) = True" | "is_file_rec _ = False"
fun is_proc_rec :: "sfrec \<Rightarrow> bool" where "is_proc_rec (R_Process p) = True" | "is_proc_rec _ = False"

lemmas write_defs = writePod_def writeContainer_def writeFile_def writeProcess_def

lemma recs_of_emit [simp]: "recs_of own (emit I c s) = recs_of own s @ (if own (wrec c) then [wrec c] else [])"
  by (simp add: recs_of_def)

lemma recs_of_upd [simp]:
  "recs_of own (s\<lparr>m_pods := a\<rparr>) = recs_of own s" "recs_of own (s\<lparr>m_containers := b\<rparr>) = recs_of own s"
  "recs_of own (s\<lparr>m_files := c\<rparr>) = recs_of own s" "recs_of own (s\<lparr>m_procs := d\<rparr>) = recs_of own s"
  by (simp_all add: recs_of_def)

interpretation pods: write_once find_pod pod_written "pod_written_update (\<lambda>_. True)" "\<lambda>p. R_Pod (pod_pod p)"
  is_pod_rec "\<lambda>k s. snd (exportPod I k s)" for I
  by unfold_locales (auto simp: exportPod_def write_defs Let_def split: option.splits)

lemma exportPod_frame [simp]:
  "m_containers (snd (exportPod I k s)) = m_containers s" "m_procs (snd (exportPod I k s)) = m_procs s"
  "m_files (snd (exportPod I k s)) = m_files s"
  by (auto simp: exportPod_def write_defs Let_def split: option.splits)

lemma exportPod_recs [simp]: "(\<And>p. \<not> own (R_Pod p)) \<Longrightarrow> recs_of own (snd (exportPod I k s)) = recs_of own s"
  by (auto simp: exportPod_def write_defs Let_def split: option.splits)

interpretation conts: write_once find_cont c_written "c_written_update (\<lambda>_. True)" "\<lambda>c. R_Container (c_cont c)"
  is_cont_rec "\<lambda>k s. snd (exportContainer I k s)" for I
  by unfold_locales (auto simp: exportContainer_def write_defs Let_def split: option.splits)

lemma exportContainer_procs [simp]: "m_procs (snd (exportContainer I k s)) = m_procs s"
  by (auto simp: exportContainer_def write_defs Let_def split: option.splits)

lemma exportContainer_recs [simp]:
  "(\<And>p. \<not> own (R_Pod p)) \<Longrightarrow> (\<And>c. \<not> own (R_Container c)) \<Longrightarrow> recs_of own (snd (exportContainer I k s)) = recs_of own s"
  by (auto simp: exportContainer_def write_defs Let_def split: option.splits)

interpretation files: write_once find_file f_written "\<lambda>f. (file_reup f)\<lparr>f_written := True\<rparr>"
  "\<lambda>f. R_File (f_file (file_reup f))" is_file_rec "\<lambda>k s. snd (exportFile I k s)" for I
  by unfold_locales (auto simp: exportFile_def write_file_obj_def write_defs Let_def split: option.splits)

interpretation procs: write_once find_proc p_written "p_written_update (\<lambda>_. True)" "\<lambda>p. R_Process (p_proc p)"
  is_proc_rec "\<lambda>k s. snd (exportProcess I k s)" for I
  by unfold_locales (auto simp: exportProcess_def put_proc_def write_defs Let_def split: option.splits)

section \<open>Purges\<close>

text \<open>
  At a rotation an object without references leaves its cache; one with references stays and is
  marked as not written.
\<close>

locale purge =
  fixes look :: "sf \<Rightarrow> 'k \<Rightarrow> 'o option"
    and idle :: "'o \<Rightarrow> bool"
    and unmark :: "'o \<Rightarrow> 'o"
    and clear :: "sf \<Rightarrow> sf"
    and ok :: "sf \<Rightarrow> bool"
  assumes look_clear: "ok s \<Longrightarrow> look (clear s) k =
      (case look s k of None \<Rightarrow> None | Some x \<Rightarrow> if idle x then None else Some (unmark x))"
    and ok_clear: "ok s \<Longrightarrow> ok (clear s)"
    and idle_unmark: "idle (unmark x) = idle x"
    and unmark_twice: "unmark (unmark x) = unmark x"
begin

lemma kept: "ok s \<Longrightarrow> look (clear s) k \<noteq> None \<longleftrightarrow> (\<exists>x. look s k = Some x \<and> \<not> idle x)"
  by (auto simp: look_clear split: option.splits)

lemma clear_twice: "ok s \<Longrightarrow> look (clear (clear s)) = look (clear s)"
  by (rule ext) (simp add: look_clear ok_clear idle_unmark unmark_twice split: option.split)

end

text \<open>The two loops that go over the entries of a table are a filter and a map.\<close>

lemma map_of_purge:
  assumes "tbl_ok t"
  shows "map_of (map (apsnd g) (filter (\<lambda>e. P (snd e)) t)) k =
    (case map_of t k of None \<Rightarrow> None | Some x \<Rightarrow> if P x then Some (g x) else None)"
  using assms
proof (induction t)
  case (Cons e t)
  obtain j x where e: "e = (j, x)" by fastforce
  have "k = j \<Longrightarrow> map_of t k = None" using Cons.prems by (simp add: tbl_ok_def e map_of_eq_None_iff)
  with Cons show ?case by (auto simp: tbl_ok_def e split: option.splits)
qed simp

lemma tbl_ok_purge: "tbl_ok t \<Longrightarrow> tbl_ok (map (apsnd g) (filter (\<lambda>e. P (snd e)) t))"
  by (simp add: tbl_ok_def comp_def distinct_map_filter)

lemma clearPods_loop_eq:
  "clearPods_loop t = map (apsnd (pod_written_update (\<lambda>_. False))) (filter (\<lambda>e. pod_refs (snd e) \<noteq> 0) t)"
  by (induction t rule: clearPods_loop.induct) auto

lemma clearFiles_loop_eq:
  "clearFiles_loop t = map (apsnd (f_written_update (\<lambda>_. False))) (filter (\<lambda>e. f_refs (snd e) \<noteq> 0) t)"
  by (induction t rule: clearFiles_loop.induct) auto

text \<open>The loop over the containers looks every entry up.\<close>

lemma derefPod_containers [simp]: "m_containers (snd (derefPod p s)) = m_containers s"
  by (simp add: derefPod_def Let_def split: option.split)

lemma clearContainers_loop_look:
  "distinct ids \<Longrightarrow> find_cont (clearContainers_loop ids s) k =
     (if k \<in> set ids
      then (case find_cont s k of None \<Rightarrow> None | Some c \<Rightarrow> if c_refs c = 0 then None else Some (c\<lparr>c_written := False\<rparr>))
      else find_cont s k)"
proof (induction ids arbitrary: s)
  case (Cons cid ids)
  then show ?case by (cases "find_cont s cid") (auto simp: Let_def split: option.split)
qed simp

lemma clearContainers_loop_ok: "tbl_ok (m_containers s) \<Longrightarrow> tbl_ok (m_containers (clearContainers_loop ids s))"
proof (induction ids arbitrary: s)
  case (Cons cid ids)
  then show ?case by (cases "find_cont s cid") (auto simp: Let_def split: option.split)
qed simp

interpretation pod_tbl: purge find_pod "\<lambda>p. pod_refs p = 0" "pod_written_update (\<lambda>_. False)" clearPods "\<lambda>s. tbl_ok (m_pods s)"
  by unfold_locales (simp_all add: clearPods_def clearPods_loop_eq map_of_purge [where P = "\<lambda>p. pod_refs p \<noteq> 0"]
      tbl_ok_purge [where P = "\<lambda>p. pod_refs p \<noteq> 0"] split: option.split)

interpretation file_tbl: purge find_file "\<lambda>f. f_refs f = 0" "f_written_update (\<lambda>_. False)" clearFiles "\<lambda>s. tbl_ok (m_files s)"
  by unfold_locales (simp_all add: clearFiles_def clearFiles_loop_eq map_of_purge [where P = "\<lambda>f. f_refs f \<noteq> 0"]
      tbl_ok_purge [where P = "\<lambda>f. f_refs f \<noteq> 0"] split: option.split)

interpretation cont_tbl: purge find_cont "\<lambda>c. c_refs c = 0" "c_written_update (\<lambda>_. False)" clearContainers
  "\<lambda>s. tbl_ok (m_containers s)"
  by unfold_locales
    (auto simp: clearContainers_def clearContainers_loop_look clearContainers_loop_ok distinct_tbl_keys split: option.split)

section \<open>Properties\<close>

text \<open>A state with a process that is not written yet and two files, of which one is referred to.\<close>

definition proc0 :: "int \<Rightarrow> ProcessObj" where
  "proc0 pid = fst (createProcess lib0 (thread0 pid pid) (event0 ''PPME_SYSCALL_MKDIR_X'' 5 (thread0 pid pid) None 0) REUP
     (state0 (FileW file_writer0)))"

definition file0 :: "string \<Rightarrow> FileObj" where
  "file0 path = fst (createFile lib0 (event0 ''PPME_SYSCALL_OPEN_X'' 5 (thread0 7 7) None 0) (thread0 7 7) path CHR ''f'' REUP path
     (state0 (FileW file_writer0)))"

definition cache0 :: sf where
  "cache0 = (state0 (FileW file_writer0))
     \<lparr>m_procs := [(\<lparr>hpid = 7, createTS = 7\<rparr>, proc0 7)],
      m_files := [(''/a'', (file0 ''/a'')\<lparr>f_refs := 1, f_written := True\<rparr>), (''/b'', file0 ''/b'')]\<rparr>"

text \<open>C22: However often processes and files are exported, each one that is in its table and not yet written is
  written exactly once, at its first export.\<close>

theorem exports_write_once:
  assumes "distinct ks" and "set js \<subseteq> set ks" and "distinct fs" and "set gs \<subseteq> set fs"
  shows "recs_of is_proc_rec (fold (\<lambda>k s. snd (exportProcess I k s)) (ks @ js) s) = recs_of is_proc_rec s @
      map (\<lambda>k. R_Process (p_proc (the (find_proc s k))))
        (filter (\<lambda>k. case find_proc s k of None \<Rightarrow> False | Some p \<Rightarrow> \<not> p_written p) ks) \<and>
    recs_of is_file_rec (fold (\<lambda>k s. snd (exportFile I k s)) (fs @ gs) s) = recs_of is_file_rec s @
      map (\<lambda>k. R_File (f_file (file_reup (the (find_file s k)))))
        (filter (\<lambda>k. case find_file s k of None \<Rightarrow> False | Some f \<Rightarrow> \<not> f_written f) fs)"
  using procs.exports_once [OF assms(1,2), of I s] files.exports_once [OF assms(3,4), of I s]
  unfolding procs.due_def files.due_def by blast

theorem exports_write_once_witness:
  "length (recs_of is_proc_rec (fold (\<lambda>k s. snd (exportProcess lib0 k s))
     ([\<lparr>hpid = 7, createTS = 7\<rparr>, \<lparr>hpid = 8, createTS = 7\<rparr>] @ [\<lparr>hpid = 7, createTS = 7\<rparr>]) cache0)) = 1 \<and>
   length (recs_of is_file_rec (fold (\<lambda>k s. snd (exportFile lib0 k s)) ([''/a'', ''/b''] @ [''/b'']) cache0)) = 1"
proof -
  have "recs_of is_proc_rec cache0 = []" "recs_of is_file_rec cache0 = []"
    "length (filter (\<lambda>k. case find_proc cache0 k of None \<Rightarrow> False | Some p \<Rightarrow> \<not> p_written p)
       [\<lparr>hpid = 7, createTS = 7\<rparr>, \<lparr>hpid = 8, createTS = 7\<rparr>]) = 1"
    "length (filter (\<lambda>k. case find_file cache0 k of None \<Rightarrow> False | Some f \<Rightarrow> \<not> f_written f) [''/a'', ''/b'']) = 1"
    by code_simp+
  then show ?thesis
    using exports_write_once [of "[\<lparr>hpid = 7, createTS = 7\<rparr>, \<lparr>hpid = 8, createTS = 7\<rparr>]" "[\<lparr>hpid = 7, createTS = 7\<rparr>]"
      "[''/a'', ''/b'']" "[''/b'']" lib0 cache0] by (simp del: append_Cons append_Nil)
qed

text \<open>C23: A purge of the files keeps exactly the files some flow refers to, marked as not written, and a second
  purge changes nothing; the same holds of containers and pods.\<close>

theorem purges_exact:
  assumes "tbl_ok (m_files s)" and "tbl_ok (m_containers s)" and "tbl_ok (m_pods s)"
  shows "find_file (clearFiles s) k =
      (case find_file s k of None \<Rightarrow> None | Some f \<Rightarrow> if f_refs f = 0 then None else Some (f\<lparr>f_written := False\<rparr>)) \<and>
    find_cont (clearContainers s) k =
      (case find_cont s k of None \<Rightarrow> None | Some c \<Rightarrow> if c_refs c = 0 then None else Some (c\<lparr>c_written := False\<rparr>)) \<and>
    find_pod (clearPods s) k =
      (case find_pod s k of None \<Rightarrow> None | Some p \<Rightarrow> if pod_refs p = 0 then None else Some (p\<lparr>pod_written := False\<rparr>)) \<and>
    find_file (clearFiles (clearFiles s)) = find_file (clearFiles s) \<and>
    find_cont (clearContainers (clearContainers s)) = find_cont (clearContainers s)"
  using file_tbl.look_clear [OF assms(1)] cont_tbl.look_clear [OF assms(2)] pod_tbl.look_clear [OF assms(3)]
    file_tbl.clear_twice [OF assms(1)] cont_tbl.clear_twice [OF assms(2)] by blast

theorem purges_exact_witness:
  "find_file (clearFiles cache0) ''/a'' = Some ((file0 ''/a'')\<lparr>f_refs := 1\<rparr>) \<and> find_file (clearFiles cache0) ''/b'' = None"
proof -
  have ok: "tbl_ok (m_files cache0)" "tbl_ok (m_containers cache0)" "tbl_ok (m_pods cache0)"
    by (simp_all add: tbl_ok_def cache0_def state0_def)
  have f: "f_written (file0 ''/a'') = False" "f_refs (file0 ''/b'') = 0" by code_simp+
  have "((file0 ''/a'')\<lparr>f_refs := 1, f_written := False\<rparr>) = (file0 ''/a'')\<lparr>f_refs := 1\<rparr>"
    using f(1) by (cases "file0 ''/a''") simp
  then show ?thesis
    using purges_exact [OF ok, of "''/a''"] purges_exact [OF ok, of "''/b''"] f by (simp add: cache0_def)
qed

end
