(* ===== verification/Ancestry.thy ===== *)
theory Ancestry
  imports Caches
begin

text \<open>
  The process table as a forest. The loops that walk up the recorded parents (\<open>isAncestor\<close>, the
  purge of \<open>clearProcesses\<close>, \<open>writeProcessAndAncestors\<close>) end when no process is recorded as its own
  ancestor; the deletion queue makes progress at every check.
\<close>

section \<open>Recorded parents\<close>

text \<open>The recorded parent of every process in the table; the pairs of a parent in the table and its child.\<close>

definition poids :: "sf \<Rightarrow> OID \<Rightarrow> OID option option" where
  "poids s oid = map_option (\<lambda>p. proc_poid (p_proc p)) (find_proc s oid)"

definition par :: "(OID \<Rightarrow> OID option option) \<Rightarrow> (OID \<times> OID) set" where
  "par P = {(a, c). P c = Some (Some a) \<and> P a \<noteq> None}"

lemma par_wf:
  assumes "acyclic (par (poids s))"
  shows "wf (par (poids s))"
proof (rule finite_acyclic_wf [OF _ assms])
  have "par (poids s) \<subseteq> dom (find_proc s) \<times> dom (find_proc s)" by (auto simp: par_def poids_def)
  then show "finite (par (poids s))" by (rule finite_subset) (simp add: finite_dom_map_of)
qed

lemma par_mono: "P \<subseteq>\<^sub>m Q \<Longrightarrow> par P \<subseteq> par Q"
  by (auto simp: par_def map_le_def dom_def)

lemma acyclic_par_mono: "P \<subseteq>\<^sub>m Q \<Longrightarrow> acyclic (par Q) \<Longrightarrow> acyclic (par P)"
  using par_mono acyclic_subset by blast

text \<open>A chain of recorded parents from a process in the table up to another.\<close>

inductive chain :: "sf \<Rightarrow> OID \<Rightarrow> OID \<Rightarrow> bool" for s where
  here: "find_proc s k = Some p \<Longrightarrow> chain s k k"
| up: "find_proc s k = Some p \<Longrightarrow> proc_poid (p_proc p) = Some k1 \<Longrightarrow> chain s k1 a \<Longrightarrow> chain s k a"

inductive_cases chainE: "chain s k a"

lemma chain_absent: "find_proc s k = None \<Longrightarrow> \<not> chain s k a"
  by (auto elim: chainE)

lemma chain_iff:
  assumes "find_proc s k = Some p" and "a \<noteq> k"
  shows "chain s k a \<longleftrightarrow> (\<exists>k1. proc_poid (p_proc p) = Some k1 \<and> chain s k1 a)"
  using assms by (auto elim: chainE intro: chain.up)

section \<open>Walks up the parents\<close>

text \<open>
  A loop that starts at an optional parent, ends at a missing one, and otherwise ends or goes on
  with the parent of the process it has reached; what it changes on the way leaves the parents.
\<close>

locale parent_walk =
  fixes walk :: "OID option \<Rightarrow> 'a \<Rightarrow> sf \<Rightarrow> 'b option"
  assumes walk_None: "walk None x s \<noteq> None"
    and walk_absent: "find_proc s k = None \<Longrightarrow> walk (Some k) x s \<noteq> None"
    and walk_step: "find_proc s k = Some p \<Longrightarrow> walk (Some k) x s \<noteq> None \<or>
      (\<exists>x1 s1. poids s1 = poids s \<and> walk (Some k) x s = walk (proc_poid (p_proc p)) x1 s1)"
begin

lemma walk_from:
  assumes "wf (par (poids s))"
  shows "walk (Some k) x s \<noteq> None"
proof -
  have "\<forall>x s1. poids s1 = poids s \<longrightarrow> walk (Some k) x s1 \<noteq> None"
    using assms
  proof (induction k rule: wf_induct_rule)
    case (less k)
    show ?case
    proof (intro allI impI)
      fix x and s1 :: sf assume P: "poids s1 = poids s"
      show "walk (Some k) x s1 \<noteq> None"
      proof (cases "find_proc s1 k")
        case (Some p)
        show ?thesis
        proof (rule ccontr)
          assume div: "\<not> walk (Some k) x s1 \<noteq> None"
          then obtain x1 s2 where w: "poids s2 = poids s1" "walk (Some k) x s1 = walk (proc_poid (p_proc p)) x1 s2"
            using walk_step [OF Some, of x] by blast
          then obtain a where a: "proc_poid (p_proc p) = Some a" using walk_None [of x1 s2] div by (cases "proc_poid (p_proc p)") auto
          have "find_proc s2 a \<noteq> None" using walk_absent [of s2 a x1] w div a by auto
          then have "poids s a \<noteq> None" using w(1) P by (metis poids_def map_option_is_None)
          moreover have "poids s k = Some (Some a)" using P [symmetric] Some a by (simp add: poids_def)
          ultimately have "(a, k) \<in> par (poids s)" by (simp add: par_def)
          then show False using less.IH w div a P by auto
        qed
      qed (rule walk_absent)
    qed
  qed
  then show ?thesis by blast
qed

lemma walk_ends: "acyclic (par (poids s)) \<Longrightarrow> walk poid x s \<noteq> None"
  using walk_from [OF par_wf] walk_None by (cases poid) auto

end

lemma poids_put: "find_proc s k = Some p \<Longrightarrow> proc_poid (p_proc q) = proc_poid (p_proc p) \<Longrightarrow> poids (put_proc k q s) = poids s"
  by (auto simp: poids_def put_proc_def fun_eq_iff)

interpretation anc: parent_walk "\<lambda>poid (x :: unit) s. isAncestor_loop oid poid s" for oid
proof unfold_locales
  show "isAncestor_loop oid None s \<noteq> None" for s by (subst isAncestor_loop.simps) simp
  show "isAncestor_loop oid (Some k) s \<noteq> None" if "find_proc s k = None" for s k
    using that by (subst isAncestor_loop.simps) simp
  show "isAncestor_loop oid (Some k) s \<noteq> None \<or>
    (\<exists>(x1 :: unit) s1. poids s1 = poids s \<and> isAncestor_loop oid (Some k) s = isAncestor_loop oid (proc_poid (p_proc p)) s1)"
    if "find_proc s k = Some p" for s k p
    using that isAncestor_loop.simps [of oid "Some k" s] by (cases "oid = k") auto
qed

interpretation unlink: parent_walk "\<lambda>poid cur s. unlink_loop cur poid s"
proof unfold_locales
  show "unlink_loop cur None s \<noteq> None" for cur s by (subst unlink_loop.simps) simp
  show "unlink_loop cur (Some k) s \<noteq> None" if "find_proc s k = None" for cur s k
    using that by (subst unlink_loop.simps) simp
  show "unlink_loop cur (Some k) s \<noteq> None \<or>
    (\<exists>x1 s1. poids s1 = poids s \<and> unlink_loop cur (Some k) s = unlink_loop x1 (proc_poid (p_proc p)) s1)"
    if "find_proc s k = Some p" for cur s k p
  proof -
    have "poids (put_proc k (erase_child cur p) s) = poids s"
      using that by (rule poids_put) (simp add: erase_child_def)
    then show ?thesis using that unlink_loop.simps [of cur "Some k" s] by (auto simp: Let_def erase_child_def split: if_splits)
  qed
qed

interpretation unwritten: parent_walk ancestors_unwritten
proof unfold_locales
  show "ancestors_unwritten None ps s \<noteq> None" for ps s by (subst ancestors_unwritten.simps) simp
  show "ancestors_unwritten (Some k) ps s \<noteq> None" if "find_proc s k = None" for ps s k
    using that by (subst ancestors_unwritten.simps) simp
  show "ancestors_unwritten (Some k) ps s \<noteq> None \<or>
    (\<exists>x1 s1. poids s1 = poids s \<and> ancestors_unwritten (Some k) ps s = ancestors_unwritten (proc_poid (p_proc p)) x1 s1)"
    if "find_proc s k = Some p" for ps s k p
    using that ancestors_unwritten.simps [of "Some k" ps s] by auto
qed

lemmas unlink_loop_rule [consumes 1, case_names step] = unlink_loop.raw_induct [rotated]

lemma unlink_loop_poids: "unlink_loop cur poid s = Some y \<Longrightarrow> poids (snd y) = poids s"
proof (induction cur poid s y rule: unlink_loop_rule)
  case (step loop cur poid s y)
  show ?case
  proof (cases "poid = None \<or> find_proc s (the poid) = None")
    case True
    then show ?thesis using step(2) by (auto split: option.splits)
  next
    case False
    then obtain k q where k: "poid = Some k" "find_proc s k = Some q" by auto
    have "poids (put_proc k (erase_child cur q) s) = poids s" using k(2) by (rule poids_put) (simp add: erase_child_def)
    then show ?thesis using step k by (auto simp: Let_def split: if_splits)
  qed
qed

lemma poids_drop: "poids (drop_proc oid p s) = (poids s)(oid := None)"
  by (auto simp: poids_def drop_proc_def derefContainer_def Let_def fun_eq_iff split: option.splits)

lemma clearProcesses_loop1_total:
  assumes "acyclic (par (poids s))"
  shows "clearProcesses_loop1 oids s \<noteq> None"
  using assms
proof (induction oids arbitrary: s)
  case (Cons oid oids)
  show ?case
  proof (cases "find_proc s oid")
    case None
    then show ?thesis using Cons by simp
  next
    case (Some p)
    obtain u s1 where u: "unlink_loop oid (proc_poid (p_proc p)) s = Some (u, s1)"
      using unlink.walk_ends [OF Cons.prems, where poid = "proc_poid (p_proc p)" and x = oid] by auto
    have "poids (drop_proc oid p s1) \<subseteq>\<^sub>m poids s"
      unfolding poids_drop unlink_loop_poids [OF u, simplified] by (auto simp: map_le_def)
    then have "acyclic (par (poids (drop_proc oid p s1)))" using acyclic_par_mono Cons.prems by blast
    moreover have "acyclic (par (poids (put_proc oid (p\<lparr>p_written := False\<rparr>) s)))"
      using poids_put [OF Some, of "p\<lparr>p_written := False\<rparr>"] Cons.prems by simp
    ultimately show ?thesis using Cons.IH Some u by simp
  qed
qed simp

lemmas isAncestor_rule [consumes 1, case_names step] = isAncestor_loop.raw_induct [rotated]

lemma isAncestor_chain:
  "isAncestor_loop oid poid s = Some b \<Longrightarrow> b \<longleftrightarrow> (\<exists>k. poid = Some k \<and> chain s k oid)"
proof (induction oid poid s b rule: isAncestor_rule)
  case (step loop oid poid s b)
  show ?case
  proof (cases poid)
    case None
    then show ?thesis using step by simp
  next
    case (Some k)
    show ?thesis
    proof (cases "find_proc s k")
      case None
      then show ?thesis using step(2) Some chain_absent [OF None] by auto
    next
      case found: (Some p)
      show ?thesis
      proof (cases "oid = k")
        case True
        then show ?thesis using step(2) Some found chain.here by auto
      next
        case False
        then show ?thesis using step Some found chain_iff [OF found, of oid] by auto
      qed
    qed
  qed
qed

section \<open>The deletion queue\<close>

lemma removeProcessFromSet_dom:
  "removeProcessFromSet oid s = Some (n, s1) \<Longrightarrow> dom (find_proc s1) = dom (find_proc s) \<and> m_delProcQue s1 = m_delProcQue s"
  by (auto simp: removeProcessFromSet_def put_proc_def split: option.splits if_splits prod.splits)

lemma derefContainer_procs [simp]:
  "m_procs (snd (derefContainer c s)) = m_procs s" "m_delProcQue (snd (derefContainer c s)) = m_delProcQue s"
  by (simp_all add: derefContainer_def Let_def split: option.split)

lemma deleteProcess_dom:
  assumes "deleteProcess oid s = Some (u, s1)"
  shows "dom (find_proc s1) = dom (find_proc s) - {oid} \<and> m_delProcQue s1 = m_delProcQue s"
proof -
  obtain p where p: "find_proc s oid = Some p" using assms by (auto simp: deleteProcess_def split: option.splits)
  define sa where "sa = (case proc_poid (p_proc p) of None \<Rightarrow> s
    | Some key \<Rightarrow> (case find_proc s key of None \<Rightarrow> s | Some q \<Rightarrow> put_proc key (erase_child oid q) s))"
  define sb where "sb = (case proc_containerId (p_proc p) of None \<Rightarrow> sa | Some c \<Rightarrow> snd (derefContainer c sa))"
  have "dom (find_proc sa) = dom (find_proc s) \<and> m_delProcQue sa = m_delProcQue s"
    by (auto simp: sa_def put_proc_def split: option.split)
  then have b: "dom (find_proc sb) = dom (find_proc s) \<and> m_delProcQue sb = m_delProcQue s"
    by (simp add: sb_def split: option.split)
  obtain v s3 where s3: "(if pfo p \<noteq> None then do { (n, s3) \<leftarrow> removeProcessFromSet oid sb; Some ((), s3) } else Some ((), sb)) =
      Some (v, s3)" and s1: "s1 = s3\<lparr>m_procs := AList.delete oid (m_procs s3)\<rparr>"
    using assms by (auto simp: deleteProcess_def p Let_def simp flip: sa_def sb_def split: bind_splits if_splits)
  have "dom (find_proc s3) = dom (find_proc s) \<and> m_delProcQue s3 = m_delProcQue s"
  proof (cases "pfo p = None")
    case True
    then show ?thesis using s3 b by simp
  next
    case False
    then obtain n where "removeProcessFromSet oid sb = Some (n, s3)" using s3 by (auto split: bind_splits)
    from removeProcessFromSet_dom [OF this] show ?thesis using b by simp
  qed
  then show ?thesis by (auto simp: s1)
qed

text \<open>One round of the loop on an expired entry.\<close>

lemma del_loop_round:
  assumes "i < length (m_delProcQue s)" and "PROC_DEL_EXPIRED \<le> difftime t (o_exportTime (m_delProcQue s ! i))"
    and "del_loop t i s = Some (u, s1)"
  obtains s2 where "dom (find_proc s2) = dom (find_proc s) - {o_oid (m_delProcQue s ! i)}"
    and "(case find_proc s (o_oid (m_delProcQue s ! i)) of None \<Rightarrow> Some ((), s) | Some p \<Rightarrow> deleteProcess (o_oid (m_delProcQue s ! i)) s) =
      Some ((), s2)"
    and "del_loop t (erase_next i (length (m_delProcQue s) - 1))
      (s2\<lparr>m_delProcQue := take i (m_delProcQue s) @ drop (Suc i) (m_delProcQue s)\<rparr>) = Some (u, s1)"
proof -
  let ?d = "case find_proc s (o_oid (m_delProcQue s ! i)) of None \<Rightarrow> Some ((), s) | Some p \<Rightarrow> deleteProcess (o_oid (m_delProcQue s ! i)) s"
  let ?q = "take i (m_delProcQue s) @ drop (Suc i) (m_delProcQue s)"
  have "del_loop t i s = Option.bind ?d (\<lambda>(u, s1). del_loop t (erase_next i (length ?q)) (s1\<lparr>m_delProcQue := ?q\<rparr>))"
    using assms(1,2) by (subst del_loop.simps) (simp add: Let_def)
  with assms(3) obtain v s2 where s2: "?d = Some (v, s2)"
    and rest: "del_loop t (erase_next i (length ?q)) (s2\<lparr>m_delProcQue := ?q\<rparr>) = Some (u, s1)"
    by (cases ?d) auto
  have "dom (find_proc s2) = dom (find_proc s) - {o_oid (m_delProcQue s ! i)}"
  proof (cases "find_proc s (o_oid (m_delProcQue s ! i))")
    case None
    then show ?thesis using s2 by auto
  next
    case (Some p)
    then show ?thesis using s2 deleteProcess_dom [of "o_oid (m_delProcQue s ! i)" s v s2] by simp
  qed
  moreover have "length ?q = length (m_delProcQue s) - 1" using assms(1) by simp
  ultimately show thesis using that s2 rest by (metis (full_types) unit.exhaust)
qed

lemma del_loop_stops:
  assumes "\<not> (i < length (m_delProcQue s) \<and> PROC_DEL_EXPIRED \<le> difftime t (o_exportTime (m_delProcQue s ! i)))"
  shows "del_loop t i s = Some ((), s)"
  using assms by (subst del_loop.simps) (auto simp: Let_def)

lemma del_loop_shrinks:
  "del_loop t i s = Some (u, s1) \<Longrightarrow>
     dom (find_proc s1) \<subseteq> dom (find_proc s) \<and> length (m_delProcQue s1) \<le> length (m_delProcQue s)"
proof (induction "length (m_delProcQue s)" arbitrary: i s rule: less_induct)
  case less
  show ?case
  proof (cases "i < length (m_delProcQue s) \<and> PROC_DEL_EXPIRED \<le> difftime t (o_exportTime (m_delProcQue s ! i))")
    case False
    then show ?thesis using less.prems del_loop_stops [OF False] by simp
  next
    case True
    let ?q = "take i (m_delProcQue s) @ drop (Suc i) (m_delProcQue s)"
    obtain s2 where s2: "dom (find_proc s2) = dom (find_proc s) - {o_oid (m_delProcQue s ! i)}"
      "del_loop t (erase_next i (length (m_delProcQue s) - 1)) (s2\<lparr>m_delProcQue := ?q\<rparr>) = Some (u, s1)"
      using del_loop_round [of i s t u s1] True less.prems by metis
    have "length ?q < length (m_delProcQue s)" using True by auto
    then show ?thesis using less.hyps [OF _ s2(2)] s2(1) by force
  qed
qed

section \<open>Properties\<close>

text \<open>C24: Where no process of the table is recorded as its own ancestor, \<open>isAncestor\<close> returns, and it returns true
  exactly when a chain of recorded parents, all in the table, leads from the process to the OID sought.\<close>

theorem isAncestor_correct:
  assumes "acyclic (par (poids s))"
  shows "isAncestor oid proc s = Some (\<exists>k. proc_poid proc = Some k \<and> chain s k oid)"
proof -
  obtain b where b: "isAncestor_loop oid (proc_poid proc) s = Some b"
    using anc.walk_ends [OF assms, where poid = "proc_poid proc" and oid = oid] by blast
  then show ?thesis using isAncestor_chain [OF b] by (simp add: isAncestor_def)
qed

text \<open>A table of three processes, each the parent of the next.\<close>

definition family0 :: sf where
  "family0 = cache0\<lparr>m_procs := map (\<lambda>n. (\<lparr>hpid = n, createTS = 7\<rparr>,
     (proc0 n)\<lparr>p_proc := (p_proc (proc0 n))\<lparr>proc_poid := (if n = 1 then None else Some \<lparr>hpid = n - 1, createTS = 7\<rparr>)\<rparr>\<rparr>)) [1, 2, 3]\<rparr>"

lemma family0_poids:
  "poids family0 = [\<lparr>hpid = 1, createTS = 7\<rparr> \<mapsto> None, \<lparr>hpid = 2, createTS = 7\<rparr> \<mapsto> Some \<lparr>hpid = 1, createTS = 7\<rparr>,
     \<lparr>hpid = 3, createTS = 7\<rparr> \<mapsto> Some \<lparr>hpid = 2, createTS = 7\<rparr>]"
  by (simp add: poids_def family0_def fun_eq_iff)

lemma family0_acyclic: "acyclic (par (poids family0))"
proof (rule acyclic_subset)
  show "acyclic (measure (\<lambda>p :: OID. nat (hpid p)))" by (rule wf_acyclic) simp
  show "par (poids family0) \<subseteq> measure (\<lambda>p. nat (hpid p))"
    unfolding par_def family0_poids by (auto split: if_splits)
qed

theorem isAncestor_correct_witness:
  "isAncestor \<lparr>hpid = 1, createTS = 7\<rparr> (p_proc (the (find_proc family0 \<lparr>hpid = 3, createTS = 7\<rparr>))) family0 = Some True \<and>
   (\<exists>k. proc_poid (p_proc (the (find_proc family0 \<lparr>hpid = 3, createTS = 7\<rparr>))) = Some k \<and> chain family0 k \<lparr>hpid = 1, createTS = 7\<rparr>)"
proof -
  have "isAncestor \<lparr>hpid = 1, createTS = 7\<rparr> (p_proc (the (find_proc family0 \<lparr>hpid = 3, createTS = 7\<rparr>))) family0 = Some True"
    by code_simp
  then show ?thesis using isAncestor_correct [OF family0_acyclic] by simp
qed

text \<open>C25: On such a table the purge of the processes at a rotation ends.\<close>

theorem clearProcesses_ends:
  assumes "acyclic (par (poids s))"
  shows "\<exists>s1. clearProcesses s = Some ((), s1)"
  using clearProcesses_loop1_total [OF assms, of "tbl_keys (m_procs s)"] by (auto simp: clearProcesses_def)

theorem clearProcesses_ends_witness: "\<exists>s1. clearProcesses family0 = Some ((), s1)"
  by (rule clearProcesses_ends [OF family0_acyclic])

lemma check_front:
  assumes "checkForDeletion I s = Some (u, s1)" and "getCurrentTime I s = (now, s0)"
    and "PROC_DEL_EXPIRED < difftime now (m_delProcTime s)" and "m_delProcQue s = e # q"
    and "PROC_DEL_EXPIRED \<le> difftime now (o_exportTime e)"
  obtains s2 s3 where "dom (find_proc s2) = dom (find_proc s) - {o_oid e}"
    and "del_loop now (erase_next 0 (length q)) (s2\<lparr>m_delProcQue := q\<rparr>) = Some ((), s3)"
    and "m_procs s1 = m_procs s3" and "m_delProcQue s1 = m_delProcQue s3"
proof -
  obtain n where s0: "s0 = s\<lparr>reads := n\<rparr>" by (metis assms(2) getCurrentTime_frame snd_conv)
  obtain s3 where s3: "del_loop now 0 s0 = Some ((), s3)" and s1: "m_procs s1 = m_procs s3" "m_delProcQue s1 = m_delProcQue s3"
    using assms(1-3) by (auto simp: checkForDeletion_def s0 getCurrentTime_def split: bind_splits if_splits)
  show thesis
  proof (rule del_loop_round [OF _ _ s3])
    show "0 < length (m_delProcQue s0)" "PROC_DEL_EXPIRED \<le> difftime now (o_exportTime (m_delProcQue s0 ! 0))"
      using assms(4,5) by (simp_all add: s0)
  next
    fix s2
    assume "dom (find_proc s2) = dom (find_proc s0) - {o_oid (m_delProcQue s0 ! 0)}"
      "del_loop now (erase_next 0 (length (m_delProcQue s0) - 1))
         (s2\<lparr>m_delProcQue := take 0 (m_delProcQue s0) @ drop (Suc 0) (m_delProcQue s0)\<rparr>) = Some ((), s3)"
    then show thesis using that [of s2 s3] s1 assms(4) by (simp add: s0)
  qed
qed

text \<open>A check of the deletion queue that is due and finds its first entry expired takes that process out of
  the table and shortens the queue.\<close>

lemma deletion_progress:
  assumes "checkForDeletion I s = Some (u, s1)" and "getCurrentTime I s = (now, s0)"
    and "PROC_DEL_EXPIRED < difftime now (m_delProcTime s)" and "m_delProcQue s = e # q"
    and "PROC_DEL_EXPIRED \<le> difftime now (o_exportTime e)"
  shows "find_proc s1 (o_oid e) = None \<and> length (m_delProcQue s1) < length (m_delProcQue s)"
proof (rule check_front [OF assms])
  fix s2 s3
  assume s2: "dom (find_proc s2) = dom (find_proc s) - {o_oid e}"
    "del_loop now (erase_next 0 (length q)) (s2\<lparr>m_delProcQue := q\<rparr>) = Some ((), s3)"
    and s1: "m_procs s1 = m_procs s3" "m_delProcQue s1 = m_delProcQue s3"
  from del_loop_shrinks [OF s2(2)] have "o_oid e \<notin> dom (find_proc s1)" "length (m_delProcQue s1) \<le> length q"
    using s2(1) s1 by auto
  then show ?thesis using assms(4) by (auto simp: domIff)
qed

text \<open>The three processes, of which two have ended at second 1.\<close>

definition ended0 :: sf where
  "ended0 = family0\<lparr>m_delProcQue := [\<lparr>o_exportTime = 1, o_oid = \<lparr>hpid = 2, createTS = 7\<rparr>\<rparr>,
     \<lparr>o_exportTime = 1, o_oid = \<lparr>hpid = 3, createTS = 7\<rparr>\<rparr>], reads := 10\<rparr>"

lemma ended0_check:
  "\<exists>s1. checkForDeletion lib0 ended0 = Some ((), s1)" "getCurrentTime lib0 ended0 = (11, ended0\<lparr>reads := 11\<rparr>)"
  "PROC_DEL_EXPIRED < difftime 11 (m_delProcTime ended0)"
  "m_delProcQue ended0 = [\<lparr>o_exportTime = 1, o_oid = \<lparr>hpid = 2, createTS = 7\<rparr>\<rparr>, \<lparr>o_exportTime = 1, o_oid = \<lparr>hpid = 3, createTS = 7\<rparr>\<rparr>]"
proof -
  have "checkForDeletion lib0 ended0 \<noteq> None" by code_simp
  then show "\<exists>s1. checkForDeletion lib0 ended0 = Some ((), s1)" by auto
  show "PROC_DEL_EXPIRED < difftime 11 (m_delProcTime ended0)" by code_simp
qed (simp_all add: getCurrentTime_def ended0_def family0_def cache0_def state0_def cxt0_def lib0_def)

text \<open>C27: Of two processes that ended in the same second only the first is deleted at the check; the entry of the
  second is skipped and stays in the queue.\<close>

theorem deletion_skips:
  assumes "checkForDeletion I s = Some (u, s1)" and "getCurrentTime I s = (now, s0)"
    and "PROC_DEL_EXPIRED < difftime now (m_delProcTime s)" and "m_delProcQue s = [d, e]"
    and "PROC_DEL_EXPIRED \<le> difftime now (o_exportTime d)"
  shows "m_delProcQue s1 = [e] \<and> dom (find_proc s1) = dom (find_proc s) - {o_oid d}"
proof (rule check_front [OF assms])
  fix s2 s3
  assume s2: "dom (find_proc s2) = dom (find_proc s) - {o_oid d}"
    "del_loop now (erase_next 0 (length [e])) (s2\<lparr>m_delProcQue := [e]\<rparr>) = Some ((), s3)"
    and s1: "m_procs s1 = m_procs s3" "m_delProcQue s1 = m_delProcQue s3"
  have "s3 = s2\<lparr>m_delProcQue := [e]\<rparr>"
    using s2(2) del_loop_stops [of 1 "s2\<lparr>m_delProcQue := [e]\<rparr>" now] by (simp add: erase_next_def)
  then show ?thesis using s2(1) s1 by simp
qed

theorem deletion_skips_witness:
  "\<exists>s1. checkForDeletion lib0 ended0 = Some ((), s1) \<and> map (\<lambda>e. hpid (o_oid e)) (m_delProcQue s1) = [3] \<and>
     \<lparr>hpid = 3, createTS = 7\<rparr> \<in> dom (find_proc s1)"
proof -
  obtain s1 where s1: "checkForDeletion lib0 ended0 = Some ((), s1)" using ended0_check(1) by blast
  have "find_proc ended0 \<lparr>hpid = 3, createTS = 7\<rparr> \<noteq> None" by code_simp
  then have m: "\<lparr>hpid = 3, createTS = 7\<rparr> \<in> dom (find_proc ended0)" by blast
  have eq: "m_delProcQue s1 = [\<lparr>o_exportTime = 1, o_oid = \<lparr>hpid = 3, createTS = 7\<rparr>\<rparr>] \<and>
      dom (find_proc s1) = dom (find_proc ended0) - {\<lparr>hpid = 2, createTS = 7\<rparr>}"
    using deletion_skips [OF s1 ended0_check(2,3,4)] by (simp add: PROC_DEL_EXPIRED_def difftime_def)
  have "\<lparr>hpid = 3, createTS = 7\<rparr> \<notin> {\<lparr>hpid = 2, createTS = (7 :: int)\<rparr>}" by simp
  then have "\<lparr>hpid = 3, createTS = 7\<rparr> \<in> dom (find_proc s1)" unfolding conjunct2 [OF eq] by (rule DiffI [OF m])
  moreover have "map (\<lambda>e. hpid (o_oid e)) (m_delProcQue s1) = [3]" using conjunct1 [OF eq] by simp
  ultimately show ?thesis using s1 by (intro exI [of _ s1] conjI)
qed

end
