(* ===== verification/Stats.thy ===== *)
theory Stats
  imports MemRun Ancestry
begin

text \<open>
  The statistics the collector reports. The functions only read the state; what is modelled is what
  they report. The number of flows is counted by walking the tables of all processes, and agrees with
  the set of pending flows.
\<close>

section \<open>Sizes and reports\<close>

definition cont_getSize :: "sf \<Rightarrow> nat" where
  "cont_getSize s = length (m_containers s)"

definition file_getSize :: "sf \<Rightarrow> nat" where
  "file_getSize s = length (m_files s)"

definition k8s_getSize :: "sf \<Rightarrow> nat" where
  "k8s_getSize s = length (m_pods s)"

definition proc_getSize :: "sf \<Rightarrow> nat" where
  "proc_getSize s = length (m_procs s)"

definition nf_getSize :: "sf \<Rightarrow> nat" where
  "nf_getSize s = getNumNetworkFlows s"

definition ff_getSize :: "sf \<Rightarrow> nat" where
  "ff_getSize s = getNumFileFlows s"

definition cf_getSize :: "sf \<Rightarrow> nat" where
  "cf_getSize s = length (m_pfSet s)"

record stats =
  st_containers :: nat
  st_k8sEnabled :: bool
  st_pods :: nat
  st_procs :: nat
  st_netflows :: nat
  st_fileflows :: nat
  st_procflows :: nat
  st_records :: int

text \<open>\<open>SysFlowProcessor::printStats\<close> reports nothing unless statistics are enabled.\<close>

definition printStats :: "sf \<Rightarrow> stats option" where
  "printStats s =
     (if enableStats (config s) then
        Some \<lparr>st_containers = cont_getSize s, st_k8sEnabled = m_k8sEnabled (m_cxt s),
              st_pods = (if m_k8sEnabled (m_cxt s) then k8s_getSize s else 0), st_procs = proc_getSize s,
              st_netflows = nf_getSize s, st_fileflows = ff_getSize s, st_procflows = cf_getSize s,
              st_records = getNumRecs (m_writer s)\<rparr>
      else None)"

text \<open>\<open>ProcessContext::printStats\<close>: the two sizes, and a line for every process.\<close>

definition proc_printStats :: "sf \<Rightarrow> nat \<times> nat \<times> (string \<times> nat \<times> nat \<times> nat) list" where
  "proc_printStats s =
     (cont_getSize s, length (m_procs s),
      map (\<lambda>e. (proc_exe (p_proc (snd e)), length (children (snd e)), length (netflows (snd e)), length (fileflows (snd e))))
        (m_procs s))"

definition df_printFlowStats :: "sf \<Rightarrow> (nat \<times> nat \<times> (string \<times> nat \<times> nat \<times> nat) list) \<times> nat" where
  "df_printFlowStats s = (proc_printStats s, length (m_dfSet s))"

definition cf_printFlowStats :: "sf \<Rightarrow> nat" where
  "cf_printFlowStats s = length (m_pfSet s)"

definition printNetworkFlow :: "ProcessObj \<Rightarrow> (32 word \<times> 32 word \<times> 16 word \<times> 16 word \<times> 64 word \<times> 32 word) list" where
  "printNetworkFlow p = map (\<lambda>e. (k_ip1 (fst e), k_ip2 (fst e), k_port1 (fst e), k_port2 (fst e), k_tid (fst e), k_fd (fst e))) (netflows p)"

text \<open>\<open>printAncestors\<close> logs a line for every ancestor; the walk may not end when the parents form a cycle.\<close>

partial_function (option) printAncestors_loop ::
  "OID option \<Rightarrow> (int \<times> int \<times> string \<times> string) list \<Rightarrow> sf \<Rightarrow> (int \<times> int \<times> string \<times> string) list option" where
  "printAncestors_loop poid out s =
     (case poid of
        None \<Rightarrow> Some out
      | Some key \<Rightarrow>
          (case find_proc s key of
             None \<Rightarrow> Some out
           | Some p \<Rightarrow>
               printAncestors_loop (proc_poid (p_proc p))
                 (out @ [(hpid (proc_oid (p_proc p)), createTS (proc_oid (p_proc p)), proc_exe (p_proc p), proc_exeArgs (p_proc p))]) s))"

declare printAncestors_loop.simps [code]

definition printAncestors :: "Process \<Rightarrow> sf \<Rightarrow> (int \<times> int \<times> string \<times> string) list option" where
  "printAncestors p s = printAncestors_loop (proc_poid p) [] s"

interpretation printed: parent_walk printAncestors_loop
proof unfold_locales
  show "printAncestors_loop None out s \<noteq> None" for out s by (subst printAncestors_loop.simps) simp
  show "printAncestors_loop (Some k) out s \<noteq> None" if "find_proc s k = None" for out s k
    using that by (subst printAncestors_loop.simps) simp
  show "printAncestors_loop (Some k) out s \<noteq> None \<or>
    (\<exists>x1 s1. poids s1 = poids s \<and> printAncestors_loop (Some k) out s = printAncestors_loop (proc_poid (p_proc p)) x1 s1)"
    if "find_proc s k = Some p" for out s k p
    using that printAncestors_loop.simps [of "Some k" out s] by auto
qed

text \<open>On a table without cycles the ancestors are printed.\<close>

lemma printAncestors_ends: "acyclic (par (poids s)) \<Longrightarrow> printAncestors p s \<noteq> None"
  unfolding printAncestors_def by (rule printed.walk_ends)

section \<open>The number of flows\<close>

text \<open>The flows in the tables of a process, and of a list of entries of the process table.\<close>

definition flow_refs :: "ProcessObj \<Rightarrow> ref list" where
  "flow_refs p = map snd (netflows p) @ map snd (fileflows p)"

definition all_refs :: "(OID \<times> ProcessObj) list \<Rightarrow> ref list" where
  "all_refs t = concat (map (\<lambda>e. flow_refs (snd e)) t)"

lemma fold_add: "fold (\<lambda>e n. n + f e) xs (m :: nat) = m + sum_list (map f xs)"
  by (induction xs arbitrary: m) simp_all

lemma length_all_refs: "length (all_refs (m_procs s)) = getNumNetworkFlows s + getNumFileFlows s"
  by (simp add: all_refs_def length_concat comp_def flow_refs_def getNumNetworkFlows_def getNumFileFlows_def fold_add
      flip: sum_list_addf)

lemma flow_refs_hinv:
  assumes "hinv {} {} s" and "find_proc s oid = Some p"
  shows "distinct (flow_refs p)" and "r \<in> set (flow_refs p) \<longleftrightarrow> (\<exists>d. heap s r = Some d \<and> df_owner d = oid)"
proof -
  have ok: "tbl_ok (netflows p)" "tbl_ok (fileflows p)"
    using hinvD(9,10) [OF assms(1), of oid] assms(2) by (simp_all add: tabs_def)
  have m: "r \<in> snd ` set (netflows p) \<longleftrightarrow> (\<exists>k. map_of (netflows p) k = Some r)"
    "r \<in> snd ` set (fileflows p) \<longleftrightarrow> (\<exists>k. map_of (fileflows p) k = Some r)" for r
    using ok by (force simp: tbl_ok_def)+
  have i: "map_of (netflows p) k = Some r \<longleftrightarrow> (\<exists>n. heap s r = Some (Net n) \<and> nf_procOID (netflow n) = oid \<and> canonicalizeKey (netflow n) = k)"
    "map_of (fileflows p) k2 = Some r \<longleftrightarrow> (\<exists>f. heap s r = Some (Fil f) \<and> ff_procOID (fileflow f) = oid \<and> flowkey f = k2)" for k k2 r
    using hinv_indexed [OF assms(1)] assms(2) unfolding flows_indexed_def by blast+
  have "distinct (map snd (netflows p))" by (rule distinct_values [OF ok(1)]) (auto simp: i)
  moreover have "distinct (map snd (fileflows p))" by (rule distinct_values [OF ok(2)]) (auto simp: i)
  moreover have "\<not> (r \<in> snd ` set (netflows p) \<and> r \<in> snd ` set (fileflows p))" for r by (auto simp: m i)
  ultimately show "distinct (flow_refs p)" by (auto simp: flow_refs_def)
  have "(\<exists>d. heap s r = Some d \<and> df_owner d = oid) \<longleftrightarrow>
      (\<exists>n. heap s r = Some (Net n) \<and> nf_procOID (netflow n) = oid) \<or> (\<exists>f. heap s r = Some (Fil f) \<and> ff_procOID (fileflow f) = oid)"
    by (metis DataFlow.exhaust df_owner.simps)
  then show "r \<in> set (flow_refs p) \<longleftrightarrow> (\<exists>d. heap s r = Some d \<and> df_owner d = oid)" by (auto simp: flow_refs_def m i)
qed

lemma all_refs_hinv:
  assumes "hinv {} {} s"
  shows "tbl_ok t \<Longrightarrow> (\<And>oid p. (oid, p) \<in> set t \<Longrightarrow> find_proc s oid = Some p) \<Longrightarrow>
    distinct (all_refs t) \<and> set (all_refs t) = {r. \<exists>d. heap s r = Some d \<and> df_owner d \<in> fst ` set t}"
proof (induction t)
  case (Cons e t)
  obtain oid p where e: "e = (oid, p)" by fastforce
  have t: "tbl_ok t" "\<And>q. (oid, q) \<notin> set t" using Cons.prems(1) e by (force simp: tbl_ok_def)+
  have "find_proc s oid = Some p" using Cons.prems(2) e by simp
  note r = flow_refs_hinv [OF assms this]
  have "distinct (all_refs t)" "set (all_refs t) = {r. \<exists>d. heap s r = Some d \<and> df_owner d \<in> fst ` set t}"
    using Cons.IH [OF t(1)] Cons.prems(2) by auto
  then show ?case using r(1) t(2) by (auto simp: all_refs_def e r(2))
qed (simp add: all_refs_def)

lemma number_of_flows:
  assumes "hinv {} {} s" and "tbl_ok (m_procs s)"
  shows "getNumNetworkFlows s + getNumFileFlows s = length (m_dfSet s)"
proof -
  have f: "find_proc s oid = Some p" if "(oid, p) \<in> set (m_procs s)" for oid p using assms(2) that by (simp add: tbl_ok_def)
  note a = all_refs_hinv [OF assms f]
  have "df_owner d \<in> fst ` set (m_procs s)" if "heap s r = Some d" for r d
    using hinv_indexed [OF assms(1)] that by (auto simp: flows_indexed_def simp flip: dom_map_of_conv_image_fst)
  then have "set (all_refs (m_procs s)) = dom (heap s)" using a by auto
  then have "set (all_refs (m_procs s)) = set (m_dfSet s)" using hinvD(2) [OF assms(1)] by simp
  then have "length (all_refs (m_procs s)) = length (m_dfSet s)" using a hinvD(1) [OF assms(1)] by (metis distinct_card)
  then show ?thesis by (simp add: length_all_refs)
qed

lemma tidy_reach_reach: "tidy_reach s \<Longrightarrow> reach s"
  by (induction rule: tidy_reach.induct) (auto intro: reach.intros)

lemma number_of_procs: "tbl_ok (m_procs s) \<Longrightarrow> proc_getSize s = card (dom (find_proc s))"
  by (metis distinct_card dom_map_of_conv_image_fst length_map proc_getSize_def set_map tbl_ok_def)

end
