(* ===== verification/Flush.thy ===== *)
theory Flush
  imports Stats Shutdown
begin

text \<open>
  The flush at the end of the program: in a state whose memory is in order, the destructor of the
  processor frees every flow and writes what each has counted, if it returns; and it returns if the
  parents form no cycle, no process in a container waits for its record, and the file of every file flow
  is in the table.
\<close>

section \<open>Flows that are written and freed\<close>

text \<open>The record of a flow that is flushed is among the calls, unless it has seen no operation.\<close>

fun settled :: "wcall list \<Rightarrow> DataFlow \<Rightarrow> bool" where
  "settled tr (Net n) =
     (no_ops (or (nf_opFlags (netflow n)) (op_val OP_TRUNCATE)) \<or>
      (\<exists>t. R_NetworkFlow ((netflow n)\<lparr>nf_opFlags := or (nf_opFlags (netflow n)) (op_val OP_TRUNCATE), nf_endTs := t\<rparr>) \<in> wrec ` set tr))"
| "settled tr (Fil f) =
     (no_ops (or (ff_opFlags (fileflow f)) (op_val OP_TRUNCATE)) \<or>
      (\<exists>t. R_FileFlow ((fileflow f)\<lparr>ff_opFlags := or (ff_opFlags (fileflow f)) (op_val OP_TRUNCATE), ff_endTs := t\<rparr>) \<in> wrec ` set tr))"

lemma settled_mono: "settled tr d \<Longrightarrow> settled (tr @ cs) d"
  by (cases d) auto

definition empties :: "sf \<Rightarrow> ref set \<Rightarrow> sf \<Rightarrow> bool" where
  "empties s R s1 =
     (tabs s1 = tabs s \<and> heap s1 = (\<lambda>r. if r \<in> R then None else heap s r) \<and> (\<exists>cs. trace s1 = trace s @ cs) \<and>
      (\<forall>r \<in> R. \<forall>d. heap s r = Some d \<longrightarrow> settled (trace s1) d))"

lemma empties_none: "tabs s1 = tabs s \<Longrightarrow> heap s1 = heap s \<Longrightarrow> \<exists>cs. trace s1 = trace s @ cs \<Longrightarrow> empties s {} s1"
  by (simp add: empties_def)

lemma empties_trans:
  assumes "empties s R s1" and "empties s1 R1 s2"
  shows "empties s (R \<union> R1) s2"
proof -
  obtain cs where cs: "trace s2 = trace s1 @ cs" using assms(2) by (auto simp: empties_def)
  have "settled (trace s2) d" if "r \<in> R \<union> R1" and d: "heap s r = Some d" for r d
  proof (cases "r \<in> R")
    case True
    then show ?thesis using assms(1) d settled_mono unfolding cs by (auto simp: empties_def)
  next
    case False
    then have "heap s1 r = Some d" using assms(1) d by (simp add: empties_def)
    then show ?thesis using assms(2) False that(1) by (auto simp: empties_def)
  qed
  then show ?thesis using assms by (auto simp: empties_def fun_eq_iff)
qed

lemma empties_wlp:
  "empties s R s1 \<Longrightarrow> wlp m (\<lambda>u s2. empties s1 R1 s2) \<Longrightarrow> wlp m (\<lambda>u s2. empties s (R \<union> R1) s2)"
  by (erule wlp_conseq) (rule empties_trans)

lemma clock_empties: "getSinspTime I s = (t, s1) \<Longrightarrow> empties s {} s1"
  by (auto simp: getSinspTime_def tabs_def intro!: empties_none split: if_splits)

lemma free_net:
  assumes "heap s r = Some (Net n)" and "heap s1 = heap s" "tabs s1 = tabs s" "\<exists>cs. trace s1 = trace s @ cs"
  shows "wlp (free r (writeNetFlow I ((netflow n)\<lparr>nf_opFlags := or (nf_opFlags (netflow n)) (op_val OP_TRUNCATE), nf_endTs := t\<rparr>) p s1))
    (\<lambda>u s2. empties s {r} s2)"
  using assms by (auto simp: free_def writeNetFlow_def empties_def tabs_def fun_eq_iff wlp_def split: option.splits)

lemma free_file:
  assumes "heap s r = Some (Fil f)" and "heap s1 = heap s" "tabs s1 = tabs s" "\<exists>cs. trace s1 = trace s @ cs"
  shows "wlp (free r (writeFileFlow I ((fileflow f)\<lparr>ff_opFlags := or (ff_opFlags (fileflow f)) (op_val OP_TRUNCATE), ff_endTs := t\<rparr>) p g s1))
    (\<lambda>u s2. empties s {r} s2)"
  using assms by (auto simp: free_def writeFileFlow_def empties_def tabs_def fun_eq_iff wlp_def split: option.splits)

lemma flush_netflows_empties: "wlp (flush_netflows I p rs s) (\<lambda>u s1. empties s (set rs) s1)"
proof (induction rs arbitrary: s)
  case (Cons r rs)
  show ?case
  proof (cases "deref_net r s = None")
    case False
    then obtain n where n: "heap s r = Some (Net n)" "deref_net r s = Some (n, s)" using deref_None_or(1) [of r s] by auto
    obtain t s1 where t: "getSinspTime I s = (t, s1)" by fastforce
    note c = clock_empties [OF t, unfolded empties_def]
    have "wlp (free r (writeNetFlow I ((netflow n)\<lparr>nf_opFlags := or (nf_opFlags (netflow n)) (op_val OP_TRUNCATE), nf_endTs := t\<rparr>) (Some p) s1))
      (\<lambda>u s2. wlp (flush_netflows I p rs s2) (\<lambda>u s3. empties s ({r} \<union> set rs) s3))"
      by (rule wlp_conseq [OF free_net [OF n(1)] empties_wlp [OF _ Cons.IH]]) (use c in auto)
    then show ?thesis using n(2) t by (simp add: Let_def)
  qed simp
qed (simp add: empties_none)

lemma flush_fileflows_empties: "wlp (flush_fileflows I p rs s) (\<lambda>u s1. empties s (set rs) s1)"
proof (induction rs arbitrary: s)
  case (Cons r rs)
  show ?case
  proof (cases "deref_file r s = None")
    case False
    then obtain f where f: "heap s r = Some (Fil f)" "deref_file r s = Some (f, s)" using deref_None_or(2) [of r s] by auto
    obtain t s1 where t: "getSinspTime I s = (t, s1)" by fastforce
    obtain g s2 where k: "exportFile I (filekey f) s1 = (g, s2)" by fastforce
    have "fstep s1 s2" using fstep_getFile_key(2) [of s1 I "filekey f"] k by simp
    then have "empties s1 {} s2"
      using core_fields [of s2 s1] by (auto simp: fstep_def ext_def tabs_def fun_eq_iff intro!: empties_none)
    from empties_trans [OF clock_empties [OF t] this, unfolded empties_def] have c: "heap s2 = heap s" "tabs s2 = tabs s" "\<exists>cs. trace s2 = trace s @ cs"
      by auto
    have "wlp (free r (writeFileFlow I ((fileflow f)\<lparr>ff_opFlags := or (ff_opFlags (fileflow f)) (op_val OP_TRUNCATE), ff_endTs := t\<rparr>) (Some p) (Some h) s2))
      (\<lambda>u s3. wlp (flush_fileflows I p rs s3) (\<lambda>u s4. empties s ({r} \<union> set rs) s4))" for h
      by (rule wlp_conseq [OF free_file [OF f(1) c] empties_wlp [OF _ Cons.IH]])
    then show ?thesis using f(2) t k by (cases g) (simp_all add: Let_def)
  qed simp
qed (simp add: empties_none)

lemma flush_pfo_empties:
  assumes "tabs s oid = (netflows p, fileflows p)"
  shows "empties s {} (flush_pfo I oid p s)"
proof (cases "pfo p")
  case (Some f)
  obtain t s1 where t: "getSinspTime I s = (t, s1)" by fastforce
  have "empties s1 {} (put_proc oid (p\<lparr>pfo := None\<rparr>) (writeProcessFlow I pf q s1))" for pf q
    using assms clock_empties [OF t]
    by (intro empties_none) (auto simp: tabs_put writeProcessFlow_def empties_def tabs_def fun_eq_iff)
  from empties_trans [OF clock_empties [OF t] this] show ?thesis using Some t by (simp add: flush_pfo_def Let_def)
qed (simp add: flush_pfo_def empties_none)

lemma write_and_export_empties: "wlp (write_and_export I oids s) (\<lambda>u s1. empties s {} s1)"
proof (induction oids arbitrary: s)
  case (Cons oid oids)
  show ?case
  proof (cases "find_proc s oid")
    case (Some p)
    have "empties s {} (put_proc oid (p\<lparr>p_written := True\<rparr>) (writeProcess I q s1))" if "fstep s s1" for q s1
      using that Some core_fields [of s1 s]
      by (intro empties_none) (auto simp: tabs_put writeProcess_def fstep_def ext_def tabs_def fun_eq_iff)
    note st = empties_wlp [OF this Cons.IH]
    have f: "fstep s (snd (exportContainer I c s))" for c by (rule cstep_fstep [OF cstep_exportContainer])
    have "wlp (Some (exportContainer I c s)) (\<lambda>b s1. wlp (write_and_export I oids (put_proc oid (p\<lparr>p_written := True\<rparr>) (writeProcess I (p_proc p) s1)))
        (\<lambda>u s2. empties s {} s2))" for c
      using st [OF f [of c]] by (cases "exportContainer I c s") simp
    then show ?thesis using st [of s] Some by (simp split: option.split)
  qed simp
qed (simp add: empties_none)

lemma writeProcessAndAncestors_empties: "wlp (writeProcessAndAncestors I oid s) (\<lambda>u s1. empties s {} s1)"
  using write_and_export_empties by (auto simp: writeProcessAndAncestors_def split: option.split)

section \<open>The whole flush\<close>

definition tab_refs :: "(NFKey, ref) table \<times> (string, ref) table \<Rightarrow> ref set" where
  "tab_refs t = snd ` set (fst t) \<union> snd ` set (snd t)"

lemma clearAllProcesses_loop_empties:
  "wlp (clearAllProcesses_loop I oids s) (\<lambda>u s1. empties s (\<Union>oid \<in> set oids. tab_refs (tabs s oid)) s1)"
proof (induction oids arbitrary: s)
  case (Cons oid oids)
  let ?rest = "\<Union>oid \<in> set oids. tab_refs (tabs s oid)"
  have fl: "wlp (flush_netflows I (p_proc p1) (map snd (netflows p1)) s1) (\<lambda>u s2.
      wlp (flush_fileflows I (p_proc p1) (map snd (fileflows p1)) s2) (\<lambda>u s3.
        wlp (clearAllProcesses_loop I oids (flush_pfo I oid p1 s3)) (\<lambda>u s4. empties s (tab_refs (tabs s oid) \<union> ?rest) s4)))"
    if e: "empties s {} s1" and p1: "find_proc s1 oid = Some p1" for s1 p1
  proof (rule wlp_conseq [OF flush_netflows_empties], rule wlp_conseq [OF flush_fileflows_empties])
    fix u v s2 s3
    assume a: "empties s1 (set (map snd (netflows p1))) s2" and b: "empties s2 (set (map snd (fileflows p1))) s3"
    have t: "tabs s oid = (netflows p1, fileflows p1)" using e tabs_find [OF p1] by (simp add: empties_def)
    have ab: "empties s (tab_refs (tabs s oid)) s3"
      using empties_trans [OF empties_trans [OF e a] b] by (simp add: t tab_refs_def)
    have "empties s3 {} (flush_pfo I oid p1 s3)" by (rule flush_pfo_empties) (use ab t in \<open>simp add: empties_def\<close>)
    from empties_trans [OF ab this] have c: "empties s (tab_refs (tabs s oid)) (flush_pfo I oid p1 s3)" by simp
    then have "tabs (flush_pfo I oid p1 s3) = tabs s" by (simp add: empties_def)
    with empties_wlp [OF c Cons.IH]
    show "wlp (clearAllProcesses_loop I oids (flush_pfo I oid p1 s3)) (\<lambda>u s4. empties s (tab_refs (tabs s oid) \<union> ?rest) s4)" by simp
  qed
  have w: "wlp (if b then writeProcessAndAncestors I oid s else Some ((), s)) (\<lambda>u s1. empties s {} s1)" for b
    using writeProcessAndAncestors_empties [of I oid s] by (simp add: empties_none)
  show ?case using wlp_conseq [OF w] fl by (auto simp: deref_wlp)
qed (simp add: empties_none)

lemma tab_refs_flow_refs: "find_proc s oid = Some p \<Longrightarrow> tab_refs (tabs s oid) = set (flow_refs p)"
  by (simp add: tab_refs_def tabs_def flow_refs_def)

lemma owner_found: "flows_indexed s \<Longrightarrow> heap s r = Some d \<Longrightarrow> find_proc s (df_owner d) \<noteq> None"
  unfolding flows_indexed_def by metis

lemma flush_all:
  assumes "hinv {} {} s" and "SysFlowProcessor_delete I s = Some (u, s1)"
  shows "heap s1 = (\<lambda>_. None) \<and> (\<forall>r d. heap s r = Some d \<longrightarrow> settled (trace s1) d)"
proof -
  obtain v s2 where l: "clearAllProcesses_loop I (tbl_keys (m_procs s)) (before_flush s) = Some (v, s2)"
    and s1: "heap s1 = heap s2" "trace s1 = trace s2"
    using assms(2) by (auto simp: SysFlowProcessor_delete_alt clearAllProcesses_def clearAllFiles_def split: bind_splits option.splits)
  have t: "tabs (before_flush s) = tabs s" by (simp add: tabs_def fun_eq_iff)
  have "r \<in> (\<Union>oid \<in> dom (find_proc s). tab_refs (tabs s oid))" if h: "heap s r = Some d" for r d
  proof -
    obtain p where p: "find_proc s (df_owner d) = Some p" using owner_found [OF hinv_indexed [OF assms(1)] h] by auto
    then have "r \<in> tab_refs (tabs s (df_owner d))"
      using flow_refs_hinv(2) [OF assms(1) p] h by (simp add: tab_refs_flow_refs)
    then show ?thesis using p by blast
  qed
  with wlpD [OF clearAllProcesses_loop_empties l] s1 show ?thesis by (fastforce simp: empties_def t fun_eq_iff)
qed

section \<open>When the flush returns\<close>

text \<open>What a step of the flush leaves: the parents, the containers and the marks of the processes, and the files.\<close>

definition keeps :: "sf \<Rightarrow> sf \<Rightarrow> bool" where
  "keeps s s1 = (poids s1 = poids s \<and> dom (find_file s) \<subseteq> dom (find_file s1) \<and>
     (\<forall>oid p1. find_proc s1 oid = Some p1 \<longrightarrow> (\<exists>p. find_proc s oid = Some p \<and>
        proc_containerId (p_proc p1) = proc_containerId (p_proc p) \<and> (p_written p \<longrightarrow> p_written p1))))"

lemma keeps_same: "m_procs s1 = m_procs s \<Longrightarrow> dom (find_file s) \<subseteq> dom (find_file s1) \<Longrightarrow> keeps s s1"
  by (simp add: keeps_def poids_def fun_eq_iff)

lemma keeps_trans:
  assumes "keeps s s1" and "keeps s1 s2"
  shows "keeps s s2"
proof -
  have "\<exists>p. find_proc s oid = Some p \<and> proc_containerId (p_proc p2) = proc_containerId (p_proc p) \<and> (p_written p \<longrightarrow> p_written p2)"
    if p2: "find_proc s2 oid = Some p2" for oid p2
  proof -
    obtain p1 where p1: "find_proc s1 oid = Some p1" "proc_containerId (p_proc p2) = proc_containerId (p_proc p1)" "p_written p1 \<longrightarrow> p_written p2"
      using assms(2) p2 unfolding keeps_def by metis
    then show ?thesis using assms(1) unfolding keeps_def by metis
  qed
  moreover have "dom (find_file s) \<subseteq> dom (find_file s2)" using assms unfolding keeps_def by blast
  ultimately show ?thesis using assms by (simp add: keeps_def)
qed

lemma keeps_wlp: "keeps s s1 \<Longrightarrow> wlp m (\<lambda>u s2. keeps s1 s2) \<Longrightarrow> wlp m (\<lambda>u s2. keeps s s2)"
  by (erule wlp_conseq) (rule keeps_trans)

lemma keeps_put:
  "find_proc s oid = Some p \<Longrightarrow> proc_poid (p_proc q) = proc_poid (p_proc p) \<Longrightarrow> proc_containerId (p_proc q) = proc_containerId (p_proc p) \<Longrightarrow>
     (p_written p \<longrightarrow> p_written q) \<Longrightarrow> keeps s (put_proc oid q s)"
  by (simp add: keeps_def poids_put)

lemma keeps_dom: "keeps s s1 \<Longrightarrow> dom (find_proc s1) = dom (find_proc s)"
  by (auto simp: keeps_def poids_def fun_eq_iff dom_def) (metis map_option_is_None not_None_eq)+

text \<open>No process in a container waits for its record.\<close>

definition uncontained :: "sf \<Rightarrow> bool" where
  "uncontained s = (acyclic (par (poids s)) \<and> (\<forall>oid p. find_proc s oid = Some p \<longrightarrow> p_written p \<or> proc_containerId (p_proc p) = None))"

lemma keeps_uncontained: "keeps s s1 \<Longrightarrow> uncontained s \<Longrightarrow> uncontained s1"
  unfolding keeps_def uncontained_def by metis

lemma write_and_export_returns:
  assumes "\<And>oid. oid \<in> set oids \<Longrightarrow> \<exists>p. find_proc s oid = Some p \<and> proc_containerId (p_proc p) = None"
  shows "wp (write_and_export I oids s) (\<lambda>u s1. keeps s s1)"
  using assms
proof (induction oids arbitrary: s)
  case (Cons oid oids)
  obtain p where p: "find_proc s oid = Some p" "proc_containerId (p_proc p) = None" using Cons.prems by auto
  let ?s = "put_proc oid (p\<lparr>p_written := True\<rparr>) (writeProcess I (p_proc p) s)"
  have e: "keeps s (writeProcess I (p_proc p) s)" by (rule keeps_same) (simp_all add: writeProcess_def)
  have "keeps (writeProcess I (p_proc p) s) ?s" by (rule keeps_put [where p = p]) (use p(1) in \<open>simp_all add: writeProcess_def\<close>)
  with e have k: "keeps s ?s" by (rule keeps_trans)
  have "wp (write_and_export I oids ?s) (\<lambda>u s1. keeps ?s s1)"
    by (rule Cons.IH) (use Cons.prems p(2) in \<open>auto simp: writeProcess_def\<close>)
  then have "wp (write_and_export I oids ?s) (\<lambda>u s1. keeps s s1)" by (rule wp_conseq) (rule keeps_trans [OF k])
  then show ?case using p by simp
qed (simp add: keeps_same)

lemma ancestors_unwritten_unwritten:
  "ancestors_unwritten poid ps s = Some qs \<Longrightarrow> x \<in> set qs \<Longrightarrow> x \<in> set ps \<or> (\<exists>q. find_proc s x = Some q \<and> \<not> p_written q)"
proof (induction poid ps s qs arbitrary: x rule: ancestors_unwritten_induct)
  case (step loop poid ps s qs)
  show ?case
  proof (cases "\<exists>key q. poid = Some key \<and> find_proc s key = Some q")
    case True
    then obtain key q where k: "poid = Some key" "find_proc s key = Some q" by blast
    have l: "loop (proc_poid (p_proc q)) (if \<not> p_written q then ps @ [key] else ps) s = Some qs" using step.hyps k by simp
    from step.IH [OF l step.prems] k show ?thesis by (cases "p_written q") auto
  qed (use step in \<open>auto split: option.splits\<close>)
qed

lemma writeProcessAndAncestors_returns:
  assumes "uncontained s" and "find_proc s oid = Some p" and "\<not> p_written p"
  shows "wp (writeProcessAndAncestors I oid s) (\<lambda>u s1. keeps s s1)"
proof -
  obtain ps where ps: "ancestors_unwritten (proc_poid (p_proc p)) [oid] s = Some ps"
    using unwritten.walk_ends [of s "proc_poid (p_proc p)" "[oid]"] assms(1) by (auto simp: uncontained_def)
  have "\<exists>q. find_proc s x = Some q \<and> proc_containerId (p_proc q) = None" if "x \<in> set ps" for x
    using ancestors_unwritten_unwritten [OF ps that] assms by (auto simp: uncontained_def)
  then have "wp (write_and_export I (rev ps) s) (\<lambda>u s1. keeps s s1)" by (intro write_and_export_returns) auto
  then show ?thesis using assms(2) ps by (simp add: writeProcessAndAncestors_def)
qed

lemma flush_netflows_returns:
  assumes "distinct rs" and "\<And>r. r \<in> set rs \<Longrightarrow> \<exists>n. heap s r = Some (Net n)"
  shows "wp (flush_netflows I p rs s) (\<lambda>u s1. m_procs s1 = m_procs s \<and> m_files s1 = m_files s)"
  using assms
proof (induction rs arbitrary: s)
  case (Cons r rs)
  obtain n where n: "heap s r = Some (Net n)" using Cons.prems(2) by auto
  obtain t s1 where t: "getSinspTime I s = (t, s1)" by fastforce
  have c: "heap s1 = heap s" "m_procs s1 = m_procs s" "m_files s1 = m_files s" using t by (auto simp: getSinspTime_def split: if_splits)
  let ?nf = "(netflow n)\<lparr>nf_opFlags := or (nf_opFlags (netflow n)) (op_val OP_TRUNCATE), nf_endTs := t\<rparr>"
  let ?s2 = "(writeNetFlow I ?nf (Some p) s1)\<lparr>heap := (heap s)(r := None)\<rparr>"
  have f: "free r (writeNetFlow I ?nf (Some p) s1) = Some ((), ?s2)" using n c by (simp add: free_def writeNetFlow_def)
  have "wp (flush_netflows I p rs ?s2) (\<lambda>u s3. m_procs s3 = m_procs ?s2 \<and> m_files s3 = m_files ?s2)"
    by (rule Cons.IH) (use Cons.prems in auto)
  then have "wp (flush_netflows I p rs ?s2) (\<lambda>u s3. m_procs s3 = m_procs s \<and> m_files s3 = m_files s)"
    by (rule wp_conseq) (use c in \<open>simp add: writeNetFlow_def\<close>)
  then show ?case using n t f by (simp add: deref_net_def Let_def del: op_val.simps)
qed simp

lemma flush_fileflows_returns:
  assumes "distinct rs" and "\<And>r. r \<in> set rs \<Longrightarrow> \<exists>f. heap s r = Some (Fil f) \<and> find_file s (filekey f) \<noteq> None"
  shows "wp (flush_fileflows I p rs s) (\<lambda>u s1. m_procs s1 = m_procs s \<and> dom (find_file s) \<subseteq> dom (find_file s1))"
  using assms
proof (induction rs arbitrary: s)
  case (Cons r rs)
  obtain f where f: "heap s r = Some (Fil f)" "find_file s (filekey f) \<noteq> None" using Cons.prems(2) [of r] by auto
  obtain t s1 where t: "getSinspTime I s = (t, s1)" by fastforce
  have c: "heap s1 = heap s" "m_procs s1 = m_procs s" "m_files s1 = m_files s" using t by (auto simp: getSinspTime_def split: if_splits)
  have "fst (exportFile I (filekey f) s1) \<noteq> None" using f(2) c(3) by (auto simp: exportFile_def split: option.split)
  then obtain g s2 where g: "exportFile I (filekey f) s1 = (Some g, s2)" by (cases "exportFile I (filekey f) s1") auto
  have e: "files_only s1 s2" using files_only_files(2) [of s1 I "filekey f"] g by simp
  then have c2: "heap s2 = heap s" "m_procs s2 = m_procs s" "dom (find_file s) \<subseteq> dom (find_file s2)"
    using c core_fields [of s2 s1] by (auto simp: files_only_def)
  let ?ff = "(fileflow f)\<lparr>ff_opFlags := or (ff_opFlags (fileflow f)) (op_val OP_TRUNCATE), ff_endTs := t\<rparr>"
  let ?s3 = "(writeFileFlow I ?ff (Some p) (Some (f_file g)) s2)\<lparr>heap := (heap s)(r := None)\<rparr>"
  have fr: "free r (writeFileFlow I ?ff (Some p) (Some (f_file g)) s2) = Some ((), ?s3)" using f c2 by (simp add: free_def writeFileFlow_def)
  have d: "m_procs ?s3 = m_procs s" "dom (find_file s) \<subseteq> dom (find_file ?s3)" using c2 by (simp_all add: writeFileFlow_def)
  have "wp (flush_fileflows I p rs ?s3) (\<lambda>u s4. m_procs s4 = m_procs ?s3 \<and> dom (find_file ?s3) \<subseteq> dom (find_file s4))"
  proof (rule Cons.IH)
    show "\<exists>f. heap ?s3 x = Some (Fil f) \<and> find_file ?s3 (filekey f) \<noteq> None" if "x \<in> set rs" for x
    proof -
      obtain h where h: "heap s x = Some (Fil h)" "find_file s (filekey h) \<noteq> None" using Cons.prems(2) [of x] \<open>x \<in> set rs\<close> by auto
      moreover have "x \<noteq> r" using Cons.prems(1) \<open>x \<in> set rs\<close> by auto
      moreover have "find_file ?s3 (filekey h) \<noteq> None" using h(2) d(2) by blast
      ultimately show ?thesis by simp
    qed
  qed (use Cons.prems in simp)
  then have "wp (flush_fileflows I p rs ?s3) (\<lambda>u s4. m_procs s4 = m_procs s \<and> dom (find_file s) \<subseteq> dom (find_file s4))"
    by (rule wp_conseq) (use d in auto)
  then show ?case using f t g fr by (simp add: deref_file_def Let_def del: op_val.simps)
qed simp

text \<open>The flows of the processes that are still to be flushed are allocated, each to its process.\<close>

definition awaits :: "sf \<Rightarrow> OID list \<Rightarrow> bool" where
  "awaits s oids = (\<forall>oid \<in> set oids. \<exists>p. find_proc s oid = Some p \<and> distinct (flow_refs p) \<and>
     (\<forall>r \<in> snd ` set (netflows p). \<exists>n. heap s r = Some (Net n) \<and> df_owner (Net n) = oid) \<and>
     (\<forall>r \<in> snd ` set (fileflows p). \<exists>f. heap s r = Some (Fil f) \<and> df_owner (Fil f) = oid \<and> find_file s (filekey f) \<noteq> None))"

lemma awaitsE:
  assumes "awaits s oids" and "oid \<in> set oids"
  obtains p where "find_proc s oid = Some p" and "distinct (flow_refs p)"
    and "\<forall>r \<in> snd ` set (netflows p). \<exists>n. heap s r = Some (Net n) \<and> df_owner (Net n) = oid"
    and "\<forall>r \<in> snd ` set (fileflows p). \<exists>f. heap s r = Some (Fil f) \<and> df_owner (Fil f) = oid \<and> find_file s (filekey f) \<noteq> None"
  using bspec [OF assms(1) [unfolded awaits_def] assms(2)] by (elim exE conjE)

lemma awaits_step:
  assumes "awaits s oids" and "keeps s s1" and "empties s R s1" and "\<And>r d. r \<in> R \<Longrightarrow> heap s r = Some d \<Longrightarrow> df_owner d \<notin> set oids"
  shows "awaits s1 oids"
  unfolding awaits_def
proof
  fix oid assume oid: "oid \<in> set oids"
  from assms(1) oid obtain p where p: "find_proc s oid = Some p" "distinct (flow_refs p)"
    and n: "\<forall>r \<in> snd ` set (netflows p). \<exists>n. heap s r = Some (Net n) \<and> df_owner (Net n) = oid"
    and f: "\<forall>r \<in> snd ` set (fileflows p). \<exists>f. heap s r = Some (Fil f) \<and> df_owner (Fil f) = oid \<and> find_file s (filekey f) \<noteq> None"
    by (rule awaitsE)
  obtain p1 where p1: "find_proc s1 oid = Some p1" using keeps_dom [OF assms(2)] p(1) by blast
  have same: "netflows p1 = netflows p" "fileflows p1 = fileflows p"
    using assms(3) tabs_find [OF p1] tabs_find [OF p(1)] by (simp_all add: empties_def)
  have h: "heap s1 r = Some d" if "heap s r = Some d" "df_owner d = oid" for r d
    using assms(3,4) that oid by (auto simp: empties_def)
  have ff: "find_file s1 k \<noteq> None" if "find_file s k \<noteq> None" for k using assms(2) that unfolding keeps_def by blast
  have "\<forall>r \<in> snd ` set (netflows p). \<exists>n. heap s1 r = Some (Net n) \<and> df_owner (Net n) = oid"
  proof
    fix r assume "r \<in> snd ` set (netflows p)"
    from bspec [OF n this] obtain m where "heap s r = Some (Net m)" "df_owner (Net m) = oid" by (elim exE conjE)
    with h show "\<exists>n. heap s1 r = Some (Net n) \<and> df_owner (Net n) = oid" by blast
  qed
  moreover have "\<forall>r \<in> snd ` set (fileflows p). \<exists>f. heap s1 r = Some (Fil f) \<and> df_owner (Fil f) = oid \<and> find_file s1 (filekey f) \<noteq> None"
  proof
    fix r assume "r \<in> snd ` set (fileflows p)"
    from bspec [OF f this] obtain m where "heap s r = Some (Fil m)" "df_owner (Fil m) = oid" "find_file s (filekey m) \<noteq> None" by (elim exE conjE)
    with h ff show "\<exists>f. heap s1 r = Some (Fil f) \<and> df_owner (Fil f) = oid \<and> find_file s1 (filekey f) \<noteq> None" by blast
  qed
  ultimately have "find_proc s1 oid = Some p1 \<and> distinct (flow_refs p1) \<and>
     (\<forall>r \<in> snd ` set (netflows p1). \<exists>n. heap s1 r = Some (Net n) \<and> df_owner (Net n) = oid) \<and>
     (\<forall>r \<in> snd ` set (fileflows p1). \<exists>f. heap s1 r = Some (Fil f) \<and> df_owner (Fil f) = oid \<and> find_file s1 (filekey f) \<noteq> None)"
    using p1 p(2) same by (simp only: flow_refs_def)
  then show "\<exists>p. find_proc s1 oid = Some p \<and> distinct (flow_refs p) \<and>
     (\<forall>r \<in> snd ` set (netflows p). \<exists>n. heap s1 r = Some (Net n) \<and> df_owner (Net n) = oid) \<and>
     (\<forall>r \<in> snd ` set (fileflows p). \<exists>f. heap s1 r = Some (Fil f) \<and> df_owner (Fil f) = oid \<and> find_file s1 (filekey f) \<noteq> None)"
    by (rule exI [of _ p1])
qed

lemma flush_pfo_keeps: "find_proc s oid = Some p \<Longrightarrow> keeps s (flush_pfo I oid p s)"
proof (cases "pfo p")
  case (Some f)
  assume p: "find_proc s oid = Some p"
  obtain t s1 where t: "getSinspTime I s = (t, s1)" by fastforce
  have "keeps s (writeProcessFlow I pf q s1)" for pf q
    using t by (intro keeps_same) (auto simp: getSinspTime_def writeProcessFlow_def split: if_splits)
  moreover have "keeps (writeProcessFlow I pf q s1) (put_proc oid (p\<lparr>pfo := None\<rparr>) (writeProcessFlow I pf q s1))" for pf q
    using t p by (intro keeps_put [where p = p]) (auto simp: getSinspTime_def writeProcessFlow_def split: if_splits)
  ultimately have "keeps s (put_proc oid (p\<lparr>pfo := None\<rparr>) (writeProcessFlow I pf q s1))" for pf q by (rule keeps_trans)
  then show ?thesis using Some t by (simp add: flush_pfo_def Let_def)
qed (simp add: flush_pfo_def keeps_same)

lemma clearAllProcesses_loop_returns:
  assumes "uncontained s" and "distinct oids" and "awaits s oids"
  shows "clearAllProcesses_loop I oids s \<noteq> None"
  using assms
proof (induction oids arbitrary: s)
  case (Cons oid oids)
  from Cons.prems(3) list.set_intros(1) obtain p where p: "find_proc s oid = Some p" by (rule awaitsE)
  let ?w = "if (netflows p \<noteq> [] \<or> fileflows p \<noteq> [] \<or> pfo p \<noteq> None) \<and> \<not> p_written p then writeProcessAndAncestors I oid s else Some ((), s)"
  have "wp ?w (\<lambda>u s1. keeps s s1)" using writeProcessAndAncestors_returns [OF Cons.prems(1) p, of I] by (auto simp: keeps_same)
  moreover have "wlp ?w (\<lambda>u s1. empties s {} s1)" using writeProcessAndAncestors_empties [of I oid s] by (simp add: empties_none)
  ultimately have "wp ?w (\<lambda>u s1. keeps s s1 \<and> empties s {} s1)" by (rule wp_wlp)
  then obtain u s1 where w: "?w = Some (u, s1)" and k1: "keeps s s1" and e1: "empties s {} s1" by (rule wpE) blast
  have a1: "awaits s1 (oid # oids)" by (rule awaits_step [OF Cons.prems(3) k1 e1]) simp
  from a1 list.set_intros(1) obtain p1 where p1: "find_proc s1 oid = Some p1" "distinct (flow_refs p1)"
    and n: "\<forall>r \<in> snd ` set (netflows p1). \<exists>n. heap s1 r = Some (Net n) \<and> df_owner (Net n) = oid"
    and f: "\<forall>r \<in> snd ` set (fileflows p1). \<exists>f. heap s1 r = Some (Fil f) \<and> df_owner (Fil f) = oid \<and> find_file s1 (filekey f) \<noteq> None"
    by (rule awaitsE)
  have d: "distinct (map snd (netflows p1))" "distinct (map snd (fileflows p1))" "snd ` set (netflows p1) \<inter> snd ` set (fileflows p1) = {}"
    using p1(2) by (auto simp: flow_refs_def)
  have "wp (flush_netflows I (p_proc p1) (map snd (netflows p1)) s1) (\<lambda>u s2. m_procs s2 = m_procs s1 \<and> m_files s2 = m_files s1)"
    by (rule flush_netflows_returns [OF d(1)]) (use n in auto)
  from wp_wlp [OF this flush_netflows_empties] obtain u2 s2 where s2: "flush_netflows I (p_proc p1) (map snd (netflows p1)) s1 = Some (u2, s2)"
    "m_procs s2 = m_procs s1" "m_files s2 = m_files s1" "empties s1 (snd ` set (netflows p1)) s2" by (auto elim!: wpE)
  have "wp (flush_fileflows I (p_proc p1) (map snd (fileflows p1)) s2) (\<lambda>u s3. m_procs s3 = m_procs s2 \<and> dom (find_file s2) \<subseteq> dom (find_file s3))"
  proof (rule flush_fileflows_returns [OF d(2)])
    fix r assume r: "r \<in> set (map snd (fileflows p1))"
    then have "r \<notin> snd ` set (netflows p1)" using d(3) by auto
    then have "heap s2 r = heap s1 r" using s2(4) by (simp add: empties_def)
    then show "\<exists>f. heap s2 r = Some (Fil f) \<and> find_file s2 (filekey f) \<noteq> None" using bspec [OF f, of r] r s2(3) by auto
  qed
  from wp_wlp [OF this flush_fileflows_empties] obtain u3 s3 where s3: "flush_fileflows I (p_proc p1) (map snd (fileflows p1)) s2 = Some (u3, s3)"
    "m_procs s3 = m_procs s2" "dom (find_file s2) \<subseteq> dom (find_file s3)" "empties s2 (snd ` set (fileflows p1)) s3" by (auto elim!: wpE)
  let ?s4 = "flush_pfo I oid p1 s3"
  have p3: "find_proc s3 oid = Some p1" using p1(1) s2(2) s3(2) by simp
  have k3: "keeps s1 s3" using s2 s3 by (intro keeps_same) auto
  have k: "keeps s1 ?s4" by (rule keeps_trans [OF k3 flush_pfo_keeps [OF p3]])
  have e: "empties s1 (snd ` set (netflows p1) \<union> snd ` set (fileflows p1)) ?s4"
    using empties_trans [OF empties_trans [OF s2(4) s3(4)] flush_pfo_empties [OF tabs_find [OF p3]]] by simp
  have "awaits s1 oids" using a1 by (simp add: awaits_def)
  then have a: "awaits ?s4 oids"
  proof (rule awaits_step [OF _ k e])
    fix r d assume "r \<in> snd ` set (netflows p1) \<union> snd ` set (fileflows p1)" "heap s1 r = Some d"
    then have "df_owner d = oid" by (elim UnE) (use bspec [OF n, of r] bspec [OF f, of r] in \<open>auto simp del: image_iff\<close>)
    then show "df_owner d \<notin> set oids" using Cons.prems(2) by simp
  qed
  have "uncontained ?s4" using keeps_uncontained [OF k keeps_uncontained [OF k1 Cons.prems(1)]] .
  from Cons.IH [OF this _ a] Cons.prems(2) have "clearAllProcesses_loop I oids ?s4 \<noteq> None" by simp
  then show ?case using p p1(1) w s2(1) s3(1) by (simp add: deref_proc_def)
qed simp

text \<open>The states in which the flush returns.\<close>

definition flushable :: "sf \<Rightarrow> bool" where
  "flushable s = (uncontained s \<and> (\<forall>r f. heap s r = Some (Fil f) \<longrightarrow> find_file s (filekey f) \<noteq> None))"

lemma flush_returns:
  assumes "hinv {} {} s" and "tbl_ok (m_procs s)" and "flushable s"
  shows "SysFlowProcessor_delete I s \<noteq> None"
proof -
  have "awaits s (tbl_keys (m_procs s))"
    unfolding awaits_def
  proof
    fix oid assume "oid \<in> set (tbl_keys (m_procs s))"
    then obtain p where p: "find_proc s oid = Some p" by auto
    have n: "\<exists>n. heap s r = Some (Net n) \<and> df_owner (Net n) = oid" if "(k, r) \<in> set (netflows p)" for k r
      using hinv_table(1) [OF assms(1) p, of k r] hinv_tbl_ok [OF assms(1) p] that by (auto simp: tbl_ok_def)
    have f: "\<exists>f. heap s r = Some (Fil f) \<and> df_owner (Fil f) = oid \<and> find_file s (filekey f) \<noteq> None" if "(k, r) \<in> set (fileflows p)" for k r
    proof -
      have "map_of (fileflows p) k = Some r" using hinv_tbl_ok [OF assms(1) p] that by (simp add: tbl_ok_def)
      from hinv_table(2) [OF assms(1) p this] show ?thesis using assms(3) by (auto simp: flushable_def)
    qed
    show "\<exists>p. find_proc s oid = Some p \<and> distinct (flow_refs p) \<and>
       (\<forall>r \<in> snd ` set (netflows p). \<exists>n. heap s r = Some (Net n) \<and> df_owner (Net n) = oid) \<and>
       (\<forall>r \<in> snd ` set (fileflows p). \<exists>f. heap s r = Some (Fil f) \<and> df_owner (Fil f) = oid \<and> find_file s (filekey f) \<noteq> None)"
    proof (rule exI [of _ p], intro conjI ballI)
      show "\<exists>n. heap s r = Some (Net n) \<and> df_owner (Net n) = oid" if "r \<in> snd ` set (netflows p)" for r
        using that n by (elim imageE) (metis prod.collapse)
      show "\<exists>f. heap s r = Some (Fil f) \<and> df_owner (Fil f) = oid \<and> find_file s (filekey f) \<noteq> None" if "r \<in> snd ` set (fileflows p)" for r
        using that f by (elim imageE) (metis prod.collapse)
    qed (use p flow_refs_hinv(1) [OF assms(1) p] in auto)
  qed
  then have a: "awaits (before_flush s) (tbl_keys (m_procs s))" by (simp add: awaits_def)
  have "poids (before_flush s) = poids s" by (simp add: poids_def fun_eq_iff)
  then have u: "uncontained (before_flush s)" using assms(3) by (simp add: flushable_def uncontained_def)
  from clearAllProcesses_loop_returns [OF u distinct_tbl_keys [OF assms(2)] a, of I]
  show ?thesis by (auto simp: SysFlowProcessor_delete_alt clearAllProcesses_def split: option.splits)
qed

end
