(* ===== verification/Keys.thy ===== *)
theory Keys
  imports Utils
begin

text \<open>
  The keys of the hash tables (\<open>datatypes.h\<close>, \<open>utils.cpp\<close>): the tests for equality, the bytes that are
  hashed, and the keys reserved for empty and deleted buckets. The hash function itself, \<open>XXH3_64bits\<close>,
  is a parameter. The theory justifies the tables of the model, which are maps: keys are found by their
  fields, and keys that are equal have the same bytes, hence the same hash.
\<close>

section \<open>Tests and bytes\<close>

text \<open>The bytes of a word in memory, the lowest first.\<close>

definition le_bytes :: "nat \<Rightarrow> 'a::len word \<Rightarrow> 8 word list" where
  "le_bytes n w = map (\<lambda>i. ucast (drop_bit (8 * i) w)) [0..<n]"

definition eqoid :: "OID \<Rightarrow> OID \<Rightarrow> bool" where
  "eqoid s1 s2 = (hpid s1 = hpid s2 \<and> createTS s1 = createTS s2)"

definition eqstr :: "string \<Rightarrow> string \<Rightarrow> bool" where
  "eqstr s1 s2 = (s1 = s2)"

definition eqnfkey :: "NFKey \<Rightarrow> NFKey \<Rightarrow> bool" where
  "eqnfkey n1 n2 =
     (k_ip1 n1 = k_ip1 n2 \<and> k_ip2 n1 = k_ip2 n2 \<and> k_port1 n1 = k_port1 n2 \<and> k_port2 n1 = k_port2 n2 \<and>
      k_tid n1 = k_tid n2 \<and> k_fd n1 = k_fd n2)"

text \<open>
  The representation of a key: the members in their order, with the padding that their alignment
  asks for. The keys of the collector are value-initialised, so the padding is zero.
\<close>

definition oid_bytes :: "OID \<Rightarrow> 8 word list" where
  "oid_bytes t = le_bytes 8 (word_of_int (hpid t) :: 64 word) @ le_bytes 8 (word_of_int (createTS t) :: 64 word)"

definition nfkey_bytes :: "NFKey \<Rightarrow> 8 word list" where
  "nfkey_bytes t =
     le_bytes 8 (k_tid t) @ le_bytes 4 (k_ip1 t) @ le_bytes 2 (k_port1 t) @ [0, 0] @
     le_bytes 4 (k_ip2 t) @ le_bytes 2 (k_port2 t) @ [0, 0] @ le_bytes 4 (k_fd t) @ [0, 0, 0, 0]"

definition str_bytes :: "string \<Rightarrow> 8 word list" where
  "str_bytes t = map (\<lambda>c. word_of_nat (of_char c)) t"

definition XXHasher_OID :: "(8 word list \<Rightarrow> 64 word) \<Rightarrow> OID \<Rightarrow> 64 word" where
  "XXHasher_OID xxh t = xxh (oid_bytes t)"

definition XXHasher_NFKey :: "(8 word list \<Rightarrow> 64 word) \<Rightarrow> NFKey \<Rightarrow> 64 word" where
  "XXHasher_NFKey xxh t = xxh (nfkey_bytes t)"

definition XXHasher_string :: "(8 word list \<Rightarrow> 64 word) \<Rightarrow> string \<Rightarrow> 64 word" where
  "XXHasher_string xxh t = xxh (str_bytes t)"

text \<open>
  The table of the processes is over pointers: the test and the hash follow them. A pointer is an
  address, \<open>mem\<close> the objects behind the addresses.
\<close>

definition eqoidptr :: "('p \<Rightarrow> OID option) \<Rightarrow> 'p \<Rightarrow> 'p \<Rightarrow> bool option" where
  "eqoidptr mem s1 s2 = do {
     o1 \<leftarrow> mem s1;
     o2 \<leftarrow> mem s2;
     Some (hpid o1 = hpid o2 \<and> createTS o1 = createTS o2)
   }"

definition XXHasher_OIDptr :: "(8 word list \<Rightarrow> 64 word) \<Rightarrow> ('p \<Rightarrow> OID option) \<Rightarrow> 'p \<Rightarrow> 64 word option" where
  "XXHasher_OIDptr h mem t = map_option (\<lambda>k. h (oid_bytes k)) (mem t)"

text \<open>Two live pointers are the same key exactly when the test on the objects says so, and then their hashes agree.\<close>

lemma eqoidptr_deref:
  assumes "mem p1 = Some o1" and "mem p2 = Some o2"
  shows "eqoidptr mem p1 p2 = Some (eqoid o1 o2)"
    and "eqoid o1 o2 \<Longrightarrow> XXHasher_OIDptr h mem p1 = XXHasher_OIDptr h mem p2"
  using assms by (simp_all add: eqoidptr_def eqoid_def XXHasher_OIDptr_def oid_bytes_def)

section \<open>The reserved keys\<close>

text \<open>
  The static variables of \<open>utils.cpp\<close>, zero at the start; \<open>initKeys\<close> assigns some members of each key,
  and the first of the four functions that is called runs it.
\<close>

record key_statics =
  st_nfdelkey :: NFKey
  st_nfemptykey :: NFKey
  st_keysinit :: bool
  st_oiddelkey :: OID
  st_oidemptykey :: OID

definition NFKey_zero :: NFKey where
  "NFKey_zero = \<lparr>k_tid = 0, k_ip1 = 0, k_port1 = 0, k_ip2 = 0, k_port2 = 0, k_fd = 0\<rparr>"

definition statics_zero :: key_statics where
  "statics_zero = \<lparr>st_nfdelkey = NFKey_zero, st_nfemptykey = NFKey_zero, st_keysinit = False,
     st_oiddelkey = \<lparr>hpid = 0, createTS = 0\<rparr>, st_oidemptykey = \<lparr>hpid = 0, createTS = 0\<rparr>\<rparr>"

definition initKeys :: "key_statics \<Rightarrow> key_statics" where
  "initKeys s =
     s\<lparr>st_nfdelkey := (st_nfdelkey s)\<lparr>k_ip1 := 1, k_ip2 := 1, k_port1 := 1, k_port2 := 1\<rparr>,
       st_nfemptykey := (st_nfemptykey s)\<lparr>k_ip1 := 1, k_ip2 := 0, k_port1 := 1, k_port2 := 1\<rparr>,
       st_oidemptykey := (st_oidemptykey s)\<lparr>hpid := 2, createTS := 2\<rparr>,
       st_oiddelkey := (st_oiddelkey s)\<lparr>hpid := 1, createTS := 1\<rparr>,
       st_keysinit := True\<rparr>"

definition with_keys :: "key_statics \<Rightarrow> key_statics" where
  "with_keys s = (if st_keysinit s then s else initKeys s)"

definition getNFEmptyKey :: "key_statics \<Rightarrow> NFKey \<times> key_statics" where
  "getNFEmptyKey s = (st_nfemptykey (with_keys s), with_keys s)"

definition getNFDelKey :: "key_statics \<Rightarrow> NFKey \<times> key_statics" where
  "getNFDelKey s = (st_nfdelkey (with_keys s), with_keys s)"

definition getOIDEmptyKey :: "key_statics \<Rightarrow> OID \<times> key_statics" where
  "getOIDEmptyKey s = (st_oidemptykey (with_keys s), with_keys s)"

definition getOIDDelKey :: "key_statics \<Rightarrow> OID \<times> key_statics" where
  "getOIDDelKey s = (st_oiddelkey (with_keys s), with_keys s)"

text \<open>Whatever was called before, the functions return the same four keys.\<close>

lemma reserved_keys:
  assumes "s = statics_zero \<or> s = initKeys statics_zero"
  shows "fst (getNFEmptyKey s) = s_nfemptykey" "fst (getNFDelKey s) = s_nfdelkey"
    "fst (getOIDEmptyKey s) = s_oidemptykey" "fst (getOIDDelKey s) = s_oiddelkey"
    "with_keys s = initKeys statics_zero"
  using assms
  by (auto simp: getNFEmptyKey_def getNFDelKey_def getOIDEmptyKey_def getOIDDelKey_def with_keys_def initKeys_def
      statics_zero_def NFKey_zero_def s_nfemptykey_def s_nfdelkey_def s_oidemptykey_def s_oiddelkey_def)

section \<open>What a hash table needs\<close>

text \<open>The search of a table for a key with the test of the table.\<close>

fun table_find :: "('k \<Rightarrow> 'k \<Rightarrow> bool) \<Rightarrow> 'k \<Rightarrow> ('k \<times> 'v) list \<Rightarrow> 'v option" where
  "table_find eq k [] = None"
| "table_find eq k ((k1, v) # t) = (if eq k1 k then Some v else table_find eq k t)"

locale hash_key =
  fixes ok :: "'k \<Rightarrow> bool" and eq :: "'k \<Rightarrow> 'k \<Rightarrow> bool" and bytes :: "'k \<Rightarrow> 8 word list"
  assumes eq_iff: "eq k1 k2 \<longleftrightarrow> k1 = k2" and bytes_inj: "ok k1 \<Longrightarrow> ok k2 \<Longrightarrow> bytes k1 = bytes k2 \<Longrightarrow> k1 = k2"
begin

lemma find_map: "table_find eq k t = map_of t k"
  by (induction t) (auto simp: eq_iff)

lemma eq_bytes: "ok k1 \<Longrightarrow> ok k2 \<Longrightarrow> eq k1 k2 \<longleftrightarrow> bytes k1 = bytes k2"
  using bytes_inj by (auto simp: eq_iff)

lemma eq_hash: "eq k1 k2 \<Longrightarrow> h (bytes k1) = h (bytes k2)"
  by (simp add: eq_iff)

end

lemma length_le_bytes [simp]: "length (le_bytes n w) = n"
  by (simp add: le_bytes_def)

lemma le_bytes_inj:
  fixes v w :: "'a::len word"
  assumes "le_bytes n v = le_bytes n w" and "LENGTH('a) = 8 * n"
  shows "v = w"
proof (rule bit_word_eqI)
  fix j assume j: "j < LENGTH('a)"
  then have "j div 8 < n" using assms(2) by auto
  then have "(ucast (drop_bit (8 * (j div 8)) v) :: 8 word) = ucast (drop_bit (8 * (j div 8)) w)"
    using arg_cong [OF assms(1), of "\<lambda>l. l ! (j div 8)"] by (simp add: le_bytes_def)
  then have "bit (ucast (drop_bit (8 * (j div 8)) v) :: 8 word) (j mod 8) = bit (ucast (drop_bit (8 * (j div 8)) w) :: 8 word) (j mod 8)"
    by simp
  then show "bit v j = bit w j" by (simp add: bit_simps)
qed

lemma OID_eqI: "hpid a = hpid b \<Longrightarrow> createTS a = createTS b \<Longrightarrow> a = (b :: OID)"
  by simp

definition int64 :: "int \<Rightarrow> bool" where
  "int64 n = (- (2 ^ 63) \<le> n \<and> n < 2 ^ 63)"

lemma int64_inj:
  assumes "int64 a" and "int64 b" and "(word_of_int a :: 64 word) = word_of_int b"
  shows "a = b"
proof -
  have "sint (word_of_int a :: 64 word) = a" "sint (word_of_int b :: 64 word) = b"
    using assms(1,2) by (simp_all add: int64_def int_word_sint)
  with assms(3) show ?thesis by metis
qed

interpretation oids: hash_key "\<lambda>k. int64 (hpid k) \<and> int64 (createTS k)" eqoid oid_bytes
proof
  show "eqoid k1 k2 \<longleftrightarrow> k1 = k2" for k1 k2 by (auto simp: eqoid_def)
  fix k1 k2
  assume ok: "int64 (hpid k1) \<and> int64 (createTS k1)" "int64 (hpid k2) \<and> int64 (createTS k2)" and b: "oid_bytes k1 = oid_bytes k2"
  then have "le_bytes 8 (word_of_int (hpid k1) :: 64 word) = le_bytes 8 (word_of_int (hpid k2) :: 64 word)"
    "le_bytes 8 (word_of_int (createTS k1) :: 64 word) = le_bytes 8 (word_of_int (createTS k2) :: 64 word)"
    by (simp_all add: oid_bytes_def)
  from this [THEN le_bytes_inj] show "k1 = k2" using ok by (intro OID_eqI int64_inj) simp_all
qed

interpretation nfkeys: hash_key "\<lambda>k. True" eqnfkey nfkey_bytes
proof
  show "eqnfkey k1 k2 \<longleftrightarrow> k1 = k2" for k1 k2 by (auto simp: eqnfkey_def)
  fix k1 k2 assume "nfkey_bytes k1 = nfkey_bytes k2"
  then have "le_bytes 8 (k_tid k1) = le_bytes 8 (k_tid k2)" "le_bytes 4 (k_ip1 k1) = le_bytes 4 (k_ip1 k2)"
    "le_bytes 2 (k_port1 k1) = le_bytes 2 (k_port1 k2)" "le_bytes 4 (k_ip2 k1) = le_bytes 4 (k_ip2 k2)"
    "le_bytes 2 (k_port2 k1) = le_bytes 2 (k_port2 k2)" "le_bytes 4 (k_fd k1) = le_bytes 4 (k_fd k2)"
    by (simp_all add: nfkey_bytes_def)
  from this [THEN le_bytes_inj] show "k1 = k2" by simp
qed

interpretation strings: hash_key "\<lambda>k. True" eqstr str_bytes
proof
  show "eqstr k1 k2 \<longleftrightarrow> k1 = k2" for k1 k2 by (simp add: eqstr_def)
  have "inj (\<lambda>c. word_of_nat (of_char c) :: 8 word)"
  proof (rule injI)
    fix c d assume "(word_of_nat (of_char c) :: 8 word) = word_of_nat (of_char d)"
    then have "unat (word_of_nat (of_char c) :: 8 word) = unat (word_of_nat (of_char d) :: 8 word)" by simp
    then have "(of_char c :: nat) = of_char d"
      using nat_of_char_less_256 [of c] nat_of_char_less_256 [of d] by (simp add: unat_of_nat)
    then show "c = d" by simp
  qed
  then show "str_bytes k1 = str_bytes k2 \<Longrightarrow> k1 = k2" for k1 k2 by (simp add: str_bytes_def inj_map_eq_map)
qed

text \<open>C38: For the keys of the processes and of the network flows, the test of the table, the equality of the bytes
  that are hashed and the equality of the keys are the same; a search with the test finds what the
  map of the model has; and the keys of the empty and the deleted buckets differ.\<close>

theorem table_keys_coherent:
  assumes "int64 (hpid o1)" "int64 (createTS o1)" "int64 (hpid o2)" "int64 (createTS o2)"
  shows "(eqoid o1 o2 \<longleftrightarrow> oid_bytes o1 = oid_bytes o2) \<and> (eqnfkey n1 n2 \<longleftrightarrow> nfkey_bytes n1 = nfkey_bytes n2) \<and>
    (eqoid o1 o2 \<longrightarrow> XXHasher_OID xxh o1 = XXHasher_OID xxh o2) \<and>
    (eqnfkey n1 n2 \<longrightarrow> XXHasher_NFKey xxh n1 = XXHasher_NFKey xxh n2) \<and>
    table_find eqoid o1 procs = map_of procs o1 \<and> table_find eqnfkey n1 flows = map_of flows n1 \<and>
    \<not> eqoid s_oidemptykey s_oiddelkey \<and> \<not> eqnfkey s_nfemptykey s_nfdelkey"
proof (intro conjI impI)
  show "eqoid o1 o2 \<longleftrightarrow> oid_bytes o1 = oid_bytes o2" using oids.eq_bytes assms by simp
  show "eqnfkey n1 n2 \<longleftrightarrow> nfkey_bytes n1 = nfkey_bytes n2" using nfkeys.eq_bytes by simp
  show "eqoid o1 o2 \<Longrightarrow> XXHasher_OID xxh o1 = XXHasher_OID xxh o2"
    unfolding XXHasher_OID_def by (rule oids.eq_hash)
  show "eqnfkey n1 n2 \<Longrightarrow> XXHasher_NFKey xxh n1 = XXHasher_NFKey xxh n2"
    unfolding XXHasher_NFKey_def by (rule nfkeys.eq_hash)
  show "table_find eqoid o1 procs = map_of procs o1" "table_find eqnfkey n1 flows = map_of flows n1"
    by (rule oids.find_map nfkeys.find_map)+
  show "\<not> eqoid s_oidemptykey s_oiddelkey" "\<not> eqnfkey s_nfemptykey s_nfdelkey"
    by (simp_all add: eqoid_def eqnfkey_def s_oidemptykey_def s_oiddelkey_def s_nfemptykey_def s_nfdelkey_def)
qed

theorem table_keys_coherent_witness:
  "oid_bytes \<lparr>hpid = 7, createTS = 8\<rparr> \<noteq> oid_bytes \<lparr>hpid = 7, createTS = 9\<rparr> \<and> length (nfkey_bytes s_nfdelkey) = 32"
proof
  have "int64 7" "int64 8" "int64 9" by (simp_all add: int64_def)
  then show "oid_bytes \<lparr>hpid = 7, createTS = 8\<rparr> \<noteq> oid_bytes \<lparr>hpid = 7, createTS = 9\<rparr>"
    using conjunct1 [OF table_keys_coherent [of "\<lparr>hpid = 7, createTS = 8\<rparr>" "\<lparr>hpid = 7, createTS = 9\<rparr>"]] by (simp add: eqoid_def)
  show "length (nfkey_bytes s_nfdelkey) = 32" by (simp add: nfkey_bytes_def)
qed

end
