(* ===== verification/Murmur.thy ===== *)
theory Murmur
  imports Prelude
begin

unbundle bit_operations_syntax

text \<open>
  MurmurHash3, the hash function of the tables (\<open>MurmurHash3.cpp\<close>). A key is its list of bytes, so its
  length is the \<open>len\<close> of the source; words are read as on a little-endian machine.
\<close>

section \<open>The functions\<close>

type_synonym bytes = "8 word list"

definition rotl32 :: "32 word \<Rightarrow> nat \<Rightarrow> 32 word" where
  "rotl32 x r = push_bit r x OR drop_bit (32 - r) x"

definition rotl64 :: "64 word \<Rightarrow> nat \<Rightarrow> 64 word" where
  "rotl64 x r = push_bit r x OR drop_bit (64 - r) x"

text \<open>
  The bytes from an offset on, put into a word from the highest to the lowest: the value of a
  little-endian read, and the effect of the cases of a \<open>switch\<close> on the rest of the key that fall
  through, \<open>case lo + i + 1: k ^= tail[lo + i] << 8 * i\<close> for \<open>i\<close> below \<open>m\<close>.
\<close>

fun xor_bytes :: "bytes \<Rightarrow> nat \<Rightarrow> nat \<Rightarrow> 'a::len word \<Rightarrow> 'a word" where
  "xor_bytes p lo 0 k = k"
| "xor_bytes p lo (Suc i) k = xor_bytes p lo i (k XOR push_bit (8 * i) (ucast (p ! (lo + i))))"

definition getblock32 :: "bytes \<Rightarrow> nat \<Rightarrow> 32 word" where
  "getblock32 p i = xor_bytes p (4 * i) 4 0"

definition getblock64 :: "bytes \<Rightarrow> nat \<Rightarrow> 64 word" where
  "getblock64 p i = xor_bytes p (8 * i) 8 0"

definition fmix32 :: "32 word \<Rightarrow> 32 word" where
  "fmix32 h =
     (let h = h XOR drop_bit 16 h;
          h = h * 0x85ebca6b;
          h = h XOR drop_bit 13 h;
          h = h * 0xc2b2ae35;
          h = h XOR drop_bit 16 h
      in h)"

definition fmix64 :: "64 word \<Rightarrow> 64 word" where
  "fmix64 k =
     (let k = k XOR drop_bit 33 k;
          k = k * 0xff51afd7ed558ccd;
          k = k XOR drop_bit 33 k;
          k = k * 0xc4ceb9fe1a85ec53;
          k = k XOR drop_bit 33 k
      in k)"

text \<open>The 32 bit hash. The loop counts \<open>i\<close> from \<open>- nblocks\<close> up to 0 and reads relative to the end of the blocks.\<close>

definition x86_32_k1 :: "32 word \<Rightarrow> 32 word" where
  "x86_32_k1 k1 = rotl32 (k1 * 0xcc9e2d51) 15 * 0x1b873593"

definition x86_32_step :: "32 word \<Rightarrow> 32 word \<Rightarrow> 32 word" where
  "x86_32_step k1 h1 = rotl32 (h1 XOR x86_32_k1 k1) 13 * 5 + 0xe6546b64"

fun x86_32_body :: "bytes \<Rightarrow> nat \<Rightarrow> nat \<Rightarrow> 32 word \<Rightarrow> 32 word" where
  "x86_32_body data nblocks 0 h1 = h1"
| "x86_32_body data nblocks (Suc i) h1 =
     x86_32_body data nblocks i (x86_32_step (getblock32 data (nblocks - Suc i)) h1)"

definition x86_32_tail :: "nat \<Rightarrow> bytes \<Rightarrow> 32 word \<Rightarrow> 32 word" where
  "x86_32_tail len tail h1 =
     (let n = len AND 3 in if 1 \<le> n then h1 XOR x86_32_k1 (xor_bytes tail 0 n 0) else h1)"

definition MurmurHash3_x86_32 :: "bytes \<Rightarrow> 32 word \<Rightarrow> 32 word" where
  "MurmurHash3_x86_32 key seed =
     (let len = length key;
          nblocks = len div 4;
          h1 = x86_32_body key nblocks nblocks seed;
          h1 = x86_32_tail len (drop (nblocks * 4) key) h1
      in fmix32 (h1 XOR of_nat len))"

text \<open>The 128 bit hash for 32 bit machines.\<close>

type_synonym quad = "32 word \<times> 32 word \<times> 32 word \<times> 32 word"

definition x86_128_k1 :: "32 word \<Rightarrow> 32 word" where
  "x86_128_k1 k1 = rotl32 (k1 * 0x239b961b) 15 * 0xab0e9789"

definition x86_128_k2 :: "32 word \<Rightarrow> 32 word" where
  "x86_128_k2 k2 = rotl32 (k2 * 0xab0e9789) 16 * 0x38b34ae5"

definition x86_128_k3 :: "32 word \<Rightarrow> 32 word" where
  "x86_128_k3 k3 = rotl32 (k3 * 0x38b34ae5) 17 * 0xa1e38b93"

definition x86_128_k4 :: "32 word \<Rightarrow> 32 word" where
  "x86_128_k4 k4 = rotl32 (k4 * 0xa1e38b93) 18 * 0x239b961b"

fun x86_128_step :: "quad \<Rightarrow> quad \<Rightarrow> quad" where
  "x86_128_step (k1, k2, k3, k4) (h1, h2, h3, h4) =
     (let h1 = (rotl32 (h1 XOR x86_128_k1 k1) 19 + h2) * 5 + 0x561ccd1b;
          h2 = (rotl32 (h2 XOR x86_128_k2 k2) 17 + h3) * 5 + 0x0bcaa747;
          h3 = (rotl32 (h3 XOR x86_128_k3 k3) 15 + h4) * 5 + 0x96cd1c35;
          h4 = (rotl32 (h4 XOR x86_128_k4 k4) 13 + h1) * 5 + 0x32ac3b17
      in (h1, h2, h3, h4))"

definition block_x86_128 :: "bytes \<Rightarrow> nat \<Rightarrow> quad" where
  "block_x86_128 p i =
     (getblock32 p (i * 4), getblock32 p (i * 4 + 1), getblock32 p (i * 4 + 2), getblock32 p (i * 4 + 3))"

fun x86_128_body :: "bytes \<Rightarrow> nat \<Rightarrow> nat \<Rightarrow> quad \<Rightarrow> quad" where
  "x86_128_body data nblocks 0 h = h"
| "x86_128_body data nblocks (Suc i) h =
     x86_128_body data nblocks i (x86_128_step (block_x86_128 data (nblocks - Suc i)) h)"

fun x86_128_tail :: "nat \<Rightarrow> bytes \<Rightarrow> quad \<Rightarrow> quad" where
  "x86_128_tail len tail (h1, h2, h3, h4) =
     (let n = len AND 15;
          h4 = (if 13 \<le> n then h4 XOR x86_128_k4 (xor_bytes tail 12 (n - 12) 0) else h4);
          h3 = (if 9 \<le> n then h3 XOR x86_128_k3 (xor_bytes tail 8 (min 12 n - 8) 0) else h3);
          h2 = (if 5 \<le> n then h2 XOR x86_128_k2 (xor_bytes tail 4 (min 8 n - 4) 0) else h2);
          h1 = (if 1 \<le> n then h1 XOR x86_128_k1 (xor_bytes tail 0 (min 4 n) 0) else h1)
      in (h1, h2, h3, h4))"

fun x86_128_sums :: "quad \<Rightarrow> quad" where
  "x86_128_sums (h1, h2, h3, h4) = (let h1 = h1 + h2 + h3 + h4 in (h1, h2 + h1, h3 + h1, h4 + h1))"

fun x86_128_final :: "nat \<Rightarrow> quad \<Rightarrow> quad" where
  "x86_128_final len (h1, h2, h3, h4) =
     (case x86_128_sums (h1 XOR of_nat len, h2 XOR of_nat len, h3 XOR of_nat len, h4 XOR of_nat len) of
        (h1, h2, h3, h4) \<Rightarrow> x86_128_sums (fmix32 h1, fmix32 h2, fmix32 h3, fmix32 h4))"

definition MurmurHash3_x86_128 :: "bytes \<Rightarrow> 32 word \<Rightarrow> quad" where
  "MurmurHash3_x86_128 key seed =
     (let len = length key;
          nblocks = len div 16;
          h = x86_128_body key nblocks nblocks (seed, seed, seed, seed);
          h = x86_128_tail len (drop (nblocks * 16) key) h
      in x86_128_final len h)"

text \<open>The 128 bit hash for 64 bit machines; its loop counts up from 0.\<close>

type_synonym duo = "64 word \<times> 64 word"

definition x64_128_k1 :: "64 word \<Rightarrow> 64 word" where
  "x64_128_k1 k1 = rotl64 (k1 * 0x87c37b91114253d5) 31 * 0x4cf5ad432745937f"

definition x64_128_k2 :: "64 word \<Rightarrow> 64 word" where
  "x64_128_k2 k2 = rotl64 (k2 * 0x4cf5ad432745937f) 33 * 0x87c37b91114253d5"

fun x64_128_step :: "duo \<Rightarrow> duo \<Rightarrow> duo" where
  "x64_128_step (k1, k2) (h1, h2) =
     (let h1 = (rotl64 (h1 XOR x64_128_k1 k1) 27 + h2) * 5 + 0x52dce729;
          h2 = (rotl64 (h2 XOR x64_128_k2 k2) 31 + h1) * 5 + 0x38495ab5
      in (h1, h2))"

definition block_x64_128 :: "bytes \<Rightarrow> nat \<Rightarrow> duo" where
  "block_x64_128 p i = (getblock64 p (i * 2), getblock64 p (i * 2 + 1))"

function x64_128_body :: "bytes \<Rightarrow> nat \<Rightarrow> nat \<Rightarrow> duo \<Rightarrow> duo" where
  "x64_128_body data nblocks i h =
     (if i < nblocks then x64_128_body data nblocks (i + 1) (x64_128_step (block_x64_128 data i) h) else h)"
  by pat_completeness auto
termination by (relation "measure (\<lambda>(data, nblocks, i, h). nblocks - i)") auto
declare x64_128_body.simps [simp del]

fun x64_128_tail :: "nat \<Rightarrow> bytes \<Rightarrow> duo \<Rightarrow> duo" where
  "x64_128_tail len tail (h1, h2) =
     (let n = len AND 15;
          h2 = (if 9 \<le> n then h2 XOR x64_128_k2 (xor_bytes tail 8 (n - 8) 0) else h2);
          h1 = (if 1 \<le> n then h1 XOR x64_128_k1 (xor_bytes tail 0 (min 8 n) 0) else h1)
      in (h1, h2))"

fun x64_128_sums :: "duo \<Rightarrow> duo" where
  "x64_128_sums (h1, h2) = (let h1 = h1 + h2 in (h1, h2 + h1))"

fun x64_128_final :: "nat \<Rightarrow> duo \<Rightarrow> duo" where
  "x64_128_final len (h1, h2) =
     (case x64_128_sums (h1 XOR of_nat len, h2 XOR of_nat len) of
        (h1, h2) \<Rightarrow> x64_128_sums (fmix64 h1, fmix64 h2))"

definition MurmurHash3_x64_128 :: "bytes \<Rightarrow> 32 word \<Rightarrow> duo" where
  "MurmurHash3_x64_128 key seed =
     (let len = length key;
          nblocks = len div 16;
          h = x64_128_body key nblocks 0 (ucast seed, ucast seed);
          h = x64_128_tail len (drop (nblocks * 16) key) h
      in x64_128_final len h)"

section \<open>Words\<close>

text \<open>The operations the hash is made of lose nothing.\<close>

lemma xor_right_inj [simp]: "x XOR k = y XOR k \<longleftrightarrow> x = (y :: 'a::len word)"
  by (metis xor.assoc xor_self_eq xor.right_neutral)

lemma xor_left_inj [simp]: "k XOR x = k XOR y \<longleftrightarrow> x = (y :: 'a::len word)"
  by (simp add: xor.commute [of k])

lemma mult_unit_inj: "c * d = 1 \<Longrightarrow> x * c = y * c \<longleftrightarrow> x = (y :: 'a::len word)"
  by (metis mult.assoc mult.right_neutral)

lemma rotl_word_rotl:
  fixes x :: "'a::len word"
  assumes "0 < r" and "r < LENGTH('a)"
  shows "push_bit r x OR drop_bit (LENGTH('a) - r) x = word_rotl r x"
proof (rule bit_word_eqI)
  fix n assume n: "n < LENGTH('a)"
  have "(n + (LENGTH('a) - r mod LENGTH('a))) mod LENGTH('a) = (if n < r then LENGTH('a) - r + n else n - r)"
  proof (cases "n < r")
    case False
    then have "n + (LENGTH('a) - r) = (n - r) + LENGTH('a)" using assms(2) by simp
    moreover have "((n - r) + LENGTH('a)) mod LENGTH('a) = n - r" using n by simp
    ultimately show ?thesis using False assms(2) by (metis mod_less)
  qed (use assms n in simp)
  then show "bit (push_bit r x OR drop_bit (LENGTH('a) - r) x) n = bit (word_rotl r x) n"
    using n assms bit_imp_le_length [of x "LENGTH('a) - r + n"]
    by (auto simp: bit_or_iff bit_push_bit_iff bit_drop_bit_eq bit_word_rotl_iff)
qed

lemma rotl32_word_rotl: "0 < r \<Longrightarrow> r < 32 \<Longrightarrow> rotl32 x r = word_rotl r x"
  using rotl_word_rotl [of r x] by (simp add: rotl32_def)

lemma rotl64_word_rotl: "0 < r \<Longrightarrow> r < 64 \<Longrightarrow> rotl64 x r = word_rotl r x"
  using rotl_word_rotl [of r x] by (simp add: rotl64_def)

lemma word_rotl_inj: "word_rotl r x = word_rotl r y \<longleftrightarrow> x = (y :: 'a::len word)"
  by (metis word_rot_lr)

lemma rotl32_inj: "0 < r \<Longrightarrow> r < 32 \<Longrightarrow> rotl32 x r = rotl32 y r \<longleftrightarrow> x = y"
  by (simp add: rotl32_word_rotl word_rotl_inj)

lemma rotl64_inj: "0 < r \<Longrightarrow> r < 64 \<Longrightarrow> rotl64 x r = rotl64 y r \<longleftrightarrow> x = y"
  by (simp add: rotl64_word_rotl word_rotl_inj)

lemma bit_xor_bytes:
  assumes "8 * m \<le> LENGTH('a)" and "j < LENGTH('a)"
  shows "bit (xor_bytes p lo m k :: 'a::len word) j \<longleftrightarrow>
    bit k j \<noteq> (j div 8 < m \<and> bit (p ! (lo + j div 8)) (j mod 8))"
  using assms
proof (induction m arbitrary: k)
  case (Suc i)
  have d: "j div 8 = i \<longleftrightarrow> 8 * i \<le> j \<and> j < 8 * i + 8" by auto
  have m: "j div 8 = i \<Longrightarrow> j mod 8 = j - 8 * i" by (metis minus_mult_div_eq_mod)
  have "bit (push_bit (8 * i) (ucast (p ! (lo + i))) :: 'a word) j \<longleftrightarrow> j div 8 = i \<and> bit (p ! (lo + i)) (j mod 8)"
    using Suc.prems bit_imp_le_length [of "p ! (lo + i)" "j - 8 * i"] m
    by (auto simp: bit_push_bit_iff bit_ucast_iff d)
  then show ?case using Suc by (auto simp: bit_simps less_Suc_eq)
qed simp

text \<open>A word made of bytes determines them.\<close>

lemma xor_bytes_inj:
  assumes "8 * m \<le> LENGTH('a)" and "(xor_bytes p lo m 0 :: 'a::len word) = xor_bytes q lo m 0" and "i < m"
  shows "p ! (lo + i) = q ! (lo + i)"
proof (rule bit_word_eqI)
  fix n assume n: "n < LENGTH(8)"
  with assms have j: "8 * i + n < LENGTH('a)" by simp
  have "bit (xor_bytes p lo m 0 :: 'a word) (8 * i + n) = bit (xor_bytes q lo m 0 :: 'a word) (8 * i + n)"
    by (simp add: assms(2))
  then show "bit (p ! (lo + i)) n = bit (q ! (lo + i)) n"
    using assms(3) n by (simp add: bit_xor_bytes [OF assms(1) j])
qed

lemma xor_bytes_cong: "(\<And>i. i < m \<Longrightarrow> p ! (lo + i) = q ! (lo + i)) \<Longrightarrow> xor_bytes p lo m k = xor_bytes q lo m k"
  by (induction m arbitrary: k) auto

text \<open>A word is recovered from its exclusive or with itself shifted down.\<close>

lemma xorshift_inj:
  fixes x y :: "'a::len word"
  assumes "x XOR drop_bit n x = y XOR drop_bit n y" and "0 < n"
  shows "x = y"
proof -
  have "bit x j = bit y j" for j
  proof (induction "LENGTH('a) - j" arbitrary: j rule: less_induct)
    case less
    have "bit (x XOR drop_bit n x) j = bit (y XOR drop_bit n y) j" using assms(1) by simp
    then have e: "(bit x j \<noteq> bit x (n + j)) = (bit y j \<noteq> bit y (n + j))"
      by (simp add: bit_xor_iff bit_drop_bit_eq)
    show ?case
    proof (cases "j < LENGTH('a)")
      case True
      have "bit x (n + j) = bit y (n + j)" by (rule less) (use True assms(2) in simp)
      with e show ?thesis by blast
    qed (auto dest: bit_imp_le_length)
  qed
  then show ?thesis by (intro bit_eqI) simp
qed

lemma xorshift_iff: "0 < n \<Longrightarrow> x XOR drop_bit n x = y XOR drop_bit n y \<longleftrightarrow> x = (y :: 'a::len word)"
  by (auto dest: xorshift_inj)

text \<open>The inverses of the odd multipliers.\<close>

lemma units32:
  "0x85ebca6b * 0xa5cb9243 = (1 :: 32 word)" "0xc2b2ae35 * 0x7ed1b41d = (1 :: 32 word)"
  "0xcc9e2d51 * 0xdee13bb1 = (1 :: 32 word)" "0x1b873593 * 0x56ed309b = (1 :: 32 word)"
  "0x239b961b * 0x89c95413 = (1 :: 32 word)" "0xab0e9789 * 0xdf130eb9 = (1 :: 32 word)"
  "0x38b34ae5 * 0x747862ed = (1 :: 32 word)" "0xa1e38b93 * 0x58d64a9b = (1 :: 32 word)"
  "5 * 0xcccccccd = (1 :: 32 word)"
  by simp_all

lemma units64:
  "0xff51afd7ed558ccd * 0x4f74430c22a54005 = (1 :: 64 word)" "0xc4ceb9fe1a85ec53 * 0x9cb4b2f8129337db = (1 :: 64 word)"
  "0x87c37b91114253d5 * 0xa98409e882ce4d7d = (1 :: 64 word)" "0x4cf5ad432745937f * 0xa81e14edd9de2c7f = (1 :: 64 word)"
  "5 * 0xcccccccccccccccd = (1 :: 64 word)"
  by simp_all

lemmas mult_inj = units32 [THEN mult_unit_inj] units64 [THEN mult_unit_inj]

lemma fmix32_inj: "fmix32 x = fmix32 y \<longleftrightarrow> x = y"
  by (simp add: fmix32_def Let_def mult_inj xorshift_iff)

lemma fmix64_inj: "fmix64 x = fmix64 y \<longleftrightarrow> x = y"
  by (simp add: fmix64_def Let_def mult_inj xorshift_iff)

lemma mix_inj:
  "x86_32_k1 x = x86_32_k1 y \<longleftrightarrow> x = y"
  "x86_128_k1 x = x86_128_k1 y \<longleftrightarrow> x = y" "x86_128_k2 x = x86_128_k2 y \<longleftrightarrow> x = y"
  "x86_128_k3 x = x86_128_k3 y \<longleftrightarrow> x = y" "x86_128_k4 x = x86_128_k4 y \<longleftrightarrow> x = y"
  "x64_128_k1 v = x64_128_k1 w \<longleftrightarrow> v = w" "x64_128_k2 v = x64_128_k2 w \<longleftrightarrow> v = w"
  by (simp_all add: x86_32_k1_def x86_128_k1_def x86_128_k2_def x86_128_k3_def x86_128_k4_def x64_128_k1_def
      x64_128_k2_def mult_inj rotl32_inj rotl64_inj)

section \<open>Hashes over blocks\<close>

text \<open>
  The three functions have one shape: a state is stirred with each block, then with the rest of the
  key, then finished. Where no step loses information, keys that differ in one block only have
  different hashes.
\<close>

locale block_hash =
  fixes step :: "'b \<Rightarrow> 's \<Rightarrow> 's"
    and block :: "bytes \<Rightarrow> nat \<Rightarrow> 'b"
    and width :: nat
    and rest :: "nat \<Rightarrow> bytes \<Rightarrow> 's \<Rightarrow> 's"
    and final :: "nat \<Rightarrow> 's \<Rightarrow> 'r"
    and hash :: "bytes \<Rightarrow> 's \<Rightarrow> 'r"
  assumes width: "0 < width"
    and step_state: "step k s = step k t \<Longrightarrow> s = t"
    and step_block: "step k s = step l s \<Longrightarrow> k = l"
    and block_eq: "block p i = block q i \<longleftrightarrow> (\<forall>j < width. p ! (width * i + j) = q ! (width * i + j))"
    and rest_state: "rest n b s = rest n b t \<Longrightarrow> s = t"
    and rest_bytes: "length b = n mod width \<Longrightarrow> length c = n mod width \<Longrightarrow> rest n b s = rest n c s \<Longrightarrow> b = c"
    and final_inj: "final n s = final n t \<Longrightarrow> s = t"
    and hash_eq: "hash key s = final (length key) (rest (length key) (drop (length key div width * width) key)
      (fold (\<lambda>i. step (block key i)) [0..<length key div width] s))"
begin

lemma fold_state: "fold (\<lambda>i. step (block p i)) is s = fold (\<lambda>i. step (block p i)) is t \<Longrightarrow> s = t"
  by (induction "is" arbitrary: s t) (auto dest: step_state)

lemma fold_one:
  assumes "i < n" and "\<And>j. j < n \<Longrightarrow> j \<noteq> i \<Longrightarrow> block p j = block q j"
    and "fold (\<lambda>i. step (block p i)) [0..<n] s = fold (\<lambda>i. step (block q i)) [0..<n] s"
  shows "block p i = block q i"
proof -
  have n: "[0..<n] = [0..<i] @ i # [Suc i..<n]"
    using assms(1) upt_add_eq_append [of 0 i "n - i"] by (simp add: upt_conv_Cons)
  define a where "a = fold (\<lambda>i. step (block p i)) [0..<i] s"
  have "fold (\<lambda>i. step (block q i)) [0..<i] s = a"
    unfolding a_def using assms(1,2) by (intro fold_cong) auto
  moreover have "fold (\<lambda>i. step (block q i)) [Suc i..<n] x = fold (\<lambda>i. step (block p i)) [Suc i..<n] x" for x
    using assms(2) by (intro fold_cong) auto
  ultimately have "step (block p i) a = step (block q i) a"
    using assms(3) fold_state by (auto simp: n a_def)
  then show ?thesis by (rule step_block)
qed

theorem one_block:
  assumes len: "length p = length q"
    and same: "\<And>j. j < length p \<Longrightarrow> j div width \<noteq> i \<Longrightarrow> p ! j = q ! j"
    and eq: "hash p s = hash q s"
  shows "p = q"
proof -
  define n where "n = length p div width"
  have n: "n * width \<le> length p" "length p - n * width = length p mod width" "length p - n * width < width"
    using width by (simp_all add: n_def minus_div_mult_eq_mod)
  have other: "block p j = block q j" if "j < n" "j \<noteq> i" for j
    unfolding block_eq
  proof (intro allI impI)
    fix k assume "k < width"
    have "width * j + k < width * Suc j" using \<open>k < width\<close> by simp
    also have "\<dots> \<le> n * width" using that(1) by (metis Suc_leI mult.commute mult_le_mono2)
    finally show "p ! (width * j + k) = q ! (width * j + k)"
      using \<open>k < width\<close> that(2) n(1) by (intro same) simp_all
  qed
  have f: "rest (length p) (drop (n * width) p) (fold (\<lambda>i. step (block p i)) [0..<n] s) =
      rest (length p) (drop (n * width) q) (fold (\<lambda>i. step (block q i)) [0..<n] s)"
    using final_inj eq by (simp add: hash_eq len n_def)
  have sd: "j < length p \<Longrightarrow> n * width \<le> j \<Longrightarrow> j div width = n" for j
    using width div_le_mono [of j "length p" width] by (simp add: n_def less_eq_div_iff_mult_less_eq le_antisym)
  show ?thesis
  proof (cases "i < n")
    case True
    have "drop (n * width) p = drop (n * width) q"
      using True len sd by (intro nth_equalityI) (auto intro!: same)
    then have "fold (\<lambda>i. step (block p i)) [0..<n] s = fold (\<lambda>i. step (block q i)) [0..<n] s"
      using f rest_state by simp
    then have "block p i = block q i" using fold_one [of i n p q s] True other by blast
    then have b: "\<forall>k < width. p ! (width * i + k) = q ! (width * i + k)" by (simp add: block_eq)
    show ?thesis
    proof (rule nth_equalityI [OF len])
      fix j assume j: "j < length p"
      show "p ! j = q ! j"
      proof (cases "j div width = i")
        case True
        then show ?thesis using b width mod_less_divisor [OF width, of j] by (metis mult_div_mod_eq)
      qed (rule same [OF j])
    qed
  next
    case False
    have "fold (\<lambda>i. step (block p i)) [0..<n] s = fold (\<lambda>i. step (block q i)) [0..<n] s"
      using False other by (intro fold_cong) auto
    then have "drop (n * width) p = drop (n * width) q"
      using f n(2) len by (intro rest_bytes [of _ "length p"]) auto
    moreover have "take (n * width) p = take (n * width) q"
    proof (rule nth_equalityI)
      fix j assume "j < length (take (n * width) p)"
      then have j: "j < length p" "j < n * width" by auto
      then have "j div width \<noteq> i" using False width by (auto simp: div_less_iff_less_mult)
      then show "take (n * width) p ! j = take (n * width) q ! j" using j same by simp
    qed (simp add: len)
    ultimately show ?thesis by (metis append_take_drop_id)
  qed
qed

end

text \<open>A block is the bytes of its words.\<close>

lemma all_split: "0 < w \<Longrightarrow> (\<forall>j < m * w. P j) \<longleftrightarrow> (\<forall>k < m. \<forall>j < w. P (w * k + j))" for w m :: nat
proof
  assume w: "0 < w" and all: "\<forall>k < m. \<forall>j < w. P (w * k + j)"
  show "\<forall>j < m * w. P j"
  proof (intro allI impI)
    fix j assume "j < m * w"
    then show "P j" using all [rule_format, of "j div w" "j mod w"] w by (simp add: div_less_iff_less_mult)
  qed
next
  assume all: "\<forall>j < m * w. P j"
  have "w * k + j < m * w" if "k < m" "j < w" for k j
  proof -
    have "w * k + j < w * Suc k" using that(2) by simp
    also have "\<dots> \<le> m * w" using that(1) by (metis Suc_leI mult.commute mult_le_mono2)
    finally show ?thesis .
  qed
  then show "\<forall>k < m. \<forall>j < w. P (w * k + j)" using all by blast
qed

lemma all_2: "(\<forall>k < 2. P k) \<longleftrightarrow> P 0 \<and> P (1 :: nat)"
  by (auto simp: numeral_eq_Suc less_Suc_eq)

lemma all_4: "(\<forall>k < 4. P k) \<longleftrightarrow> P 0 \<and> P 1 \<and> P 2 \<and> P (3 :: nat)"
  by (auto simp: numeral_eq_Suc less_Suc_eq)

text \<open>The masks of the rest are remainders, and the loops are folds over the blocks.\<close>

lemma and_3_15: "n AND 3 = n mod (4 :: nat)" "n AND 15 = n mod (16 :: nat)"
proof -
  have "(mask 2 :: nat) = 3" "(mask 4 :: nat) = 15" by (simp_all add: mask_eq_exp_minus_1)
  then show "n AND 3 = n mod 4" "n AND 15 = n mod 16"
    using take_bit_eq_mask [of 2 n] take_bit_eq_mask [of 4 n] by (simp_all add: take_bit_eq_mod)
qed

lemma x86_32_body_fold:
  "m \<le> n \<Longrightarrow> x86_32_body p n m h = fold (\<lambda>i. x86_32_step (getblock32 p i)) [n - m..<n] h"
  by (induction m arbitrary: h) (simp_all add: Suc_diff_Suc upt_conv_Cons)

lemma x86_128_body_fold:
  "m \<le> n \<Longrightarrow> x86_128_body p n m h = fold (\<lambda>i. x86_128_step (block_x86_128 p i)) [n - m..<n] h"
  by (induction m arbitrary: h) (simp_all add: Suc_diff_Suc upt_conv_Cons)

lemma x64_128_body_fold: "x64_128_body p n m h = fold (\<lambda>i. x64_128_step (block_x64_128 p i)) [m..<n] h"
  by (induction p n m h rule: x64_128_body.induct) (subst x64_128_body.simps, simp add: upt_conv_Cons)

lemma words_eq32: "getblock32 p i = getblock32 q i \<longleftrightarrow> (\<forall>j < 4. p ! (4 * i + j) = q ! (4 * i + j))"
  by (auto simp: getblock32_def intro: xor_bytes_cong dest: xor_bytes_inj [rotated])

lemma words_eq64: "getblock64 p i = getblock64 q i \<longleftrightarrow> (\<forall>j < 8. p ! (8 * i + j) = q ! (8 * i + j))"
  by (auto simp: getblock64_def intro: xor_bytes_cong dest: xor_bytes_inj [rotated])

lemma xor_bytes_at:
  assumes "(xor_bytes p lo m 0 :: 'a::len word) = xor_bytes q lo m 0" and "8 * m \<le> LENGTH('a)" and "lo \<le> j" and "j < lo + m"
  shows "p ! j = q ! j"
  using xor_bytes_inj [OF assms(2,1), of "j - lo"] assms(3,4) by simp

interpretation h32: block_hash x86_32_step getblock32 4 x86_32_tail "\<lambda>n h. fmix32 (h XOR of_nat n)" MurmurHash3_x86_32
proof unfold_locales
  fix n s and b c :: bytes
  assume len: "length b = n mod 4" "length c = n mod 4" and eq: "x86_32_tail n b s = x86_32_tail n c s"
  show "b = c"
  proof (rule nth_equalityI)
    fix j assume "j < length b"
    then show "b ! j = c ! j"
      using eq len by (intro xor_bytes_at [where 'a = 32 and lo = 0 and m = "n mod 4"])
        (auto simp: x86_32_tail_def and_3_15 mix_inj split: if_splits)
  qed (simp add: len)
next
  fix n b s t
  show "s = t" if "x86_32_tail n b s = x86_32_tail n b t"
    using that by (simp add: x86_32_tail_def Let_def split: if_splits)
qed (simp_all add: x86_32_step_def mult_inj rotl32_inj mix_inj words_eq32 fmix32_inj
      MurmurHash3_x86_32_def Let_def x86_32_body_fold)

lemma x86_128_sums_inj: "x86_128_sums x = x86_128_sums y \<longleftrightarrow> x = y"
proof
  assume eq: "x86_128_sums x = x86_128_sums y"
  obtain a b c d where x: "x = (a, b, c, d)" by (cases x)
  obtain p q r s where y: "y = (p, q, r, s)" by (cases y)
  have sum: "a + b + c + d = p + q + r + s" using eq by (simp only: x y x86_128_sums.simps Let_def prod.inject)
  then have "b = q \<and> c = r \<and> d = s" using eq by (simp only: x y x86_128_sums.simps Let_def prod.inject add_right_cancel)
  with sum show "x = y" by (simp add: x y)
qed simp

lemma x64_128_sums_inj: "x64_128_sums x = x64_128_sums y \<longleftrightarrow> x = y"
proof -
  have "a = c \<and> b = d" if "a + b = c + d" "b + (a + b) = d + (c + d)" for a b c d :: "64 word"
    using that by (metis add_right_cancel)
  then show ?thesis by (cases x; cases y) (metis Pair_inject x64_128_sums.simps)
qed

lemma x86_128_final_inj: "x86_128_final n x = x86_128_final n y \<Longrightarrow> x = y"
  by (cases x; cases y)
    (auto simp: fmix32_inj x86_128_sums_inj simp del: x86_128_sums.simps split: prod.splits dest: x86_128_sums_inj [THEN iffD1, OF trans, OF _ sym])

lemma x64_128_final_inj: "x64_128_final n x = x64_128_final n y \<Longrightarrow> x = y"
  by (cases x; cases y)
    (auto simp: fmix64_inj x64_128_sums_inj simp del: x64_128_sums.simps split: prod.splits dest: x64_128_sums_inj [THEN iffD1, OF trans, OF _ sym])

lemma x86_128_tail_bytes:
  assumes len: "length b = n mod 16" "length c = n mod 16" and eq: "x86_128_tail n b s = x86_128_tail n c s"
  shows "b = c"
proof (rule nth_equalityI)
  fix j assume j: "j < length b"
  obtain h1 h2 h3 h4 where s: "s = (h1, h2, h3, h4)" by (cases s)
  have e: "1 \<le> n mod 16 \<Longrightarrow> (xor_bytes b 0 (min 4 (n mod 16)) 0 :: 32 word) = xor_bytes c 0 (min 4 (n mod 16)) 0"
    "5 \<le> n mod 16 \<Longrightarrow> (xor_bytes b 4 (min 8 (n mod 16) - 4) 0 :: 32 word) = xor_bytes c 4 (min 8 (n mod 16) - 4) 0"
    "9 \<le> n mod 16 \<Longrightarrow> (xor_bytes b 8 (min 12 (n mod 16) - 8) 0 :: 32 word) = xor_bytes c 8 (min 12 (n mod 16) - 8) 0"
    "13 \<le> n mod 16 \<Longrightarrow> (xor_bytes b 12 (n mod 16 - 12) 0 :: 32 word) = xor_bytes c 12 (n mod 16 - 12) 0"
    using eq by (simp_all add: s Let_def and_3_15 mix_inj)
  have n: "j < n mod 16" "n mod 16 < 16" using j len by simp_all
  consider "j < 4" | "4 \<le> j" "j < 8" | "8 \<le> j" "j < 12" | "12 \<le> j" by linarith
  then show "b ! j = c ! j"
  proof cases
    case 1 then show ?thesis using n by (intro xor_bytes_at [OF e(1)]) auto
  next
    case 2 then show ?thesis using n by (intro xor_bytes_at [OF e(2)]) auto
  next
    case 3 then show ?thesis using n by (intro xor_bytes_at [OF e(3)]) auto
  next
    case 4 then show ?thesis using n by (intro xor_bytes_at [OF e(4)]) auto
  qed
qed (simp add: len)

lemma x64_128_tail_bytes:
  assumes len: "length b = n mod 16" "length c = n mod 16" and eq: "x64_128_tail n b s = x64_128_tail n c s"
  shows "b = c"
proof (rule nth_equalityI)
  fix j assume j: "j < length b"
  obtain h1 h2 where s: "s = (h1, h2)" by (cases s)
  have e: "1 \<le> n mod 16 \<Longrightarrow> (xor_bytes b 0 (min 8 (n mod 16)) 0 :: 64 word) = xor_bytes c 0 (min 8 (n mod 16)) 0"
    "9 \<le> n mod 16 \<Longrightarrow> (xor_bytes b 8 (n mod 16 - 8) 0 :: 64 word) = xor_bytes c 8 (n mod 16 - 8) 0"
    using eq by (simp_all add: s Let_def and_3_15 mix_inj)
  have n: "j < n mod 16" "n mod 16 < 16" using j len by simp_all
  show "b ! j = c ! j"
  proof (cases "j < 8")
    case True then show ?thesis using n by (intro xor_bytes_at [OF e(1)]) auto
  next
    case False then show ?thesis using n by (intro xor_bytes_at [OF e(2)]) auto
  qed
qed (simp add: len)

interpretation h86: block_hash x86_128_step block_x86_128 16 x86_128_tail x86_128_final
    "\<lambda>key h. x86_128_final (length key) (x86_128_tail (length key) (drop (length key div 16 * 16) key)
       (x86_128_body key (length key div 16) (length key div 16) h))"
proof unfold_locales
  fix k s t
  show "s = t" if "x86_128_step k s = x86_128_step k t"
    using that by (cases k; cases s; cases t) (auto simp: Let_def mult_inj rotl32_inj)
next
  fix k l s
  show "k = l" if "x86_128_step k s = x86_128_step l s"
    using that by (cases k; cases l; cases s) (auto simp: Let_def mult_inj rotl32_inj mix_inj)
next
  fix n b s t
  show "s = t" if "x86_128_tail n b s = x86_128_tail n b t"
    using that by (cases s; cases t) (simp add: Let_def split: if_splits)
next
  fix p q i
  show "(block_x86_128 p i = block_x86_128 q i) = (\<forall>j<16. p ! (16 * i + j) = q ! (16 * i + j))"
    using all_split [of 4 4 "\<lambda>j. p ! (16 * i + j) = q ! (16 * i + j)"]
    by (simp add: all_4 block_x86_128_def words_eq32 ac_simps)
next
  fix n s t
  show "s = t" if "x86_128_final n s = x86_128_final n t" using that by (rule x86_128_final_inj)
next
  fix n s and b c :: bytes
  show "b = c" if "length b = n mod 16" "length c = n mod 16" "x86_128_tail n b s = x86_128_tail n c s"
    using that by (rule x86_128_tail_bytes)
qed (simp_all add: x86_128_body_fold)

interpretation h64: block_hash x64_128_step block_x64_128 16 x64_128_tail x64_128_final
    "\<lambda>key h. x64_128_final (length key) (x64_128_tail (length key) (drop (length key div 16 * 16) key)
       (x64_128_body key (length key div 16) 0 h))"
proof unfold_locales
  fix k s t
  show "s = t" if "x64_128_step k s = x64_128_step k t"
    using that by (cases k; cases s; cases t) (auto simp: Let_def mult_inj rotl64_inj)
next
  fix k l s
  show "k = l" if "x64_128_step k s = x64_128_step l s"
    using that by (cases k; cases l; cases s) (auto simp: Let_def mult_inj rotl64_inj mix_inj)
next
  fix n b s t
  show "s = t" if "x64_128_tail n b s = x64_128_tail n b t"
    using that by (cases s; cases t) (simp add: Let_def split: if_splits)
next
  fix p q i
  show "(block_x64_128 p i = block_x64_128 q i) = (\<forall>j<16. p ! (16 * i + j) = q ! (16 * i + j))"
    using all_split [of 8 2 "\<lambda>j. p ! (16 * i + j) = q ! (16 * i + j)"]
    by (simp add: all_2 block_x64_128_def words_eq64 ac_simps)
next
  fix n s t
  show "s = t" if "x64_128_final n s = x64_128_final n t" using that by (rule x64_128_final_inj)
next
  fix n s and b c :: bytes
  show "b = c" if "length b = n mod 16" "length c = n mod 16" "x64_128_tail n b s = x64_128_tail n c s"
    using that by (rule x64_128_tail_bytes)
qed (simp_all add: x64_128_body_fold)

section \<open>Properties\<close>

text \<open>The two finalisers permute their words: no information of a state is lost, and every value is reached.\<close>

lemma fmix_bijective: "bij fmix32 \<and> bij fmix64"
  by (auto intro!: finite_UNIV_inj_surj bijI simp: inj_def fmix32_inj fmix64_inj)

text \<open>Two keys of the same length that differ within one aligned block of four bytes only have different
  32 bit hashes, whatever the seed.\<close>

lemma murmur_32_block:
  assumes "length p = length q" and "\<forall>j < length p. j div 4 \<noteq> i \<longrightarrow> p ! j = q ! j" and "p \<noteq> q"
  shows "MurmurHash3_x86_32 p seed \<noteq> MurmurHash3_x86_32 q seed"
  using h32.one_block [of p q i seed] assms by blast

text \<open>C32: For both 128 bit hashes the same holds of aligned blocks of sixteen bytes; in particular they are
  injective on the keys of one length up to sixteen bytes.\<close>

theorem murmur_128_block:
  assumes "length p = length q" and "\<forall>j < length p. j div 16 \<noteq> i \<longrightarrow> p ! j = q ! j" and "p \<noteq> q"
  shows "MurmurHash3_x64_128 p seed \<noteq> MurmurHash3_x64_128 q seed \<and>
    MurmurHash3_x86_128 p seed \<noteq> MurmurHash3_x86_128 q seed"
  using h64.one_block [of p q i "(ucast seed, ucast seed)"] h86.one_block [of p q i "(seed, seed, seed, seed)"] assms
  by (auto simp: MurmurHash3_x64_128_def MurmurHash3_x86_128_def Let_def)

theorem murmur_128_block_witness:
  "MurmurHash3_x64_128 [104, 101, 108, 108, 111] 7 \<noteq> MurmurHash3_x64_128 [104, 101, 108, 108, 112] 7"
  using murmur_128_block [of "[104, 101, 108, 108, 111]" "[104, 101, 108, 108, 112]" 0 7] by (simp add: less_Suc_eq)

text \<open>On published test values the functions give the published hashes.\<close>

lemma murmur_test_values:
  "MurmurHash3_x86_32 [] 1 = 0x514E28B7 \<and> MurmurHash3_x86_32 [116, 101, 115, 116] 0 = 0xba6bd213 \<and>
   MurmurHash3_x64_128 [104, 101, 108, 108, 111] 0 = (0xcbd8a7b341bd9b02, 0x5b1e906a48ae1d19)"
  by code_simp

end
