(* ===== verification/Expiry.thy ===== *)
theory Expiry
  imports Caches ControlFlow
begin

text \<open>
  The check for expired records of the data flows and of the process flows. Both loops have one
  shape: the front of an ordered set is handled until an element is met that is not due. A locale
  holds what such a loop needs; its conclusions are that the loop ends, that it counts the elements
  that were due, and that none is left.
\<close>

section \<open>Loops over the due elements of an ordered set\<close>

locale expiring =
  fixes queue :: "sf \<Rightarrow> 'r list"
    and late :: "sf \<Rightarrow> 'r \<Rightarrow> bool"
    and act :: "nat \<Rightarrow> sf \<Rightarrow> (nat \<times> sf) option"
    and loop :: "nat \<Rightarrow> int \<Rightarrow> sf \<Rightarrow> (int \<times> sf) option"
    and ok :: "sf \<Rightarrow> bool"
  assumes loop_eq: "ok s \<Longrightarrow> loop i n s =
      (if i < length (queue s) \<and> late s (queue s ! i)
       then (case act i s of None \<Rightarrow> None | Some (j, s1) \<Rightarrow> loop j (n + 1) s1) else Some (n, s))"
    and act_ok: "ok s \<Longrightarrow> i < length (queue s) \<Longrightarrow> late s (queue s ! i) \<Longrightarrow> \<forall>k < i. \<not> late s (queue s ! k) \<Longrightarrow>
      \<exists>j s1. act i s = Some (j, s1) \<and> ok s1 \<and> (\<forall>k < j. \<not> late s1 (queue s1 ! k)) \<and>
        length (filter (late s) (queue s)) = Suc (length (filter (late s1) (queue s1)))"
    and in_order: "ok s \<Longrightarrow> k \<le> l \<Longrightarrow> l < length (queue s) \<Longrightarrow> late s (queue s ! l) \<Longrightarrow> late s (queue s ! k)"
begin

lemma none_late:
  assumes "ok s" and "\<forall>k < i. \<not> late s (queue s ! k)" and "\<not> (i < length (queue s) \<and> late s (queue s ! i))"
  shows "filter (late s) (queue s) = []"
proof -
  have "\<not> late s (queue s ! l)" if "l < length (queue s)" for l
    using assms in_order [OF assms(1), of i l] that by (cases "l < i") auto
  then show ?thesis by (auto simp: filter_empty_conv in_set_conv_nth)
qed

theorem loop_total:
  assumes "ok s" and "\<forall>k < i. \<not> late s (queue s ! k)"
  shows "\<exists>s1. loop i n s = Some (n + int (length (filter (late s) (queue s))), s1) \<and> ok s1 \<and>
    (\<forall>r \<in> set (queue s1). \<not> late s1 r)"
  using assms
proof (induction "length (filter (late s) (queue s))" arbitrary: s i n)
  case 0
  then have none: "\<forall>r \<in> set (queue s). \<not> late s r" by (simp add: filter_empty_conv)
  then have "loop i n s = Some (n, s)" using loop_eq [OF 0(2)] by (metis nth_mem)
  with none 0 show ?case by simp
next
  case (Suc m)
  have at: "i < length (queue s) \<and> late s (queue s ! i)"
    using none_late [OF Suc.prems] Suc.hyps(2) by (metis list.size(3) nat.distinct(1))
  obtain j s1 where a: "act i s = Some (j, s1)" "ok s1" "\<forall>k < j. \<not> late s1 (queue s1 ! k)"
    "length (filter (late s) (queue s)) = Suc (length (filter (late s1) (queue s1)))"
    using act_ok [OF Suc.prems(1)] at Suc.prems(2) by blast
  obtain s2 where "loop j (n + 1) s1 = Some (n + 1 + int (length (filter (late s1) (queue s1))), s2) \<and> ok s2 \<and>
      (\<forall>r \<in> set (queue s2). \<not> late s2 r)"
    using Suc.hyps(1) [OF _ a(2,3), of "n + 1"] Suc.hyps(2) a(4) by auto
  then show ?case using loop_eq [OF Suc.prems(1), of i n] at a(1,4) by (simp add: algebra_simps)
qed

end

section \<open>Clocks\<close>

text \<open>Every time the collector reads from now on is at least \<open>now\<close>.\<close>

definition clock_from :: "inspector \<Rightarrow> int \<Rightarrow> sf \<Rightarrow> bool" where
  "clock_from I now s =
     (if m_offline (m_cxt s) then now \<le> timeStamp s div 1000000000 else (\<forall>n \<ge> reads s. now \<le> clock I n))"

text \<open>What an operation that neither touches the pending data flows nor turns back the clock keeps.\<close>

definition same_time :: "sf \<Rightarrow> sf \<Rightarrow> bool" where
  "same_time s s1 = (m_cxt s1 = m_cxt s \<and> timeStamp s1 = timeStamp s \<and> reads s \<le> reads s1)"

lemma same_time_refl [simp]: "same_time s s"
  by (simp add: same_time_def)

lemma same_time_trans [trans]: "same_time s s1 \<Longrightarrow> same_time s1 s2 \<Longrightarrow> same_time s s2"
  by (auto simp: same_time_def)

lemma clock_from_later: "clock_from I now s \<Longrightarrow> same_time s s1 \<Longrightarrow> clock_from I now s1"
  by (auto simp: clock_from_def same_time_def)

lemma clock_from_read: "clock_from I now s \<Longrightarrow> now \<le> fst (getCurrentTime I s)"
  by (auto simp: clock_from_def getCurrentTime_def)

text \<open>Operations that leave the pending flows alone: they write records and mark objects as written.\<close>

definition quiet :: "sf \<Rightarrow> sf \<Rightarrow> bool" where
  "quiet s s1 = (same_time s s1 \<and> heap s1 = heap s \<and> m_dfSet s1 = m_dfSet s \<and> m_pfSet s1 = m_pfSet s \<and>
     (\<forall>oid. map_option pfo (find_proc s1 oid) = map_option pfo (find_proc s oid)))"

lemma quiet_refl [simp]: "quiet s s"
  by (simp add: quiet_def)

lemma quiet_trans [trans]: "quiet s s1 \<Longrightarrow> quiet s1 s2 \<Longrightarrow> quiet s s2"
  by (auto simp: quiet_def intro: same_time_trans)

lemma sock_write_reads: "n \<le> snd (sock_write I r w n)"
  by (simp add: sock_write_def split: prod.split bool.split)

lemma quiet_emit: "quiet s (emit I c s)"
proof -
  have "reads s \<le> reads (emit I c s)"
    using sock_write_reads [of "reads s" I "wrec c"]
    by (auto simp: emit_def virtual_write_def split: writer.split prod.split) (metis snd_conv)+
  then show ?thesis by (simp add: quiet_def same_time_def)
qed

lemma quiet_upd:
  "quiet s (s1\<lparr>m_pods := a\<rparr>) = quiet s s1" "quiet s (s1\<lparr>m_containers := b\<rparr>) = quiet s s1"
  "quiet s (s1\<lparr>m_files := c\<rparr>) = quiet s s1"
  by (simp_all add: quiet_def same_time_def)

lemma quiet_exportPod: "quiet s (snd (exportPod I k s))"
  by (simp add: exportPod_def writePod_def Let_def quiet_upd quiet_emit split: option.split)

lemma quiet_exportContainer: "quiet s (snd (exportContainer I k s))"
  using quiet_exportPod quiet_emit quiet_trans
  by (simp add: exportContainer_def writeContainer_def Let_def quiet_upd split: option.split) blast

lemma quiet_exportFile: "quiet s (snd (exportFile I k s))"
  by (simp add: exportFile_def write_file_obj_def writeFile_def Let_def quiet_upd quiet_emit split: option.split)

lemma quiet_put: "find_proc s1 oid = Some p \<Longrightarrow> pfo q = pfo p \<Longrightarrow> quiet s s1 \<Longrightarrow> quiet s (put_proc oid q s1)"
  by (auto simp: quiet_def same_time_def put_proc_def) (metis option.map(2))

lemma quiet_exportProcess: "quiet s (snd (exportProcess I oid s))"
proof (cases "find_proc s oid")
  case (Some p)
  define s1 where "s1 = (case proc_containerId (p_proc p) of None \<Rightarrow> s | Some c \<Rightarrow> snd (exportContainer I c s))"
  have q: "quiet s s1" by (simp add: s1_def quiet_exportContainer split: option.split)
  have f: "find_proc s1 = find_proc s" by (simp add: s1_def split: option.split)
  have "quiet s (put_proc oid (p\<lparr>p_written := True\<rparr>) (writeProcess I (p_proc p) s1))"
    by (rule quiet_put [where p = p]) (simp_all add: writeProcess_def f Some quiet_trans [OF q quiet_emit])
  then show ?thesis using q by (simp add: exportProcess_def Some flip: s1_def)
qed (simp add: exportProcess_def)

lemma quiet_clocks: "quiet s (snd (getSinspTime I s))" "quiet s (snd (getCurrentTime I s))"
  by (simp_all add: getSinspTime_def getCurrentTime_def quiet_def same_time_def)

lemma quiet_writes:
  "quiet s (writeNetFlow I nf p s)" "quiet s (SHOULD_WRITE I ffo p f s)" "quiet s (writeProcessFlow I pf p s)"
  by (simp_all add: writeNetFlow_def SHOULD_WRITE_def writeFileFlow_def writeProcessFlow_def quiet_emit)

lemmas quiet_intros = quiet_exportProcess [THEN quiet_trans [rotated]] quiet_exportFile [THEN quiet_trans [rotated]]
  quiet_writes [THEN quiet_trans [rotated]] quiet_clocks [THEN quiet_trans [rotated]]

section \<open>Ordered sets of stamped elements\<close>

text \<open>
  The elements of both sets are pointers to objects with a time stamp, the time of their last
  export; a pointer to a deleted object has none. The set is in order when every pointer is to a
  live object, none occurs twice, and the stamps ascend.
\<close>

definition stamp_key :: "('r \<Rightarrow> int option) \<Rightarrow> 'r \<Rightarrow> int" where
  "stamp_key st r = (case st r of None \<Rightarrow> 0 | Some t \<Rightarrow> t)"

definition set_ok :: "('r \<Rightarrow> int option) \<Rightarrow> 'r list \<Rightarrow> bool" where
  "set_ok st xs = (list_all (\<lambda>r. st r \<noteq> None) xs \<and> distinct xs \<and> sorted (map (stamp_key st) xs))"

definition set_late :: "int \<Rightarrow> int \<Rightarrow> ('r \<Rightarrow> int option) \<Rightarrow> 'r \<Rightarrow> bool" where
  "set_late now interval st r = (difftime now (stamp_key st r) \<ge> interval)"

lemma set_ok_tl:
  assumes "set_ok st (r # q)" and "\<forall>x. x \<noteq> r \<longrightarrow> st1 x = st x"
  shows "set_ok st1 q"
proof -
  have k: "map (stamp_key st1) q = map (stamp_key st) q"
    using assms by (intro map_cong) (auto simp: set_ok_def stamp_key_def)
  have "sorted (map (stamp_key st1) q)" unfolding k using assms(1) by (simp add: set_ok_def)
  then show ?thesis using assms by (auto simp: set_ok_def list_all_iff)
qed

lemma set_ok_insert:
  assumes "set_ok st q" and "r \<notin> set q" and "st r = Some t"
  shows "set_ok st (ms_insert (stamp_key st) r q)"
  using assms sorted_ms_insert [of "stamp_key st" q r] by (simp add: set_ok_def list_all_iff)

lemma insert_pos_front: "insert_pos key r q = 0 \<Longrightarrow> ms_insert key r q ! 0 = r"
  by (cases q) (auto simp: insert_pos_def split: if_splits)

lemma late_first:
  assumes "set_ok st xs" and "k \<le> l" and "l < length xs" and "set_late now iv st (xs ! l)"
  shows "set_late now iv st (xs ! k)"
  using assms sorted_nth_mono [of "map (stamp_key st) xs" k l] by (auto simp: set_ok_def set_late_def difftime_def)

text \<open>
  A loop over such a set: the round for the element at the front either takes it out, or puts it
  back with a stamp that is not before \<open>now\<close>.
\<close>

locale stamped_loop =
  fixes I :: inspector
    and now :: int
    and queue :: "sf \<Rightarrow> 'r list"
    and stamp :: "sf \<Rightarrow> 'r \<Rightarrow> int option"
    and act :: "nat \<Rightarrow> sf \<Rightarrow> (nat \<times> sf) option"
    and loop :: "nat \<Rightarrow> int \<Rightarrow> sf \<Rightarrow> (int \<times> sf) option"
  assumes loop_step: "set_ok (stamp s) (queue s) \<Longrightarrow> loop i n s =
      (if i < length (queue s) \<and> set_late now (m_nfExportInterval (m_cxt s)) (stamp s) (queue s ! i)
       then (case act i s of None \<Rightarrow> None | Some (j, s1) \<Rightarrow> loop j (n + 1) s1) else Some (n, s))"
    and act_front: "set_ok (stamp s) (queue s) \<Longrightarrow> queue s = r # q \<Longrightarrow> clock_from I now s \<Longrightarrow>
      \<exists>j s1. act 0 s = Some (j, s1) \<and> same_time s s1 \<and> (\<forall>x. x \<noteq> r \<longrightarrow> stamp s1 x = stamp s x) \<and>
        (j = 0 \<and> queue s1 = q \<or>
         (\<exists>t \<ge> now. stamp s1 r = Some t \<and> queue s1 = ms_insert (stamp_key (stamp s1)) r q \<and> (j = 0 \<or> j = 1 \<and> queue s1 ! 0 = r)))"
begin

definition ready :: "sf \<Rightarrow> bool" where
  "ready s = (set_ok (stamp s) (queue s) \<and> 0 < m_nfExportInterval (m_cxt s) \<and> clock_from I now s)"

definition overdue :: "sf \<Rightarrow> 'r \<Rightarrow> bool" where
  "overdue s = set_late now (m_nfExportInterval (m_cxt s)) (stamp s)"

lemma round:
  assumes ok: "ready s" and i: "i < length (queue s)" and late: "overdue s (queue s ! i)"
    and before: "\<forall>k < i. \<not> overdue s (queue s ! k)"
  shows "\<exists>j s1. act i s = Some (j, s1) \<and> ready s1 \<and> (\<forall>k < j. \<not> overdue s1 (queue s1 ! k)) \<and>
    length (filter (overdue s) (queue s)) = Suc (length (filter (overdue s1) (queue s1)))"
proof -
  have set: "set_ok (stamp s) (queue s)" and clk: "clock_from I now s" using ok by (simp_all add: ready_def)
  have i0: "i = 0" using before late_first [OF set, of 0 i] i late unfolding overdue_def by (cases i) auto
  obtain r q where rq: "queue s = r # q" using i by (cases "queue s") auto
  then have r: "r \<notin> set q" using set by (simp add: set_ok_def)
  obtain j s1 where s1: "act 0 s = Some (j, s1)" "same_time s s1" and st: "\<forall>x. x \<noteq> r \<longrightarrow> stamp s1 x = stamp s x"
    and alt: "j = 0 \<and> queue s1 = q \<or>
      (\<exists>t \<ge> now. stamp s1 r = Some t \<and> queue s1 = ms_insert (stamp_key (stamp s1)) r q \<and> (j = 0 \<or> j = 1 \<and> queue s1 ! 0 = r))"
    using act_front [OF set rq clk] by blast
  have tail: "set_ok (stamp s1) q" using set_ok_tl [OF set [unfolded rq] st] .
  have cxt: "m_cxt s1 = m_cxt s" using s1(2) by (simp add: same_time_def)
  have "overdue s1 x = overdue s x" if "x \<in> set q" for x
    using that r st by (auto simp: overdue_def set_late_def stamp_key_def cxt)
  then have count: "length (filter (overdue s) (queue s)) = Suc (length (filter (overdue s1) q))"
    using late i0 rq by (simp cong: filter_cong)
  consider "j = 0" "queue s1 = q" | t where "now \<le> t" "stamp s1 r = Some t"
      "queue s1 = ms_insert (stamp_key (stamp s1)) r q" "j = 0 \<or> j = 1 \<and> queue s1 ! 0 = r"
    using alt by blast
  then show ?thesis
  proof cases
    case 1
    then show ?thesis using s1 i0 count tail ok clock_from_later [OF clk s1(2)] by (simp add: ready_def cxt)
  next
    case 2
    note t = 2(1,2) and q = 2(3) and j = 2(4)
    have young: "\<not> overdue s1 r" using t ok by (simp add: overdue_def set_late_def stamp_key_def difftime_def cxt ready_def)
    have "mset (filter (overdue s1) (queue s1)) = mset (filter (overdue s1) q)" using young by (simp add: q)
    then have "length (filter (overdue s1) (queue s1)) = length (filter (overdue s1) q)" by (rule mset_eq_length)
    moreover have "ready s1"
      using set_ok_insert [OF tail r t(2)] q ok clock_from_later [OF clk s1(2)] by (simp add: ready_def cxt)
    ultimately show ?thesis using s1(1) i0 count young j by (auto simp: less_Suc_eq)
  qed
qed

sublocale expiring queue overdue act loop ready
proof unfold_locales
  show "overdue s (queue s ! k)" if "ready s" "k \<le> l" "l < length (queue s)" "overdue s (queue s ! l)" for s k l
    using that late_first by (auto simp: ready_def overdue_def)
qed (simp add: loop_step ready_def overdue_def, rule round)

lemma check_total:
  assumes "ready s"
  shows "\<exists>s1. loop 0 n s = Some (n + int (length (filter (overdue s) (queue s))), s1) \<and>
    list_all (\<lambda>r. \<not> overdue s1 r) (queue s1)"
  using loop_total [OF assms, of 0 n] by (auto simp: list_all_iff)

end

section \<open>Data flows\<close>

text \<open>Two states that agree on time and on the pending data flows, except for the flow at \<open>r\<close>.\<close>

definition df_frame :: "ref \<Rightarrow> sf \<Rightarrow> sf \<Rightarrow> bool" where
  "df_frame r s s1 = (same_time s s1 \<and> m_dfSet s1 = m_dfSet s \<and> (\<forall>q. q \<noteq> r \<longrightarrow> heap s1 q = heap s q))"

lemma quiet_frame: "quiet s s1 \<Longrightarrow> df_frame r s s1"
  by (simp add: quiet_def df_frame_def)

lemma exportFlow_total:
  assumes "heap s r = Some d"
  shows "\<exists>d1 s1. exportFlow I r d s = Some ((), s1) \<and> df_frame r s s1 \<and> heap s1 r = Some d1 \<and>
    df_exportTime d1 = df_exportTime d"
proof -
  define s1 where "s1 = snd (getSinspTime I s)"
  define t where "t = fst (getSinspTime I s)"
  have q1: "quiet s s1" by (simp add: s1_def quiet_clocks)
  show ?thesis
  proof (cases d)
    case (Net nfo)
    let ?nf = "(netflow nfo)\<lparr>nf_endTs := t\<rparr>"
    let ?e = "exportProcess I (nf_procOID ?nf) s1"
    let ?s3 = "getSinspTime I (writeNetFlow I ?nf (map_option p_proc (fst ?e)) (snd ?e))"
    have "quiet s (snd ?s3)" by (intro quiet_intros q1)
    then have "df_frame r s (put_flow r d1 (snd ?s3))" for d1
      by (auto simp: df_frame_def quiet_def put_flow_def same_time_def)
    moreover have "exportFlow I r d s = Some ((), put_flow r (Net (nfo\<lparr>netflow := nf_reup (fst ?s3) ?nf\<rparr>)) (snd ?s3))"
      using assms by (simp add: exportFlow_def exportNetworkFlow_def deref_net_def Net s1_def t_def Let_def split_beta)
    ultimately show ?thesis by (auto simp: put_flow_def Net)
  next
    case (Fil ffo)
    let ?ff = "(fileflow ffo)\<lparr>ff_endTs := t\<rparr>"
    let ?e = "exportProcess I (ff_procOID ?ff) s1"
    let ?f = "exportFile I (filekey ffo) (snd ?e)"
    let ?s3 = "getSinspTime I (SHOULD_WRITE I (ffo\<lparr>fileflow := ?ff\<rparr>) (map_option p_proc (fst ?e)) (map_option f_file (fst ?f)) (snd ?f))"
    have "quiet s (snd ?s3)" by (intro quiet_intros q1)
    then have "df_frame r s (put_flow r d1 (snd ?s3))" for d1
      by (auto simp: df_frame_def quiet_def put_flow_def same_time_def)
    moreover have "exportFlow I r d s = Some ((), put_flow r (Fil (ffo\<lparr>fileflow := ff_reup (fst ?s3) ?ff\<rparr>)) (snd ?s3))"
      using assms by (simp add: exportFlow_def exportFileFlow_def deref_file_def Fil s1_def t_def Let_def split_beta)
    ultimately show ?thesis by (auto simp: put_flow_def Fil)
  qed
qed

lemma removeFlow_total:
  assumes "heap s r = Some d"
  shows "\<exists>s1. removeFlow I r d s = Some ((), s1) \<and> df_frame r s s1 \<and> (isNetworkFlow d \<longrightarrow> trace s1 = trace s)"
proof (cases d)
  case (Net nfo)
  then show ?thesis using assms
    by (cases "find_proc s (nf_procOID (netflow nfo))")
      (auto simp: removeFlow_def removeNetworkFlow_def deref_net_def removeNetworkFlow_key_def upd_proc_def put_proc_def
        free_def df_frame_def same_time_def)
next
  case (Fil ffo)
  show ?thesis
  proof (cases "find_proc s (ff_procOID (fileflow ffo))")
    case None
    then show ?thesis using Fil assms by (auto simp: removeFlow_def removeFileFlow_def deref_file_def df_frame_def)
  next
    case (Some p)
    define s1 where "s1 = snd (getFile_key I (filekey ffo) s)"
    have g: "getFile_key = exportFile" by (simp add: fun_eq_iff getFile_key_def exportFile_def)
    have q: "quiet s s1" by (simp add: s1_def g quiet_exportFile)
    have "m_procs s1 = m_procs s"
      by (simp add: s1_def getFile_key_def write_file_obj_def writeFile_def Let_def split: option.split)
    then show ?thesis using Some Fil assms q
      by (auto simp: removeFlow_def removeFileFlow_def deref_file_def removeFileFlow_key_def upd_proc_def put_proc_def
        free_def df_frame_def same_time_def quiet_def s1_def split_beta file_decr_def split: option.split)
  qed
qed

text \<open>One round of the loop.\<close>

definition df_act :: "inspector \<Rightarrow> int \<Rightarrow> nat \<Rightarrow> sf \<Rightarrow> (nat \<times> sf) option" where
  "df_act I now i s =
     (let r = m_dfSet s ! i in
      case heap s r of
        None \<Rightarrow> None
      | Some d \<Rightarrow>
          (if difftime now (df_lastUpdate d) \<ge> m_nfExpireInterval (m_cxt s) then
             map_option (\<lambda>(u, s1). (i, s1\<lparr>m_dfSet := erase_at i (m_dfSet s1)\<rparr>)) (removeFlow I r d s)
           else (case exportFlow I r d s of None \<Rightarrow> None | Some (u, s1) \<Rightarrow> reinsertFlow I i r s1)))"

abbreviation df_stamp :: "sf \<Rightarrow> ref \<Rightarrow> int option" where
  "df_stamp s r \<equiv> map_option df_exportTime (heap s r)"

lemma df_key_stamp: "df_key s = stamp_key (df_stamp s)"
  by (simp add: df_key_def stamp_key_def fun_eq_iff split: option.split)

text \<open>A flow that goes back into the set with a new export time.\<close>

lemma reinsert_front:
  fixes s1 :: sf
  assumes "m_dfSet s1 = r # q" and "list_all (\<lambda>x. heap s1 x \<noteq> None) q" and "heap s1 r = Some d" and "clock_from I now s1"
  shows "\<exists>j s2. reinsertFlow I 0 r s1 = Some (j, s2) \<and> same_time s1 s2 \<and> (\<forall>x. x \<noteq> r \<longrightarrow> df_stamp s2 x = df_stamp s1 x) \<and>
    (\<exists>t \<ge> now. df_stamp s2 r = Some t \<and> m_dfSet s2 = ms_insert (stamp_key (df_stamp s2)) r q \<and> (j = 0 \<or> j = 1 \<and> m_dfSet s2 ! 0 = r))"
proof -
  define s0 where "s0 = s1\<lparr>m_dfSet := q\<rparr>"
  obtain t s0' where g: "getCurrentTime I s0 = (t, s0')" by fastforce
  define s2 where "s2 = put_flow r (df_set_exportTime t d) s0'"
  define s3 where "s3 = s2\<lparr>m_dfSet := ms_insert (df_key s2) r q\<rparr>"
  have e: "erase_at 0 (m_dfSet s1) = q" by (simp add: erase_at_def assms(1))
  have f: "heap s0' = heap s1" "m_dfSet s0' = q" "same_time s1 s0'"
    using g by (auto simp: getCurrentTime_def s0_def same_time_def split: if_splits)
  have key: "df_key s3 = df_key s2" by (simp add: s3_def df_key_def fun_eq_iff)
  have "reinsertFlow I 0 r s1 = Some (if insert_pos (df_key s2) r q = 0 then 1 else 0, s3)"
    using assms(2,3) f
    by (simp add: reinsertFlow_def e g deref_def Let_def dfset_insert_def df_live_def list_all_iff s3_def s2_def put_flow_def
        flip: s0_def)
  moreover have "now \<le> t"
    using clock_from_read [of I now s0] assms(4) g by (simp add: s0_def clock_from_def)
  moreover have "df_exportTime (df_set_exportTime t d) = t" by (cases d) simp_all
  ultimately show ?thesis
    using f insert_pos_front [of "df_key s2" r q] key
    by (auto simp: s3_def s2_def put_flow_def same_time_def df_key_stamp)
qed

interpretation dfs: stamped_loop I now m_dfSet df_stamp "df_act I now" "expire_loop I now" for I now
proof unfold_locales
  fix s i n assume ok: "set_ok (df_stamp s) (m_dfSet s)"
  show "expire_loop I now i n s =
    (if i < length (m_dfSet s) \<and> set_late now (m_nfExportInterval (m_cxt s)) (df_stamp s) (m_dfSet s ! i)
     then case df_act I now i s of None \<Rightarrow> None | Some (j, s1) \<Rightarrow> expire_loop I now j (n + 1) s1 else Some (n, s))"
  proof (cases "i < length (m_dfSet s)")
    case True
    then obtain d where "heap s (m_dfSet s ! i) = Some d" using ok by (auto simp: set_ok_def list_all_length)
    with True show ?thesis
      by (subst expire_loop.simps) (auto simp: set_late_def stamp_key_def df_act_def Let_def split: option.split)
  qed (subst expire_loop.simps, simp)
next
  fix s r q assume ok: "set_ok (df_stamp s) (m_dfSet s)" and rq: "m_dfSet s = r # q" and clk: "clock_from I now s"
  obtain d where d: "heap s r = Some d" using ok rq by (auto simp: set_ok_def)
  show "\<exists>j s1. df_act I now 0 s = Some (j, s1) \<and> same_time s s1 \<and> (\<forall>x. x \<noteq> r \<longrightarrow> df_stamp s1 x = df_stamp s x) \<and>
    (j = 0 \<and> m_dfSet s1 = q \<or>
     (\<exists>t \<ge> now. df_stamp s1 r = Some t \<and> m_dfSet s1 = ms_insert (stamp_key (df_stamp s1)) r q \<and> (j = 0 \<or> j = 1 \<and> m_dfSet s1 ! 0 = r)))"
  proof (cases "difftime now (df_lastUpdate d) \<ge> m_nfExpireInterval (m_cxt s)")
    case True
    obtain s1 where "removeFlow I r d s = Some ((), s1)" "df_frame r s s1" using removeFlow_total [OF d] by blast
    then show ?thesis using True rq d by (auto simp: df_act_def erase_at_def df_frame_def same_time_def)
  next
    case False
    obtain d1 s1 where s1: "exportFlow I r d s = Some ((), s1)" "df_frame r s s1" "heap s1 r = Some d1"
      using exportFlow_total [OF d] by blast
    have live: "list_all (\<lambda>x. heap s1 x \<noteq> None) q"
      using ok rq s1(2) by (auto simp: set_ok_def list_all_iff df_frame_def)
    have "m_dfSet s1 = r # q" using s1(2) rq by (simp add: df_frame_def)
    from reinsert_front [OF this live s1(3), of I now] obtain j s2 where s2: "reinsertFlow I 0 r s1 = Some (j, s2)"
      "same_time s1 s2" "\<forall>x. x \<noteq> r \<longrightarrow> df_stamp s2 x = df_stamp s1 x"
      "\<exists>t \<ge> now. df_stamp s2 r = Some t \<and> m_dfSet s2 = ms_insert (stamp_key (df_stamp s2)) r q \<and> (j = 0 \<or> j = 1 \<and> m_dfSet s2 ! 0 = r)"
      using clock_from_later [OF clk] s1(2) by (auto simp: df_frame_def)
    have "df_act I now 0 s = Some (j, s2)" using False s1(1) s2(1) rq d by (simp add: df_act_def)
    moreover have "same_time s s2" using s1(2) s2(2) same_time_trans by (auto simp: df_frame_def)
    moreover have "\<forall>x. x \<noteq> r \<longrightarrow> df_stamp s2 x = df_stamp s x" using s1(2) s2(3) by (simp add: df_frame_def)
    ultimately show ?thesis using s2(4) by blast
  qed
qed

section \<open>Process flows\<close>

abbreviation pf_stamp :: "sf \<Rightarrow> OID \<Rightarrow> int option" where
  "pf_stamp s oid \<equiv> Option.bind (find_proc s oid) (\<lambda>p. map_option exportTime (pfo p))"

lemma pf_key_stamp: "pf_key s = stamp_key (pf_stamp s)"
  by (simp add: pf_key_def stamp_key_def fun_eq_iff split: option.split)

lemma pf_live_stamp: "pf_live s xs = list_all (\<lambda>r. pf_stamp s r \<noteq> None) xs"
  unfolding pf_live_def by (rule list_all_cong) (auto split: option.split)

lemma quiet_stamp: "quiet s s1 \<Longrightarrow> pf_stamp s1 oid = pf_stamp s oid"
  unfolding quiet_def by (cases "find_proc s oid"; cases "find_proc s1 oid") (metis map_option_is_None option.distinct(1) bind.simps option.map(2) option.inject)+

definition pf_act :: "inspector \<Rightarrow> int \<Rightarrow> nat \<Rightarrow> sf \<Rightarrow> (nat \<times> sf) option" where
  "pf_act I now i s =
     (let oid = m_pfSet s ! i in
      case find_proc s oid of
        None \<Rightarrow> None
      | Some p \<Rightarrow>
          (case pfo p of
             None \<Rightarrow> None
           | Some f \<Rightarrow>
               (if difftime now (lastUpdate f) \<ge> m_nfExpireInterval (m_cxt s) then
                  Some (i, (put_proc oid (p\<lparr>pfo := None\<rparr>) s)\<lparr>m_pfSet := erase_at i (m_pfSet s)\<rparr>)
                else (case exportProcessFlow I oid f s of None \<Rightarrow> None | Some (u, s1) \<Rightarrow> reinsertPF I i oid s1))))"

text \<open>The export of a process flow keeps its time stamp; the flow then goes back into the set with a new one.\<close>

lemma exportProcessFlow_total:
  assumes "find_proc s oid = Some p" and "pfo p = Some f"
  shows "\<exists>p1 f1 s1. exportProcessFlow I oid f s = Some ((), s1) \<and> same_time s s1 \<and> m_pfSet s1 = m_pfSet s \<and>
    (\<forall>x. pf_stamp s1 x = pf_stamp s x) \<and> find_proc s1 oid = Some p1 \<and> pfo p1 = Some f1"
proof -
  let ?s1 = "getSinspTime I s"
  let ?pf = "(procflow f)\<lparr>pf_endTs := fst ?s1\<rparr>"
  let ?e = "exportProcess I (pf_procOID ?pf) (snd ?s1)"
  let ?s3 = "getSinspTime I (writeProcessFlow I ?pf (map_option p_proc (fst ?e)) (snd ?e))"
  have q: "quiet s (snd ?s3)" by (intro quiet_intros quiet_clocks)
  then have "map_option pfo (find_proc (snd ?s3) oid) = Some (Some f)" using assms by (simp add: quiet_def)
  then obtain p3 where p3: "find_proc (snd ?s3) oid = Some p3" "pfo p3 = Some f" by auto
  let ?f1 = "f\<lparr>procflow := pf_reup (fst ?s3) ?pf\<rparr>"
  let ?s4 = "put_proc oid (p3\<lparr>pfo := Some ?f1\<rparr>) (snd ?s3)"
  have "exportProcessFlow I oid f s = Some ((), ?s4)"
    using p3(1) by (simp add: exportProcessFlow_def split_beta Let_def upd_proc_def)
  moreover have "pf_stamp ?s4 x = pf_stamp s x" for x
    using quiet_stamp [OF q, of x] p3 by (simp add: put_proc_def) (metis bind.bind_lunit option.map(2))
  moreover have "same_time s ?s4" "m_pfSet ?s4 = m_pfSet s"
    using q by (simp_all add: quiet_def same_time_def put_proc_def)
  ultimately show ?thesis by (intro exI [of _ "p3\<lparr>pfo := Some ?f1\<rparr>"] exI [of _ ?f1] exI [of _ ?s4]) (simp add: put_proc_def)
qed

lemma reinsert_pf_front:
  fixes s1 :: sf
  assumes "m_pfSet s1 = oid # q" and "list_all (\<lambda>x. pf_stamp s1 x \<noteq> None) q" and "oid \<notin> set q"
    and "find_proc s1 oid = Some p" and "pfo p = Some f" and "clock_from I now s1"
  shows "\<exists>j s2. reinsertPF I 0 oid s1 = Some (j, s2) \<and> same_time s1 s2 \<and> (\<forall>x. x \<noteq> oid \<longrightarrow> pf_stamp s2 x = pf_stamp s1 x) \<and>
    (\<exists>t \<ge> now. pf_stamp s2 oid = Some t \<and> m_pfSet s2 = ms_insert (stamp_key (pf_stamp s2)) oid q \<and> (j = 0 \<or> j = 1 \<and> m_pfSet s2 ! 0 = oid))"
proof -
  define s0 where "s0 = s1\<lparr>m_pfSet := q\<rparr>"
  obtain t s0' where g: "getCurrentTime I s0 = (t, s0')" by fastforce
  define s2 where "s2 = put_proc oid (p\<lparr>pfo := Some (f\<lparr>exportTime := t\<rparr>)\<rparr>) s0'"
  define s3 where "s3 = s2\<lparr>m_pfSet := ms_insert (pf_key s2) oid q\<rparr>"
  have e: "erase_at 0 (m_pfSet s1) = q" by (simp add: erase_at_def assms(1))
  have f: "m_procs s0' = m_procs s1" "m_pfSet s0' = q" "same_time s1 s0'"
    using g by (auto simp: getCurrentTime_def s0_def same_time_def split: if_splits)
  have key: "pf_key s3 = pf_key s2" by (simp add: s3_def pf_key_def fun_eq_iff)
  have st: "pf_stamp s2 x = (if x = oid then Some t else pf_stamp s1 x)" for x by (simp add: s2_def put_proc_def f(1))
  have live: "pf_live s2 (oid # q)" using assms(2) unfolding pf_live_stamp by (simp add: st list_all_iff)
  have "reinsertPF I 0 oid s1 = Some (if insert_pos (pf_key s2) oid q = 0 then 1 else 0, s3)"
    using assms(4,5) f live
    by (simp add: reinsertPF_def e g deref_proc_def Let_def pfset_insert_def s3_def flip: s0_def)
      (simp add: s2_def put_proc_def)
  moreover have "now \<le> t"
    using clock_from_read [of I now s0] assms(6) g by (simp add: s0_def clock_from_def)
  moreover have "pf_stamp s3 x = pf_stamp s2 x" for x by (simp add: s3_def)
  moreover have "m_pfSet s3 = ms_insert (stamp_key (pf_stamp s3)) oid q"
    using key by (simp add: s3_def pf_key_stamp)
  moreover have "same_time s1 s3" using f(3) by (simp add: s3_def s2_def put_proc_def same_time_def)
  ultimately show ?thesis using insert_pos_front [of "pf_key s2" oid q] st by (auto simp: s3_def)
qed

interpretation pfs: stamped_loop I now m_pfSet pf_stamp "pf_act I now" "pf_expire_loop I now" for I now
proof unfold_locales
  fix s i n assume ok: "set_ok (pf_stamp s) (m_pfSet s)"
  show "pf_expire_loop I now i n s =
    (if i < length (m_pfSet s) \<and> set_late now (m_nfExportInterval (m_cxt s)) (pf_stamp s) (m_pfSet s ! i)
     then case pf_act I now i s of None \<Rightarrow> None | Some (j, s1) \<Rightarrow> pf_expire_loop I now j (n + 1) s1 else Some (n, s))"
  proof (cases "i < length (m_pfSet s)")
    case True
    then obtain p f where "find_proc s (m_pfSet s ! i) = Some p" "pfo p = Some f"
      using ok by (auto simp: set_ok_def list_all_length bind_eq_Some_conv)
    with True show ?thesis
      by (subst pf_expire_loop.simps) (auto simp: set_late_def stamp_key_def pf_act_def Let_def split: option.split)
  qed (subst pf_expire_loop.simps, simp)
next
  fix s r q assume ok: "set_ok (pf_stamp s) (m_pfSet s)" and rq: "m_pfSet s = r # q" and clk: "clock_from I now s"
  obtain p f where p: "find_proc s r = Some p" "pfo p = Some f" using ok rq by (auto simp: set_ok_def bind_eq_Some_conv)
  show "\<exists>j s1. pf_act I now 0 s = Some (j, s1) \<and> same_time s s1 \<and> (\<forall>x. x \<noteq> r \<longrightarrow> pf_stamp s1 x = pf_stamp s x) \<and>
    (j = 0 \<and> m_pfSet s1 = q \<or>
     (\<exists>t \<ge> now. pf_stamp s1 r = Some t \<and> m_pfSet s1 = ms_insert (stamp_key (pf_stamp s1)) r q \<and> (j = 0 \<or> j = 1 \<and> m_pfSet s1 ! 0 = r)))"
  proof (cases "difftime now (lastUpdate f) \<ge> m_nfExpireInterval (m_cxt s)")
    case True
    then show ?thesis using rq p by (simp add: pf_act_def erase_at_def same_time_def put_proc_def)
  next
    case False
    obtain p1 f1 s1 where s1: "exportProcessFlow I r f s = Some ((), s1)" "same_time s s1" "m_pfSet s1 = r # q"
      "\<forall>x. pf_stamp s1 x = pf_stamp s x" "find_proc s1 r = Some p1" "pfo p1 = Some f1"
      using exportProcessFlow_total [OF p, of I] rq by auto
    have live: "list_all (\<lambda>x. pf_stamp s1 x \<noteq> None) q" "r \<notin> set q"
      using ok rq s1(4) by (simp_all add: set_ok_def)
    obtain j s2 where s2: "reinsertPF I 0 r s1 = Some (j, s2)" "same_time s1 s2"
      "\<forall>x. x \<noteq> r \<longrightarrow> pf_stamp s2 x = pf_stamp s1 x"
      "\<exists>t \<ge> now. pf_stamp s2 r = Some t \<and> m_pfSet s2 = ms_insert (stamp_key (pf_stamp s2)) r q \<and> (j = 0 \<or> j = 1 \<and> m_pfSet s2 ! 0 = r)"
      using reinsert_pf_front [OF s1(3) live s1(5,6) clock_from_later [OF clk s1(2)]] by blast
    have "pf_act I now 0 s = Some (j, s2)" using False s1(1) s2(1) rq p by (simp add: pf_act_def)
    moreover have "same_time s s2" using s1(2) s2(2) by (rule same_time_trans)
    moreover have "\<forall>x. x \<noteq> r \<longrightarrow> pf_stamp s2 x = pf_stamp s x" using s1(4) s2(3) by simp
    ultimately show ?thesis using s2(4) by blast
  qed
qed

section \<open>Properties\<close>

lemma dfs_overdue: "dfs.overdue now s = (\<lambda>r. difftime now (df_key s r) \<ge> m_nfExportInterval (m_cxt s))"
  by (simp add: fun_eq_iff dfs.overdue_def set_late_def df_key_stamp)

lemma pfs_overdue: "pfs.overdue now s = (\<lambda>r. difftime now (pf_key s r) \<ge> m_nfExportInterval (m_cxt s))"
  by (simp add: fun_eq_iff pfs.overdue_def set_late_def pf_key_stamp)

lemma getCurrentTime_fields:
  "getCurrentTime I s = (now, s0) \<Longrightarrow> \<exists>n. s0 = s\<lparr>reads := n\<rparr>"
  by (metis getCurrentTime_frame snd_conv)

text \<open>A state with one network flow pending that was last exported at second 1 and has one send to report.\<close>

definition sent0 :: NetFlowObj where
  "sent0 = fst (updateNetFlow lib0 OP_WRITE_SEND (event0 ''PPME_SOCKET_SEND_X'' 5 (thread0 7 7) (Some socket0) 12)
     \<lparr>exportTime = 1, lastUpdate = 1,
      netflow = populateNetFlow OP_WRITE_SEND (event0 ''PPME_SOCKET_SEND_X'' 5 (thread0 7 7) (Some socket0) 12) (thread0 7 7) socket0
        \<lparr>hpid = 7, createTS = 7\<rparr>\<rparr> (state0 (FileW file_writer0)))"

definition pending0 :: sf where
  "pending0 = cache0\<lparr>m_dfSet := [0], heap := [0 \<mapsto> Net sent0], nextref := 1, df_lastCheck := 1, reads := 40\<rparr>"

lemma pending0_time: "getCurrentTime lib0 pending0 = (41, pending0\<lparr>reads := 41\<rparr>)"
  by (simp add: getCurrentTime_def pending0_def cache0_def state0_def cxt0_def lib0_def)

text \<open>C20: When a check for expired data flows is due and the clock does not go back, the loop ends; it reports
  the number of flows whose export interval has passed, and leaves no such flow in the set.\<close>

theorem df_check_complete:
  assumes "getCurrentTime I s = (now, s0)" and "set_ok (df_stamp s) (m_dfSet s)" and "0 < m_nfExportInterval (m_cxt s)"
    and "clock_from I now s0" and "df_lastCheck s \<noteq> 0" and "1 \<le> difftime now (df_lastCheck s)"
  shows "\<exists>s1. df_checkForExpiredRecords I s =
      Some (int (length (filter (\<lambda>r. difftime now (df_key s r) \<ge> m_nfExportInterval (m_cxt s)) (m_dfSet s))), s1) \<and>
    list_all (\<lambda>r. difftime now (df_key s1 r) < m_nfExportInterval (m_cxt s1)) (m_dfSet s1)"
proof -
  obtain n where s0: "s0 = s\<lparr>reads := n\<rparr>" using getCurrentTime_fields [OF assms(1)] by blast
  let ?s = "s0\<lparr>df_lastCheck := now\<rparr>"
  have "dfs.ready I now ?s" using assms(2,3,4) by (auto simp: dfs.ready_def s0 clock_from_def split: if_splits)
  from dfs.check_total [OF this, of 0] show ?thesis
    using assms(1,5,6) by (simp add: df_checkForExpiredRecords_def dfs_overdue s0 df_key_def not_le)
qed

theorem df_check_complete_witness:
  "\<exists>s1. df_checkForExpiredRecords lib0 pending0 = Some (1, s1) \<and>
     list_all (\<lambda>r. difftime 41 (df_key s1 r) < m_nfExportInterval (m_cxt s1)) (m_dfSet s1)"
proof -
  have "set_ok (df_stamp pending0) (m_dfSet pending0)" "0 < m_nfExportInterval (m_cxt pending0)" "df_lastCheck pending0 \<noteq> 0"
    "1 \<le> difftime 41 (df_lastCheck pending0)"
    "length (filter (\<lambda>r. difftime 41 (df_key pending0 r) \<ge> m_nfExportInterval (m_cxt pending0)) (m_dfSet pending0)) = 1"
    by code_simp+
  moreover have "clock_from lib0 41 (pending0\<lparr>reads := 41\<rparr>)"
    by (simp add: clock_from_def pending0_def cache0_def state0_def cxt0_def lib0_def)
  ultimately show ?thesis using df_check_complete [OF pending0_time] by simp
qed

text \<open>C21: The same for the process flows.\<close>

theorem cf_check_complete:
  assumes "getCurrentTime I s = (now, s0)" and "set_ok (pf_stamp s) (m_pfSet s)" and "0 < m_nfExportInterval (m_cxt s)"
    and "clock_from I now s0" and "cf_lastCheck s \<noteq> 0" and "1 \<le> difftime now (cf_lastCheck s)"
  shows "\<exists>s1. cf_checkForExpiredRecords I s =
      Some (int (length (filter (\<lambda>r. difftime now (pf_key s r) \<ge> m_nfExportInterval (m_cxt s)) (m_pfSet s))), s1) \<and>
    list_all (\<lambda>r. difftime now (pf_key s1 r) < m_nfExportInterval (m_cxt s1)) (m_pfSet s1)"
proof -
  obtain n where s0: "s0 = s\<lparr>reads := n\<rparr>" using getCurrentTime_fields [OF assms(1)] by blast
  let ?s = "s0\<lparr>cf_lastCheck := now\<rparr>"
  have "pfs.ready I now ?s" using assms(2,3,4) by (auto simp: pfs.ready_def s0 clock_from_def split: if_splits)
  from pfs.check_total [OF this, of 0] show ?thesis
    using assms(1,5,6) by (simp add: cf_checkForExpiredRecords_def pfs_overdue s0 pf_key_def not_le)
qed

text \<open>A process with a pending process flow.\<close>

definition pending_pf0 :: sf where
  "pending_pf0 = pending0\<lparr>m_procs := [(\<lparr>hpid = 7, createTS = 7\<rparr>, (proc0 7)\<lparr>pfo := Some \<lparr>exportTime = 1, lastUpdate = 1,
     procflow = populateProcFlow OP_CLONE (event0 ''PPME_SYSCALL_CLONE_X'' 5 (thread0 7 7) None 0) \<lparr>hpid = 7, createTS = 7\<rparr>\<rparr>\<rparr>)],
     m_pfSet := [\<lparr>hpid = 7, createTS = 7\<rparr>], cf_lastCheck := 1\<rparr>"

theorem cf_check_complete_witness:
  "\<exists>s1. cf_checkForExpiredRecords lib0 pending_pf0 = Some (1, s1) \<and>
     list_all (\<lambda>r. difftime 41 (pf_key s1 r) < m_nfExportInterval (m_cxt s1)) (m_pfSet s1)"
proof -
  have t: "getCurrentTime lib0 pending_pf0 = (41, pending_pf0\<lparr>reads := 41\<rparr>)"
    by (simp add: getCurrentTime_def pending_pf0_def pending0_def cache0_def state0_def cxt0_def lib0_def)
  have "set_ok (pf_stamp pending_pf0) (m_pfSet pending_pf0)" "0 < m_nfExportInterval (m_cxt pending_pf0)" "cf_lastCheck pending_pf0 \<noteq> 0"
    "1 \<le> difftime 41 (cf_lastCheck pending_pf0)"
    "length (filter (\<lambda>r. difftime 41 (pf_key pending_pf0 r) \<ge> m_nfExportInterval (m_cxt pending_pf0)) (m_pfSet pending_pf0)) = 1"
    by code_simp+
  moreover have "clock_from lib0 41 (pending_pf0\<lparr>reads := 41\<rparr>)"
    by (simp add: clock_from_def pending_pf0_def pending0_def cache0_def state0_def cxt0_def lib0_def)
  ultimately show ?thesis using cf_check_complete [OF t] by simp
qed



end
