(* ===== verification/Accounting.thy ===== *)
theory Accounting
  imports Expiry
begin

text \<open>
  The books of a network flow. Between its creation and its removal a flow is updated by events and
  exported at the end of every interval; each export writes the counters and sets them to zero. The
  records written and the counters still pending together account for every operation.
\<close>

section \<open>Counters\<close>

fun is_net_rec :: "sfrec \<Rightarrow> bool" where "is_net_rec (R_NetworkFlow f) = True" | "is_net_rec _ = False"

fun net_rec :: "(NetworkFlow \<Rightarrow> int) \<Rightarrow> sfrec \<Rightarrow> int" where
  "net_rec cnt (R_NetworkFlow f) = cnt f"
| "net_rec cnt _ = 0"

text \<open>What the network flows written to the current output add up to.\<close>

definition reported :: "(NetworkFlow \<Rightarrow> int) \<Rightarrow> sf \<Rightarrow> int" where
  "reported cnt s = (\<Sum>r \<leftarrow> recs_of is_net_rec s. net_rec cnt r)"

text \<open>A record that would not be written has nothing to report.\<close>

definition counted :: "NetworkFlow \<Rightarrow> bool" where
  "counted nf = (no_ops (nf_opFlags nf) \<longrightarrow> nf_numWSendOps nf = 0 \<and> nf_numWSendBytes nf = 0 \<and>
     nf_numRRecvOps nf = 0 \<and> nf_numRRecvBytes nf = 0)"

text \<open>
  The life of the flow at an address: it is updated by an event that does not close it, or exported.
  The list holds the operations it has seen.
\<close>

inductive nf_life :: "OID \<Rightarrow> NFKey \<Rightarrow> ref \<Rightarrow> sf \<Rightarrow> (OpFlags \<times> sinsp_evt) list \<Rightarrow> sf \<Rightarrow> bool" for oid key r s where
  born: "nf_life oid key r s [] s"
| event: "nf_life oid key r s ops s1 \<Longrightarrow> flag \<noteq> OP_CLOSE \<Longrightarrow> processExistingNF I ev oid flag key r s1 = Some (u, s2) \<Longrightarrow>
    nf_life oid key r s (ops @ [(flag, ev)]) s2"
| interval: "nf_life oid key r s ops s1 \<Longrightarrow> exportNetworkFlow I r s1 = Some (u, s2) \<Longrightarrow> nf_life oid key r s ops s2"

inductive_cases nf_life_NilE: "nf_life oid key r s [] s1"

section \<open>One step\<close>

lemma or_trunc: "no_ops (or w (op_val f)) \<Longrightarrow> f = OP_TRUNCATE \<and> no_ops w"
proof -
  assume a: "no_ops (or w (op_val f))"
  have "has_op (or w (op_val f)) f" by simp
  then have "or w (op_val f) \<noteq> 0" using has_op_0 by metis
  then have eq: "or w (op_val f) = op_val OP_TRUNCATE" using a by (simp add: no_ops_def)
  have f: "f = OP_TRUNCATE" using \<open>has_op (or w (op_val f)) f\<close> unfolding eq has_op_val .
  show ?thesis
  proof (cases "has_op w OP_TRUNCATE")
    case True
    then have "or w (op_val OP_TRUNCATE) = w"
      by (intro bit_eqI) (auto simp: has_op_def and_op_val bit_or_iff bit_op_val simp del: op_val.simps)
    then show ?thesis using eq f by (simp add: no_ops_def)
  next
    case False
    have "w = 0"
    proof (rule bit_eqI)
      fix n
      have "bit (or w (op_val f)) n = bit (op_val OP_TRUNCATE) n" using eq by simp
      then show "bit w n = bit 0 n" using False f by (auto simp: bit_or_iff bit_op_val has_op_def and_op_val simp del: op_val.simps)
    qed
    then show ?thesis using f by (simp add: no_ops_def)
  qed
qed

lemma counted_update: "counted nf \<Longrightarrow> counted (count_op f ev (nf\<lparr>nf_opFlags := or (nf_opFlags nf) (op_val f)\<rparr>))"
proof -
  assume c: "counted nf"
  let ?w = "or (nf_opFlags nf) (op_val f)"
  have "no_ops ?w \<Longrightarrow> f = OP_TRUNCATE \<and> no_ops (nf_opFlags nf)" by (rule or_trunc)
  then show ?thesis using c by (cases "no_ops ?w") (simp_all add: counted_def del: op_val.simps)
qed

lemma counted_reup: "counted (nf_reup t nf)"
  by (simp add: counted_def nf_reup_def)

lemma recs_clocks [simp]:
  "recs_of own (snd (getSinspTime I s)) = recs_of own s" "recs_of own (snd (getCurrentTime I s)) = recs_of own s"
  by (simp_all add: recs_of_def getSinspTime_def getCurrentTime_def)

lemma recs_put_flow [simp]: "recs_of own (put_flow r d s) = recs_of own s"
  by (simp add: recs_of_def put_flow_def)

lemma exportProcess_recs:
  "(\<And>p. \<not> own (R_Pod p)) \<Longrightarrow> (\<And>c. \<not> own (R_Container c)) \<Longrightarrow> (\<And>p. \<not> own (R_Process p)) \<Longrightarrow>
     recs_of own (snd (exportProcess I oid s)) = recs_of own s"
  by (auto simp: exportProcess_def put_proc_def writeProcess_def Let_def split: option.splits)

lemma event_step:
  assumes "heap s r = Some (Net n)" and "flag \<noteq> OP_CLOSE" and "processExistingNF I ev oid flag key r s = Some (u, s2)"
  shows "recs_of own s2 = recs_of own s \<and> heap s2 r = Some (Net (fst (updateNetFlow I flag ev n s)))"
proof -
  have "s2 = put_flow r (Net (fst (updateNetFlow I flag ev n s))) (snd (updateNetFlow I flag ev n s))"
    using assms by (auto simp: processExistingNF_def deref_net_def Let_def split_beta)
  moreover have "snd (updateNetFlow I flag ev n s) = snd (getCurrentTime I s)"
    by (simp add: updateNetFlow_def split_beta)
  ultimately show ?thesis by (simp add: put_flow_def recs_of_def getCurrentTime_def)
qed

lemma interval_step:
  assumes "heap s r = Some (Net n)" and "exportNetworkFlow I r s = Some (u, s2)"
  shows "\<exists>t t2. heap s2 r = Some (Net (n\<lparr>netflow := nf_reup t2 ((netflow n)\<lparr>nf_endTs := t\<rparr>)\<rparr>)) \<and>
    recs_of is_net_rec s2 = recs_of is_net_rec s @
      (if no_ops (nf_opFlags (netflow n)) then [] else [R_NetworkFlow ((netflow n)\<lparr>nf_endTs := t\<rparr>)])"
proof -
  define t where "t = fst (getSinspTime I s)"
  let ?nf = "(netflow n)\<lparr>nf_endTs := t\<rparr>"
  let ?e = "exportProcess I (nf_procOID ?nf) (snd (getSinspTime I s))"
  let ?w = "writeNetFlow I ?nf (map_option p_proc (fst ?e)) (snd ?e)"
  have s2: "s2 = put_flow r (Net (n\<lparr>netflow := nf_reup (fst (getSinspTime I ?w)) ?nf\<rparr>)) (snd (getSinspTime I ?w))"
    using assms by (auto simp: exportNetworkFlow_def deref_net_def Let_def split_beta t_def)
  have "recs_of is_net_rec ?w = recs_of is_net_rec s @ (if no_ops (nf_opFlags (netflow n)) then [] else [R_NetworkFlow ?nf])"
    by (simp add: writeNetFlow_def exportProcess_recs)
  then show ?thesis unfolding s2 
    by (intro exI [of _ t] exI [of _ "fst (getSinspTime I ?w)"] conjI) (simp add: put_flow_def, simp)
qed

section \<open>The books balance\<close>

text \<open>A counter of the record: what an operation adds to it, and that an export sets it to zero.\<close>

locale flow_counter =
  fixes cnt :: "NetworkFlow \<Rightarrow> int"
    and inc :: "OpFlags \<Rightarrow> sinsp_evt \<Rightarrow> int"
  assumes cnt_op: "cnt (count_op f ev nf) = cnt nf + inc f ev"
    and cnt_flags: "cnt (nf\<lparr>nf_opFlags := w\<rparr>) = cnt nf"
    and cnt_end: "cnt (nf\<lparr>nf_endTs := t\<rparr>) = cnt nf"
    and cnt_reup: "cnt (nf_reup t nf) = 0"
    and cnt_idle: "counted nf \<Longrightarrow> no_ops (nf_opFlags nf) \<Longrightarrow> cnt nf = 0"
begin

lemma balance:
  assumes "nf_life oid key r s ops s1" and "heap s r = Some (Net n)" and "counted (netflow n)"
  shows "\<exists>n1. heap s1 r = Some (Net n1) \<and> counted (netflow n1) \<and>
    reported cnt s1 + cnt (netflow n1) = reported cnt s + cnt (netflow n) + (\<Sum>(f, ev) \<leftarrow> ops. inc f ev)"
  using assms
proof (induction rule: nf_life.induct)
  case born
  then show ?case by simp
next
  case (event ops s1 flag I ev u s2)
  then obtain n1 where n1: "heap s1 r = Some (Net n1)" "counted (netflow n1)"
    "reported cnt s1 + cnt (netflow n1) = reported cnt s + cnt (netflow n) + (\<Sum>(f, ev) \<leftarrow> ops. inc f ev)" by blast
  from event_step [OF n1(1) event(2,3)] show ?case
    using n1 counted_update [OF n1(2), of flag ev]
    by (auto simp: reported_def updateNetFlow_netflow cnt_op cnt_flags)
next
  case (interval ops s1 I u s2)
  then obtain n1 where n1: "heap s1 r = Some (Net n1)" "counted (netflow n1)"
    "reported cnt s1 + cnt (netflow n1) = reported cnt s + cnt (netflow n) + (\<Sum>(f, ev) \<leftarrow> ops. inc f ev)" by blast
  from interval_step [OF n1(1) interval(2)] show ?case
    using n1 cnt_idle [OF n1(2)] by (auto simp: reported_def cnt_end cnt_reup counted_reup)
qed

end

interpretation sends: flow_counter nf_numWSendOps "\<lambda>f ev. if f = OP_WRITE_SEND then 1 else 0"
  by unfold_locales (simp_all add: nf_reup_def counted_def)

interpretation sent: flow_counter nf_numWSendBytes "\<lambda>f ev. if f = OP_WRITE_SEND then max 0 (int32 (getSyscallResult ev)) else 0"
  by unfold_locales (simp_all add: nf_reup_def counted_def)

interpretation recvs: flow_counter nf_numRRecvOps "\<lambda>f ev. if f = OP_READ_RECV then 1 else 0"
  by unfold_locales (simp_all add: nf_reup_def counted_def)

interpretation received: flow_counter nf_numRRecvBytes "\<lambda>f ev. if f = OP_READ_RECV then max 0 (int32 (getSyscallResult ev)) else 0"
  by unfold_locales (simp_all add: nf_reup_def counted_def)

lemma sum_ops:
  "(\<Sum>(f, ev) \<leftarrow> ops. if f = g then 1 else 0) = int (length (ops_of g ops))"
  "(\<Sum>(f, ev) \<leftarrow> ops. if f = g then max 0 (int32 (getSyscallResult ev)) else 0) = bytes_of g ops"
  by (induction ops) auto

text \<open>C19: Nothing a network flow sees is lost or counted twice while it lives: through any sequence of events and
  exports, what the records written report and what the flow still holds add up to what was there at
  the start and the operations since, for the numbers of sends and receives and for their bytes.\<close>

theorem traffic_conserved:
  assumes "nf_life oid key r s ops s1" and "heap s r = Some (Net n)" and "counted (netflow n)"
  shows "\<exists>n1. heap s1 r = Some (Net n1) \<and>
    reported nf_numWSendOps s1 + nf_numWSendOps (netflow n1) =
      reported nf_numWSendOps s + nf_numWSendOps (netflow n) + int (length (ops_of OP_WRITE_SEND ops)) \<and>
    reported nf_numWSendBytes s1 + nf_numWSendBytes (netflow n1) =
      reported nf_numWSendBytes s + nf_numWSendBytes (netflow n) + bytes_of OP_WRITE_SEND ops \<and>
    reported nf_numRRecvOps s1 + nf_numRRecvOps (netflow n1) =
      reported nf_numRRecvOps s + nf_numRRecvOps (netflow n) + int (length (ops_of OP_READ_RECV ops)) \<and>
    reported nf_numRRecvBytes s1 + nf_numRRecvBytes (netflow n1) =
      reported nf_numRRecvBytes s + nf_numRRecvBytes (netflow n) + bytes_of OP_READ_RECV ops"
  using sends.balance [OF assms] sent.balance [OF assms] recvs.balance [OF assms] received.balance [OF assms]
  unfolding sum_ops by auto

text \<open>The flow that is pending sends twelve more bytes and is exported.\<close>

definition send1 :: sinsp_evt where
  "send1 = event0 ''PPME_SOCKET_SEND_X'' 6 (thread0 7 7) (Some socket0) 12"

definition updated0 :: sf where
  "updated0 = snd (the (processExistingNF lib0 send1 \<lparr>hpid = 7, createTS = 7\<rparr> OP_WRITE_SEND (canonicalizeKey (netflow sent0)) 0 pending0))"

definition exported0 :: sf where
  "exported0 = snd (the (exportNetworkFlow lib0 0 updated0))"

lemma exported0_life:
  "nf_life \<lparr>hpid = 7, createTS = 7\<rparr> (canonicalizeKey (netflow sent0)) 0 pending0 [(OP_WRITE_SEND, send1)] exported0"
proof -
  have "processExistingNF lib0 send1 \<lparr>hpid = 7, createTS = 7\<rparr> OP_WRITE_SEND (canonicalizeKey (netflow sent0)) 0 pending0 \<noteq> None"
    "exportNetworkFlow lib0 0 updated0 \<noteq> None" by code_simp+
  then have steps: "processExistingNF lib0 send1 \<lparr>hpid = 7, createTS = 7\<rparr> OP_WRITE_SEND (canonicalizeKey (netflow sent0)) 0 pending0 =
      Some ((), updated0)" "exportNetworkFlow lib0 0 updated0 = Some ((), exported0)"
    by (auto simp: updated0_def exported0_def)
  have "nf_life \<lparr>hpid = 7, createTS = 7\<rparr> (canonicalizeKey (netflow sent0)) 0 pending0 ([] @ [(OP_WRITE_SEND, send1)]) updated0"
    by (rule nf_life.event [OF nf_life.born _ steps(1)]) simp
  from nf_life.interval [OF this steps(2)] show ?thesis by simp
qed

theorem traffic_conserved_witness:
  "\<exists>n1. heap exported0 0 = Some (Net n1) \<and> reported nf_numWSendBytes exported0 + nf_numWSendBytes (netflow n1) = 24 \<and>
     reported nf_numWSendBytes exported0 = 24"
proof -
  have h: "heap pending0 0 = Some (Net sent0)" by (simp add: pending0_def)
  have "counted (netflow sent0)" "reported nf_numWSendBytes pending0 = 0" "nf_numWSendBytes (netflow sent0) = 12"
    "bytes_of OP_WRITE_SEND [(OP_WRITE_SEND, send1)] = 12" "reported nf_numWSendBytes exported0 = 24"
    by code_simp+
  then show ?thesis using traffic_conserved [OF exported0_life h] by auto
qed

end
