(* ===== verification/Spec2Isabelle.thy ===== *)
theory Spec2Isabelle
  imports Callback Flush Keys Murmur Ancestry Accounting
begin

text \<open>
  A verification of the SysFlow collector, the program that turns the system calls of a machine into
  SysFlow records.

  \<^bold>\<open>The program.\<close> \<open>src/src/collector/main.cpp\<close> reads the command line into a \<open>SysFlowConfig\<close> and builds a
  \<open>SysFlowDriver\<close> (\<open>sysflowlibs.cpp\<close>), which builds a \<open>SysFlowContext\<close> (configuration, environment,
  driver checks) and a \<open>SysFlowProcessor\<close>. The processor asks the Falco libraries for events in a
  loop. Before each event it exports the flows that are due, deletes the processes that have ended
  and rotates the output; then it dispatches the event by its type. Data events go to the
  \<open>DataFlowProcessor\<close> with its processors for network flows, file flows and file events, process events
  to the \<open>ControlFlowProcessor\<close>. All of them look their entities up in caches: \<open>ProcessContext\<close>,
  \<open>ContainerContext\<close>, \<open>FileContext\<close> and \<open>K8sContext\<close>. Records leave through a \<open>SysFlowWriter\<close>: a file, a
  socket, both, or a callback. An entity is written to an output before the first record that names
  it, and once per output; this is what the marks \<open>written\<close> in the caches are for, and what a rotation
  has to undo.

  \<^bold>\<open>The model.\<close> The state of the whole collector is one record, \<^typ>\<open>sf\<close>, with the fields of the
  components side by side; the hash tables are association lists with distinct keys, the ordered
  multisets sorted lists. Flows are shared between the tables of a process and the set of pending
  flows, so they live on an explicit heap behind references. An operation takes the state and returns
  a result and the new state; those that dereference pointers or may not return have the type
  \<open>('a \<times> sf) option\<close>, where \<^const>\<open>None\<close> is undefined behaviour (a null or freed pointer, an exception
  that is not caught) or divergence. Loops that walk pointers and may diverge are
  \<open>partial_function (option)\<close>; every other loop terminates by its definition, so no fuel is used.
  What is not in the repository is a parameter: the record \<^typ>\<open>inspector\<close> holds the functions of the
  Falco libraries, of the JSON and hash libraries and of the system that the code calls, the clock as a
  function of the number of its readings. \<open>trace\<close> is a history variable, the calls of the writer since
  the output was begun. Integers are mathematical where the code uses 64 bits and no claim depends on
  an overflow, words or explicit truncations elsewhere (flags, ports, addresses, hashes, the results
  of system calls).

  \<^bold>\<open>The theories\<close>, from the bottom:
  \<^item> \<open>Prelude\<close>: weakest preconditions of computations with \<^const>\<open>None\<close>, the interface of a hash table
    (locale \<open>hash_map\<close>) and ordered multisets.
  \<^item> \<open>Types\<close> (\<open>datatypes.h\<close>, \<open>op_flags.h\<close>, \<open>file_types.h\<close>, \<open>sfconfig.h\<close> and the record types of
    the format), \<open>Inspector\<close> (the libraries), \<open>State\<close> (the state, clocks, heap), \<open>Sample\<close> (a concrete
    library and machine for the witnesses), \<open>Utils\<close> (\<open>utils.cpp\<close>, \<open>utils.h\<close>).
  \<^item> \<open>Keys\<close> (the hashers and tests of \<open>datatypes.h\<close>): why a table of the code is a map. Locale
    \<open>hash_key\<close> for the keys of processes, network flows and the tables over strings.
  \<^item> \<open>Murmur\<close> (\<open>MurmurHash3.cpp\<close>): the three hash functions on bytes, that a change within a block is
    never lost (locale \<open>block_hash\<close>), and that the finalisers are permutations.
  \<^item> \<open>Writer\<close> (\<open>sysflowwriter\<close>, \<open>sffilewriter\<close>, \<open>sfsockwriter\<close>, \<open>sfmultiwriter\<close>, \<open>sfcallbackwriter\<close>).
  \<^item> \<open>K8s\<close>, \<open>Containers\<close>, \<open>Files\<close>, \<open>Processes\<close>: the caches; \<open>Caches\<close> shows that every cache writes an
    object once per output and what its purge keeps (locales \<open>write_once\<close>, \<open>purge\<close>); \<open>Ancestry\<close> that the
    walks along the parents end and what they find (locale \<open>parent_walk\<close>), and what the deletion queue
    does.
  \<^item> \<open>NetFlow\<close>, \<open>FileFlow\<close>, \<open>FileEvents\<close>, \<open>DataFlow\<close>, \<open>ControlFlow\<close>: the event processors. \<open>Expiry\<close> shows that
    the two loops over the due flows end, handle every due flow and no other (locales \<open>expiring\<close>,
    \<open>stamped_loop\<close>), \<open>Accounting\<close> that operations and bytes are neither lost nor counted twice
    (locale \<open>flow_counter\<close>).
  \<^item> \<open>Processor\<close> (\<open>sysflowprocessor.cpp\<close>, \<open>syscall_defs.h\<close>) and \<open>Config\<close> (the command line, the
    context, the error codes, the constructors).
  \<^item> \<open>Log\<close>, \<open>LogFlows\<close>, \<open>LogEvents\<close>, \<open>LogRun\<close>: the invariant \<open>linv\<close> of the output through every operation
    of the collector, the reachable states (\<open>reach\<close>) and the flush at the end.
  \<^item> \<open>Memory\<close>, \<open>MemNet\<close>, \<open>MemFile\<close>, \<open>MemProc\<close>, \<open>MemRun\<close>: the memory of the flows. The invariant \<open>hinv\<close> says
    that the heap, the tables of the processes and the set of pending flows agree; it is carried through
    the operations on network flows, on file flows, on processes and through the event loop. The states
    are those of \<open>tidy_reach\<close>, which are reached with two hypotheses: for the library a main thread
    is its own main thread (\<open>main_threads\<close>), and no process that waits for its deletion has
    flows (\<open>queue_tidy\<close>). The second is a condition on the run which the code does not ensure; a run
    without it is given. \<open>Stats\<close>: the statistics, and that their numbers agree with that memory.
    \<open>Flush\<close>: when the destructor returns, and that it frees every flow and writes what it has counted.
  \<^item> \<open>Journal\<close>: an abstract machine, a journal of files, and a simulation (locale \<open>simulation\<close>) by the
    event loop.
  \<^item> \<open>Shutdown\<close> and \<open>Driver\<close>: the destructors, the version of the schema, \<open>SysFlowDriver\<close> and \<open>main\<close>.
    \<open>Callback\<close>: the example \<open>examples/callback.cpp\<close>, what it prints and what it can rely on.

  \<^bold>\<open>The properties\<close> of this theory span the components: every file is self-contained, in a run, at
  every reachable state and when the program has ended; the collector refines the journal; the tables
  are well-typed; no flow dangles or leaks and the handlers of the flows are defined as long as no process
  is deleted that has flows, and otherwise a flow is leaked or handed to a callback without its process;
  a rotation unmarks everything and loses no flow; the destructor frees and writes every flow, when it does
  not use the container context after its deletion; flows whose keys collide lead to a null pointer; the
  record of a container can be missing in a file that names it. The properties of one component stand in
  its theory. Witnesses apply a property at a concrete machine, whose runs are evaluated.

  \<^bold>\<open>Not modelled.\<close> The log messages (\<open>logger.h\<close>), apart from the numbers of the statistics; the usage text
  and the version output; the installation of the signal handlers, whose effect is an input of the loop;
  the Avro encoding, the loading of the schema and the generated schema classes, which are not in the
  repository; \<open>getExportTime\<close>, which nothing calls; bodies that are commented out in \<open>k8scontext.cpp\<close>; the
  programs under \<open>tests\<close>, which are not part of the collector.
\<close>

section \<open>A concrete run\<close>

text \<open>
  A directory is made and data is sent on a socket; the second event comes after the rotation
  interval has passed, so the run has two output files.
\<close>

definition mkdir0 :: sinsp_evt where
  "mkdir0 = event0 ''PPME_SYSCALL_MKDIR_X'' 5000000000 (thread0 7 7) None 0"

definition send0 :: sinsp_evt where
  "send0 = event0 ''PPME_SOCKET_SEND_X'' 6000000000 (thread0 7 7) (Some socket0) 12"

definition inputs0 :: "(inspector \<times> bool \<times> scap_result) list" where
  "inputs0 = [(lib0, False, SCAP_SUCCESS mkdir0), (lib0\<lparr>clock := (\<lambda>n. 500 + int n)\<rparr>, False, SCAP_SUCCESS send0),
     (lib0, False, SCAP_EOF)]"

definition start0 :: sf where
  "start0 = the (SysFlowProcessor_new lib0 4 cxt0)"

definition end0 :: sf where
  "end0 = snd (the (run lib0 inputs0 start0))"

definition open0 :: sf where
  "open0 = snd (the (writer_initialize lib0 start0))"

text \<open>The program on a machine with the kernel module, with the same events.\<close>

definition world0 :: world where
  "world0 = \<lparr>w_env = (\<lambda>_. None), w_rpath = (\<lambda>_. None), w_modules = Some [''falco 900000 1 - Live''], w_cpus = 4,
     w_state_sc = {}, w_throws = (\<lambda>_. None), w_dim = 0,
     w_schema = None, w_lib = lib0, w_inputs = inputs0, w_lasterr = '''', w_end = lib0\<rparr>"

definition opts0 :: "opt list" where
  "opts0 = [(CHR ''k'', ''kmod''), (CHR ''w'', ''out''), (CHR ''G'', ''300'')]"

definition exit0 :: sf where
  "exit0 = the (final_state (the (main world0 ''sfcollector'' opts0)))"

text \<open>A process in a container sends data shortly before the output is rotated, and the run ends after that.\<close>

definition inputs1 :: "(inspector \<times> bool \<times> scap_result) list" where
  "inputs1 =
     [(lib0\<lparr>clock := (\<lambda>n. 290)\<rparr>, False,
       SCAP_SUCCESS (event0 ''PPME_SOCKET_SEND_X'' 6000000000 ((thread0 7 7)\<lparr>ti_container_id := ''c0ffee''\<rparr>) (Some socket0) 12)),
      (lib0\<lparr>clock := (\<lambda>n. 310)\<rparr>, False, SCAP_TIMEOUT),
      (lib0, False, SCAP_EOF)]"

definition boxed0 :: sf where
  "boxed0 = snd (the (run lib0 inputs1 start0))"

text \<open>The state in which the second event of the run finds the output due for rotation.\<close>

definition due0 :: sf where
  "due0 = snd (the (run lib0 [(lib0, False, SCAP_SUCCESS mkdir0), (lib0, False, SCAP_SUCCESS send0), (lib0, False, SCAP_EOF)] start0))"

definition late0 :: inspector where
  "late0 = lib0\<lparr>clock := (\<lambda>n. 500 + int n)\<rparr>"

definition rotated0 :: sf where
  "rotated0 = snd (the (checkAndRotateFile late0 due0))"

text \<open>
  The main thread of a process exits while another of its threads goes on; the process is deleted
  two seconds later, and the flow of the other thread is idle after that.
\<close>

definition inputs2 :: "(inspector \<times> bool \<times> scap_result) list" where
  "inputs2 =
     [(lib0\<lparr>clock := (\<lambda>n. 10)\<rparr>, False, SCAP_SUCCESS (event0 ''PPME_PROCEXIT_1_E'' 6000000000 (thread0 7 7) None 0)),
      (lib0\<lparr>clock := (\<lambda>n. 10)\<rparr>, False, SCAP_SUCCESS (event0 ''PPME_SOCKET_SEND_X'' 6000000001 (thread0 7 8) (Some socket0) 12)),
      (lib0\<lparr>clock := (\<lambda>n. 12)\<rparr>, False, SCAP_TIMEOUT),
      (lib0\<lparr>clock := (\<lambda>n. 80)\<rparr>, False, SCAP_TIMEOUT),
      (lib0, False, SCAP_EOF)]"



definition world2 :: world where
  "world2 = world0\<lparr>w_inputs :=
     take 3 inputs2 @ [(lib0\<lparr>clock := (\<lambda>n. 45)\<rparr>, False, SCAP_TIMEOUT), (lib0\<lparr>clock := (\<lambda>n. 45)\<rparr>, False, SCAP_EOF)]\<rparr>"

definition example_start :: "world \<Rightarrow> sf" where
  "example_start W =
     (case example_config (w_dim W) [''k''] of
        Go c \<Rightarrow> (case SysFlowDriver_new W c of Some (Inr (Some s)) \<Rightarrow> s | _ \<Rightarrow> start0)
      | Exit n \<Rightarrow> start0)"

definition calls2 :: sf where
  "calls2 = snd (the (run lib0 (w_inputs world2) (example_start world2)))"










lemma start0: "SysFlowProcessor_new lib0 4 cxt0 = Some start0"
proof -
  have "SysFlowProcessor_new lib0 4 cxt0 \<noteq> None" by code_simp
  then show ?thesis by (auto simp: start0_def)
qed

lemma end0: "run lib0 inputs0 start0 = Some (Break, end0)"
proof -
  have "run lib0 inputs0 start0 \<noteq> None" "fst (the (run lib0 inputs0 start0)) = Break" by code_simp+
  then show ?thesis by (auto simp: end0_def)
qed

lemma open0: "writer_initialize lib0 start0 = Some ((), open0)" "run_loop inputs0 open0 = Some (Break, end0)"
proof -
  have "writer_initialize lib0 start0 \<noteq> None" by code_simp
  then show o: "writer_initialize lib0 start0 = Some ((), open0)" by (auto simp: open0_def)
  show "run_loop inputs0 open0 = Some (Break, end0)" using end0 by (simp add: run_def o)
qed

lemma exit0: "main world0 ''sfcollector'' opts0 = Some (Exited 0 (Some exit0))"
proof -
  let ?m = "main world0 ''sfcollector'' opts0"
  have "?m \<noteq> None" "(case the ?m of Exited n st \<Rightarrow> n = 0 \<and> st \<noteq> None | Running s \<Rightarrow> False)" by code_simp+
  then show ?thesis by (auto simp: exit0_def split: ended.splits)
qed

lemma boxed0: "run lib0 inputs1 start0 = Some (Break, boxed0)"
proof -
  have "run lib0 inputs1 start0 \<noteq> None" "fst (the (run lib0 inputs1 start0)) = Break" by code_simp+
  then show ?thesis by (auto simp: boxed0_def)
qed


text \<open>A run in which no process is deleted while it has flows.\<close>

lemma example_start2: "\<exists>cxt. SysFlowProcessor_new lib0 (-1) cxt = Some (example_start world2)"
proof -
  have "(case example_config 0 [''k''] of
           Go c \<Rightarrow> (case SysFlowContext_new (\<lambda>_. None) (\<lambda>_. None) (w_modules world0) 4 c of
             Inr cxt \<Rightarrow> SysFlowProcessor_new lib0 (-1) cxt \<noteq> None | Inl e \<Rightarrow> False)
         | Exit n \<Rightarrow> False)" by code_simp
  then show ?thesis
    by (auto simp: example_start_def SysFlowDriver_new_def world2_def world0_def getSchemaVersion_def first_throw_None
        split: cli_result.splits sum.splits option.splits)
qed

lemma calls2: "run lib0 (w_inputs world2) (example_start world2) = Some (Break, calls2)"
proof -
  have "map_option fst (run lib0 (w_inputs world2) (example_start world2)) = Some Break" by code_simp
  then show ?thesis by (auto simp: calls2_def)
qed

lemma calls2_reach: "reach calls2"
  using example_start2 run_reach [OF _ calls2] by blast

lemma end0_tidy: "tidy_reach end0"
proof (rule run_loop_tidy [OF tidy_reach.opened [OF start0 open0(1)] _ _ open0(2)])
  show "\<forall>(I, x) \<in> set inputs0. main_threads I"
    by (simp add: inputs0_def main_threads_def main_thread_or_self_def lib0_def)
  show "tidy_run inputs0 open0" by code_simp
qed



lemma rotated0: "checkAndRotateFile late0 due0 = Some (True, rotated0)"
proof -
  have "checkAndRotateFile late0 due0 \<noteq> None" "fst (the (checkAndRotateFile late0 due0)) = True" by code_simp+
  then show ?thesis by (auto simp: rotated0_def)
qed

section \<open>The output of a run\<close>

text \<open>C1: In every file a run of a new processor has produced, closed at a rotation or still open, the
  first record is a header, and every process event and file event comes after the record of its
  process and the records of its files in the same file.\<close>

theorem run_files_ok:
  assumes "SysFlowProcessor_new I version cxt = Some s0" and "run I1 inputs s0 = Some (c, s)"
  shows "list_all file_ok (output_files (m_writer s))"
  using run_linv [OF assms] log_ok_output by (auto simp: linv_def list_all_iff)

theorem run_files_ok_witness:
  "map length (output_files (m_writer end0)) = [4, 2] \<and> list_all file_ok (output_files (m_writer end0))"
proof
  show "map length (output_files (m_writer end0)) = [4, 2]" by code_simp
qed (rule run_files_ok [OF start0 end0])

text \<open>C2: In every reachable state, at every call of the writer in the current output, the process and the files
  handed over with the record have been written to that output before, and the process is the one the
  record names; the file writer holds exactly the records of these calls, in their order, and has
  counted them.\<close>

theorem run_well_logged:
  assumes "reach s"
  shows "well_logged (trace s) \<and> w_sync (m_writer s) (trace s)"
  using reach_linv [OF assms] by (simp add: linv_def log_ok_def)

theorem run_well_logged_witness:
  "length (trace end0) = 2 \<and> well_logged (trace end0) \<and> w_sync (m_writer end0) (trace end0)"
proof
  show "length (trace end0) = 2" by code_simp
qed (rule run_well_logged [OF run_reach [OF start0 end0]])

text \<open>C3: Whatever the command line, the environment and the answers of the library, in every file the program
  has produced the events come after the records they need: while it runs, when an exception has
  ended it, and after the destructor has written the truncated flows.\<close>

theorem program_files_ok:
  assumes "main W argv0 opts = Some e" and "final_state e = Some s"
  shows "list_all file_ok (output_files (m_writer s))"
  using assms
proof (rule main_states)
  fix cxt v s0 c s1
  assume new: "SysFlowProcessor_new (w_lib W) v cxt = Some s0" and run: "run (w_lib W) (w_inputs W) s0 = Some (c, s1)"
    and s: "s = s1 \<or> (c = Break \<and> e = Exited 0 (Some s) \<and> (\<exists>u. SysFlowProcessor_delete (w_end W) s1 = Some (u, s)))"
  have inv: "linv s1" by (rule run_linv [OF new run])
  then have "log_ok s" using s wlpD [OF delete_log [OF inv]] by (auto simp: linv_def)
  then show ?thesis using log_ok_output by (simp add: list_all_iff)
qed

theorem program_files_ok_witness:
  "map length (output_files (m_writer exit0)) = [4, 3] \<and> list_all file_ok (output_files (m_writer exit0))"
proof
  show "map length (output_files (m_writer exit0)) = [4, 3]" by code_simp
qed (rule program_files_ok [OF exit0], simp)



text \<open>C5: In every reachable state the table of the processes holds no identifier twice, a process is stored under
  its own identifier, and the flows in its tables are
  flows of the right kind that carry this identifier, as long as they are allocated.\<close>

theorem tables_typed:
  assumes "reach s" and "find_proc s oid = Some p"
  shows "distinct (map fst (m_procs s)) \<and> proc_oid (p_proc p) = oid \<and>
    list_all (\<lambda>(k, r). pred_option (\<lambda>d. case d of Net n \<Rightarrow> nf_procOID (netflow n) = oid | Fil f \<Rightarrow> False) (heap s r)) (netflows p) \<and>
    list_all (\<lambda>(k, r). pred_option (\<lambda>d. case d of Net n \<Rightarrow> False | Fil f \<Rightarrow> ff_procOID (fileflow f) = oid) (heap s r)) (fileflows p) \<and>
    pred_option (\<lambda>f. pf_procOID (procflow f) = oid) (pfo p)"
proof -
  have ok: "proc_ok s oid p" by (rule linv_proc [OF reach_linv [OF assms(1)] assms(2)])
  have n: "pred_option (\<lambda>d. flow_of oid d net) (heap s r)" if "owns s oid net r" for r net
    using that by (cases "heap s r") (simp_all add: owns_def)
  have "list_all (\<lambda>(k, r). pred_option (\<lambda>d. flow_of oid d True) (heap s r)) (netflows p)"
    "list_all (\<lambda>(k, r). pred_option (\<lambda>d. flow_of oid d False) (heap s r)) (fileflows p)"
    using ok n by (simp_all add: proc_ok_def list_all_iff case_prod_unfold)
  moreover have "pred_option (\<lambda>f. pf_procOID (procflow f) = oid) (pfo p)"
    using ok by (cases "pfo p") (simp_all add: proc_ok_def)
  moreover have "(\<lambda>d. flow_of oid d True) = (\<lambda>d. case d of Net n \<Rightarrow> nf_procOID (netflow n) = oid | Fil f \<Rightarrow> False)"
    "(\<lambda>d. flow_of oid d False) = (\<lambda>d. case d of Net n \<Rightarrow> False | Fil f \<Rightarrow> ff_procOID (fileflow f) = oid)"
    by (simp_all add: flow_of_def fun_eq_iff split: DataFlow.split)
  ultimately show ?thesis using ok reach_linv [OF assms(1)] by (simp add: proc_ok_def linv_def tbl_ok_def)
qed

theorem tables_typed_witness:
  "\<exists>p. find_proc end0 \<lparr>hpid = 7, createTS = 7\<rparr> = Some p \<and> map snd (netflows p) = [0] \<and>
     proc_oid (p_proc p) = \<lparr>hpid = 7, createTS = 7\<rparr>"
proof -
  let ?p = "the (find_proc end0 \<lparr>hpid = 7, createTS = 7\<rparr>)"
  have "find_proc end0 \<lparr>hpid = 7, createTS = 7\<rparr> \<noteq> None" "map snd (netflows ?p) = [0]" by code_simp+
  then have p: "find_proc end0 \<lparr>hpid = 7, createTS = 7\<rparr> = Some ?p" "map snd (netflows ?p) = [0]" by auto
  show ?thesis
    by (intro exI conjI, rule p(1), rule p(2), rule conjunct1 [OF conjunct2 [OF tables_typed [OF run_reach [OF start0 end0] p(1)]]])
qed

section \<open>The memory of the flows\<close>

text \<open>C6: As long as no process is deleted that still has flows, the memory of the flows is in order between any
  two events: the set of pending flows holds every allocated flow once and nothing else, the process
  of each flow is in the table, and the tables of a process hold exactly its flows, each under the key
  computed from it. So no pointer dangles and no flow is leaked.\<close>

theorem flows_memory_safe:
  assumes "tidy_reach s"
  shows "flows_indexed s"
  by (rule hinv_indexed [OF tidy_reach_hinv [OF assms]])

theorem flows_memory_safe_witness:
  "m_dfSet end0 = [0] \<and> heap end0 0 \<noteq> None \<and> flows_indexed end0"
proof (intro conjI)
  show "m_dfSet end0 = [0]" "heap end0 0 \<noteq> None" by code_simp+
qed (rule flows_memory_safe [OF end0_tidy])

text \<open>C7: In such a state the handlers of network flows and file flows follow no dangling pointer: whenever the
  process of the event can be determined, and for a file flow its descriptor and key, they return.\<close>

theorem flow_handlers_defined:
  assumes "tidy_reach s" and "main_threads I" and "getProcess I ev REUP s \<noteq> None"
  shows "handleNetFlowEvent I ev flag s \<noteq> None \<and>
    (find_fdinfo I ev flag = Some (Some fdinfo, fd) \<and> Option.bind (ev_tinfo ev) (\<lambda>ti. file_flow_key fdinfo ti fd) \<noteq> None \<longrightarrow>
     handleFileFlowEvent I ev flag s \<noteq> None)"
proof -
  note h = tidy_reach_hinv [OF assms(1)]
  have "handleNetFlowEvent I ev flag s \<noteq> None" using handleNetFlowEvent_wp [OF h assms(2,3), of flag] by (auto elim: wpE)
  moreover have "handleFileFlowEvent I ev flag s \<noteq> None"
    if "find_fdinfo I ev flag = Some (Some fdinfo, fd)" "Option.bind (ev_tinfo ev) (\<lambda>ti. file_flow_key fdinfo ti fd) \<noteq> None"
  proof -
    have "wp (handleFileFlowEvent I ev flag s) (\<lambda>n s1. hinv {} {} s1)"
      by (rule handleFileFlowEvent_wp [OF h assms(2,3) that(1)]) (use that(2) in auto)
    then show ?thesis by (auto elim: wpE)
  qed
  ultimately show ?thesis by blast
qed

theorem flow_handlers_defined_witness:
  "handleNetFlowEvent lib0 send0 OP_CLOSE end0 \<noteq> None \<and>
   handleFileFlowEvent lib0 (event0 ''PPME_SYSCALL_OPEN_X'' 7000000000 (thread0 7 7) (Some regfile0) 3) OP_OPEN end0 \<noteq> None"
proof
  have m: "main_threads lib0" by (simp add: main_threads_def main_thread_or_self_def lib0_def)
  let ?ev = "event0 ''PPME_SYSCALL_OPEN_X'' 7000000000 (thread0 7 7) (Some regfile0) 3"
  have "getProcess lib0 send0 REUP end0 \<noteq> None" by code_simp
  from flow_handlers_defined [OF end0_tidy m this] show "handleNetFlowEvent lib0 send0 OP_CLOSE end0 \<noteq> None" by simp
  have "getProcess lib0 ?ev REUP end0 \<noteq> None" "find_fdinfo lib0 ?ev OP_OPEN = Some (Some regfile0, ev_fdnum ?ev)"
    "Option.bind (ev_tinfo ?ev) (\<lambda>ti. file_flow_key regfile0 ti (ev_fdnum ?ev)) \<noteq> None" by code_simp+
  with flow_handlers_defined [OF end0_tidy m, of ?ev OP_OPEN] show "handleFileFlowEvent lib0 ?ev OP_OPEN end0 \<noteq> None" by blast
qed




section \<open>The callback interface\<close>

text \<open>C10: Whatever the collector is fed, each call of a callback hands over a flow or an event and the process it
  names, if any; for an event the process is always there, so that the example prints it. The header it
  hands over is never filled in.\<close>

theorem callback_events_complete:
  assumes "reach s" and "(h, c, p, f1, f2, r) \<in> set (callback_calls (m_writer s))"
  shows "h = SFHeader_empty \<and> rec_oid r \<noteq> None \<and> pred_option (\<lambda>q. rec_oid r = Some (proc_oid q)) p \<and>
    (is_event r \<longrightarrow> process_sysflow idx (h, c, p, f1, f2, r) \<noteq> None)"
proof -
  have ok: "call_ok (h, c, p, f1, f2, r)" using reach_calls [OF assms(1)] assms(2) by (auto simp: list_all_iff)
  have "is_event r \<longrightarrow> process_sysflow idx (h, c, p, f1, f2, r) \<noteq> None" using process_sysflow_event [OF ok] by simp
  then show ?thesis using ok by (cases p) (simp_all add: call_ok_def)
qed

theorem callback_events_complete_witness:
  "\<exists>h c p f1 f2 r. (h, c, p, f1, f2, r) \<in> set (callback_calls (m_writer calls2)) \<and> is_event r \<and>
     process_sysflow (\<lambda>_. 0) (h, c, p, f1, f2, r) \<noteq> None"
proof -
  let ?x = "hd (callback_calls (m_writer calls2))"
  have "callback_calls (m_writer calls2) \<noteq> []" "is_event (snd (snd (snd (snd (snd ?x)))))" by code_simp+
  moreover obtain h c p f1 f2 r where x: "?x = (h, c, p, f1, f2, r)" by (metis surj_pair)
  ultimately have m: "(h, c, p, f1, f2, r) \<in> set (callback_calls (m_writer calls2))" "is_event r" by (metis hd_in_set, simp add: x)
  with callback_events_complete [OF calls2_reach m(1), of "\<lambda>_. 0"] show ?thesis by blast
qed


section \<open>The end and the rotation\<close>

text \<open>C12: The destructor of the processor uses the container context after it has been deleted whenever a process
  in a container has a pending flow and no record in the current output: the container is to be
  written before the process.\<close>

theorem shutdown_use_after_free:
  assumes "find_proc s oid = Some p" and "netflows p \<noteq> [] \<or> fileflows p \<noteq> [] \<or> pfo p \<noteq> None"
    and "\<not> p_written p" and "proc_containerId (p_proc p) = Some cid"
  shows "SysFlowProcessor_delete I s = None"
  using assms by (intro stranded_undefined) (auto simp: stranded_def)

theorem shutdown_use_after_free_witness:
  "SysFlowProcessor_new lib0 4 cxt0 = Some start0 \<and> run lib0 inputs1 start0 = Some (Break, boxed0) \<and>
     SysFlowProcessor_delete lib0 boxed0 = None"
proof (intro conjI)
  let ?p = "the (find_proc boxed0 \<lparr>hpid = 7, createTS = 7\<rparr>)"
  have "find_proc boxed0 \<lparr>hpid = 7, createTS = 7\<rparr> \<noteq> None" "netflows ?p \<noteq> []" "\<not> p_written ?p"
    "proc_containerId (p_proc ?p) = Some ''c0ffee''" by code_simp+
  then show "SysFlowProcessor_delete lib0 boxed0 = None"
    by (intro shutdown_use_after_free [of boxed0 "\<lparr>hpid = 7, createTS = 7\<rparr>" ?p]) auto
qed (rule start0 boxed0)+

text \<open>Once the exit has been asked for, by a signal or by a socket that gave up, the loop ends at the next
  event or timeout; the event is not handled and nothing is written.\<close>

lemma exit_stops:
  assumes "m_exit s \<or> sig" and "res = SCAP_TIMEOUT \<or> res = SCAP_SUCCESS ev"
  shows "\<exists>s1. run_loop ((I, sig, res) # inputs) s = Some (Break, s1) \<and> trace s1 = trace s \<and> m_writer s1 = m_writer s \<and>
    m_procs s1 = m_procs s"
  using assms by (auto simp: step_def Let_def)



section \<open>Keys of file flows\<close>



section \<open>Rotation\<close>



text \<open>C17: A rotation loses no pending flow: a process with network, file or process flows stays in the
  table with the same flows.\<close>

theorem rotation_keeps_flows:
  assumes "checkAndRotateFile I s = Some (b, s1)" and "find_proc s oid = Some p" and "busy p"
  shows "\<exists>p1. find_proc s1 oid = Some p1 \<and> netflows p1 = netflows p \<and> fileflows p1 = fileflows p \<and> pfo p1 = pfo p"
  using assms(1)
proof (cases rule: rotation_cases)
  case (no s2 t)
  then have "find_proc s1 = find_proc s" by (auto simp: getCurrentTime_def split: if_splits)
  then show ?thesis using assms(2) by simp
next
  case (yes s2 t u s3 v s4)
  have "find_proc s3 = find_proc s" using wlpD [OF writer_reset_wlp yes(3)] yes(2)
    by (auto simp: set_exporter_def getCurrentTime_def split: if_splits)
  moreover have "find_proc s1 = find_proc s4" using yes(5) by auto
  ultimately show ?thesis using clearTables_spares [OF yes(4)] assms(2,3) by (simp add: spares_def)
qed

theorem rotation_keeps_flows_witness:
  "\<exists>p1. find_proc rotated0 \<lparr>hpid = 7, createTS = 7\<rparr> = Some p1 \<and> length (netflows p1) = 1"
proof -
  define p where "p = the (find_proc due0 \<lparr>hpid = 7, createTS = 7\<rparr>)"
  have "find_proc due0 \<lparr>hpid = 7, createTS = 7\<rparr> \<noteq> None"
    "length (netflows (the (find_proc due0 \<lparr>hpid = 7, createTS = 7\<rparr>))) = 1" by code_simp+
  then have "find_proc due0 \<lparr>hpid = 7, createTS = 7\<rparr> = Some p" "length (netflows p) = 1" by (auto simp: p_def)
  moreover from this have "busy p" by (auto simp: busy_def)
  ultimately show ?thesis using rotation_keeps_flows [OF rotated0, of "\<lparr>hpid = 7, createTS = 7\<rparr>" p] by auto
qed

end
